(* ===== verification/Prelude.thy ===== *)
theory Prelude
  imports
    Main
    "HOL-Library.Sublist"
    "HOL-Library.Word"
    "HOL-Library.List_Lexorder"
    "HOL-Library.Char_ord"
begin

text \<open>
  Shared vocabulary of the development.

  Rust's \<open>String\<close>, \<open>&str\<close>, \<open>Vec<u8>\<close> and \<open>&[u8]\<close> are all byte strings here: \<^typ>\<open>string\<close> is a
  list of \<^typ>\<open>char\<close>, and a \<^typ>\<open>char\<close> is one byte, so \<open>length\<close> is Rust's \<open>len()\<close> and the
  lexicographic order of \<open>List_Lexorder\<close> over the code order of \<open>Char_ord\<close> is Rust's order on byte
  vectors.

  \<open>Result<T, E>\<close> is the sum \<open>'e + 'a\<close> with \<open>Inl\<close> the error; \<open>?\<close> is \<open>res_bind\<close>. A method that
  takes \<open>&mut self\<close> (or mutates through a lock) and returns a \<open>Result\<close> is a function
  \<open>'s \<Rightarrow> ('e + 'a) \<times> 's\<close>, so that what a failing call has already written stays visible;
  its sequencing is \<open>st_bind\<close>.
\<close>

named_theorems result_simps \<open>characterisations of successful results\<close>
named_theorems key_simps \<open>unfolding of storage keys\<close>

type_synonym bytes = string
type_synonym u64 = "64 word"
type_synonym ('s, 'e, 'a) stm = "'s \<Rightarrow> ('e + 'a) \<times> 's"


section \<open>Results\<close>

definition res_bind :: "'err + 'v \<Rightarrow> ('v \<Rightarrow> 'err + 'w) \<Rightarrow> 'err + 'w" where
  "res_bind m f = (case m of Inl e \<Rightarrow> Inl e | Inr x \<Rightarrow> f x)"

definition map_err :: "('e \<Rightarrow> 'f) \<Rightarrow> 'e + 'a \<Rightarrow> 'f + 'a" where
  "map_err g m = (case m of Inl e \<Rightarrow> Inl (g e) | Inr x \<Rightarrow> Inr x)"

definition ok_or :: "'e \<Rightarrow> 'a option \<Rightarrow> 'e + 'a" where
  "ok_or e m = (case m of None \<Rightarrow> Inl e | Some x \<Rightarrow> Inr x)"

definition is_ok :: "'e + 'a \<Rightarrow> bool" where
  "is_ok m = (case m of Inl _ \<Rightarrow> False | Inr _ \<Rightarrow> True)"

text \<open>A \<open>for\<close> loop whose body is a check: it stops at the first error.\<close>

fun check_all :: "('v \<Rightarrow> 'err + unit) \<Rightarrow> 'v list \<Rightarrow> 'err + unit" where
  "check_all f [] = Inr ()"
| "check_all f (x # xs) = res_bind (f x) (\<lambda>_. check_all f xs)"

text \<open>A \<open>for\<close> loop that collects the results of its body, stopping at the first error.\<close>

fun map_res :: "('v \<Rightarrow> 'err + 'w) \<Rightarrow> 'v list \<Rightarrow> 'err + 'w list" where
  "map_res f [] = Inr []"
| "map_res f (x # xs) = res_bind (f x) (\<lambda>y. res_bind (map_res f xs) (\<lambda>ys. Inr (y # ys)))"

lemma res_bind_simps [simp]:
  "res_bind (Inl e) f = Inl e"
  "res_bind (Inr x) f = f x"
  by (simp_all add: res_bind_def)

lemma res_bind_eq_Inr [simp]:
  "res_bind m f = Inr y \<longleftrightarrow> (\<exists>x. m = Inr x \<and> f x = Inr y)"
  by (cases m) auto

lemma res_bind_eq_Inl:
  "res_bind m f = Inl e \<longleftrightarrow> m = Inl e \<or> (\<exists>x. m = Inr x \<and> f x = Inl e)"
  by (cases m) auto

lemma res_bind_cong [fundef_cong]:
  "m = m' \<Longrightarrow> (\<And>x. m' = Inr x \<Longrightarrow> f x = f' x) \<Longrightarrow> res_bind m f = res_bind m' f'"
  by (cases m') auto

lemma map_err_simps [simp]:
  "map_err g (Inl e) = Inl (g e)"
  "map_err g (Inr x) = Inr x"
  "map_err g m = Inr y \<longleftrightarrow> m = Inr y"
  by (simp_all add: map_err_def split: sum.splits)

lemma ok_or_simps [simp]:
  "ok_or e None = Inl e"
  "ok_or e (Some x) = Inr x"
  "ok_or e m = Inr y \<longleftrightarrow> m = Some y"
  by (simp_all add: ok_or_def split: option.splits)

lemma is_ok_simps [simp]: "is_ok (Inl e) = False" "is_ok (Inr x) = True"
  by (simp_all add: is_ok_def)

lemma is_ok_iff: "is_ok m \<longleftrightarrow> (\<exists>x. m = Inr x)"
  by (cases m) auto

lemma check_all_ok [simp]: "check_all f xs = Inr u \<longleftrightarrow> (\<forall>x \<in> set xs. f x = Inr ())"
  by (induction xs) auto

lemma map_res_ok: "map_res f xs = Inr ys \<longleftrightarrow> list_all2 (\<lambda>x y. f x = Inr y) xs ys"
proof (induction xs arbitrary: ys)
  case (Cons x xs)
  then show ?case by (cases ys) auto
qed auto

lemma check_all_cong [fundef_cong]:
  "xs = ys \<Longrightarrow> (\<And>x. x \<in> set ys \<Longrightarrow> f x = g x) \<Longrightarrow> check_all f xs = check_all g ys"
  by (induction ys arbitrary: xs) auto


lemma list_all2_in_right: "list_all2 P xs ys \<Longrightarrow> y \<in> set ys \<Longrightarrow> \<exists>x \<in> set xs. P x y"
  by (induction rule: list_all2_induct) auto

lemma list_all2_in_left: "list_all2 P xs ys \<Longrightarrow> x \<in> set xs \<Longrightarrow> \<exists>y \<in> set ys. P x y"
  by (induction rule: list_all2_induct) auto

lemma list_all2_map_eq: "list_all2 P xs ys \<Longrightarrow> (\<And>x y. P x y \<Longrightarrow> g y = f x) \<Longrightarrow> map g ys = map f xs"
  by (induction rule: list_all2_induct) auto

lemma find_distinct: "distinct (map f xs) \<Longrightarrow> x \<in> set xs \<Longrightarrow> List.find (\<lambda>y. f y = f x) xs = Some x"
proof (induction xs)
  case (Cons y xs)
  then show ?case by (cases "x = y") (auto simp: rev_image_eqI)
qed simp

lemma set_map_filter: "set (List.map_filter f xs) = {y. \<exists>x \<in> set xs. f x = Some y}"
  by (induction xs) (auto simp: List.map_filter_def)


section \<open>Stateful results\<close>

definition st_ret :: "'a \<Rightarrow> ('s, 'e, 'a) stm" where
  "st_ret x s = (Inr x, s)"

definition st_fail :: "'e \<Rightarrow> ('s, 'e, 'a) stm" where
  "st_fail e s = (Inl e, s)"

definition st_lift :: "'e + 'a \<Rightarrow> ('s, 'e, 'a) stm" where
  "st_lift m s = (m, s)"

definition st_bind :: "('s, 'e, 'a) stm \<Rightarrow> ('a \<Rightarrow> ('s, 'e, 'b) stm) \<Rightarrow> ('s, 'e, 'b) stm" where
  "st_bind m f s = (case m s of (Inl e, s') \<Rightarrow> (Inl e, s') | (Inr x, s') \<Rightarrow> f x s')"

text \<open>A read of the state that may fail, and an update of the state that cannot.\<close>

definition st_read :: "('s \<Rightarrow> 'e + 'a) \<Rightarrow> ('s, 'e, 'a) stm" where
  "st_read f s = (f s, s)"

definition st_modify :: "('s \<Rightarrow> 's) \<Rightarrow> ('s, 'e, unit) stm" where
  "st_modify f s = (Inr (), f s)"

lemma st_simps [simp]:
  "st_ret x s = (Inr x, s)"
  "st_fail e s = (Inl e, s)"
  "st_lift m s = (m, s)"
  "st_read f s = (f s, s)"
  "st_modify g s = (Inr (), g s)"
  by (simp_all add: st_ret_def st_fail_def st_lift_def st_read_def st_modify_def)

lemma st_bind_Inr [result_simps]:
  "st_bind m f s = (Inr y, s'') \<longleftrightarrow> (\<exists>x s'. m s = (Inr x, s') \<and> f x s' = (Inr y, s''))"
  by (auto simp: st_bind_def split: prod.splits sum.splits)

lemma st_bind_Inl [result_simps]:
  "st_bind m f s = (Inl e, s'') \<longleftrightarrow>
     m s = (Inl e, s'') \<or> (\<exists>x s'. m s = (Inr x, s') \<and> f x s' = (Inl e, s''))"
  by (auto simp: st_bind_def split: prod.splits sum.splits)

lemma st_bind_ret [simp]: "st_bind (st_ret x) f = f x"
  by (simp add: fun_eq_iff st_bind_def)

lemma st_bind_fail [simp]: "st_bind (st_fail e) f = st_fail e"
  by (simp add: fun_eq_iff st_bind_def)

lemma st_bind_ret_right [simp]: "st_bind m st_ret = m"
  by (auto simp: fun_eq_iff st_bind_def split: prod.splits sum.splits)

text \<open>
  Evaluation of a concrete run by the simplifier: with this congruence a continuation is left alone
  until the value it is applied to is known.
\<close>

lemma st_bind_lazy: "m = m' \<Longrightarrow> st_bind m f = st_bind m' f"
  by simp

text \<open>
  Every state a computation can stop in keeps an invariant, and a successful value satisfies a
  postcondition: the Hoare triple the evaluator's loops are proved with.
\<close>

definition triple ::
  "('s \<Rightarrow> bool) \<Rightarrow> ('s, 'e, 'a) stm \<Rightarrow> ('a \<Rightarrow> bool) \<Rightarrow> bool" where
  "triple I m Q \<longleftrightarrow>
     (\<forall>s r s'. I s \<longrightarrow> m s = (r, s') \<longrightarrow> I s' \<and> (\<forall>x. r = Inr x \<longrightarrow> Q x))"

lemma tripleI:
  "(\<And>s r s'. I s \<Longrightarrow> m s = (r, s') \<Longrightarrow> I s' \<and> (\<forall>x. r = Inr x \<longrightarrow> Q x)) \<Longrightarrow> triple I m Q"
  by (simp add: triple_def)

lemma tripleE:
  "triple I m Q \<Longrightarrow> I s \<Longrightarrow> m s = (r, s') \<Longrightarrow> I s' \<and> (\<forall>x. r = Inr x \<longrightarrow> Q x)"
  by (simp add: triple_def)

lemma tripleD:
  "triple I m Q \<Longrightarrow> I s \<Longrightarrow> m s = (Inr x, s') \<Longrightarrow> I s' \<and> Q x"
  by (auto simp: triple_def)

lemma tripleD_inv: "triple I m Q \<Longrightarrow> I s \<Longrightarrow> m s = (r, s') \<Longrightarrow> I s'"
  by (auto simp: triple_def)

lemma triple_ret [intro]: "Q x \<Longrightarrow> triple I (st_ret x) Q"
  by (simp add: triple_def)

lemma triple_fail [intro, simp]: "triple I (st_fail e) Q"
  by (simp add: triple_def)

lemma triple_lift: "(\<And>x. m = Inr x \<Longrightarrow> Q x) \<Longrightarrow> triple I (st_lift m) Q"
  by (simp add: triple_def)

lemma triple_bind:
  assumes "triple I m P" and "\<And>x. P x \<Longrightarrow> triple I (f x) Q"
  shows "triple I (st_bind m f) Q"
proof (rule tripleI)
  fix s r s' assume I: "I s" and run: "st_bind m f s = (r, s')"
  obtain r1 s1 where m: "m s = (r1, s1)" by fastforce
  from assms(1) I m have I1: "I s1" by (rule tripleD_inv)
  show "I s' \<and> (\<forall>x. r = Inr x \<longrightarrow> Q x)"
  proof (cases r1)
    case (Inl e)
    with run m I1 show ?thesis by (auto simp: st_bind_def)
  next
    case (Inr x)
    with assms(1) I m have "P x" by (auto dest: tripleD)
    with assms(2) I1 run m Inr show ?thesis by (auto simp: st_bind_def triple_def)
  qed
qed

lemma triple_weaken: "triple I m P \<Longrightarrow> (\<And>x. P x \<Longrightarrow> Q x) \<Longrightarrow> triple I m Q"
  by (auto simp: triple_def)

lemma triple_conj: "triple I m P \<Longrightarrow> triple I m Q \<Longrightarrow> triple I m (\<lambda>x. P x \<and> Q x)"
  by (auto simp: triple_def)

text \<open>
  Atomicity of failure: \<open>reads_only\<close> computations never change the state, \<open>never_fails\<close> ones always
  return a value, and \<open>fails_clean\<close> ones leave the state as it was when they return an error.
\<close>

named_theorems clean_rules \<open>introduction rules for computations that fail without a trace\<close>

definition reads_only :: "('s, 'e, 'a) stm \<Rightarrow> bool" where
  "reads_only m \<longleftrightarrow> (\<forall>s. snd (m s) = s)"

definition never_fails :: "('s, 'e, 'a) stm \<Rightarrow> bool" where
  "never_fails m \<longleftrightarrow> (\<forall>s. is_ok (fst (m s)))"

definition fails_clean :: "('s, 'e, 'a) stm \<Rightarrow> bool" where
  "fails_clean m \<longleftrightarrow> (\<forall>s. \<not> is_ok (fst (m s)) \<longrightarrow> snd (m s) = s)"

lemma fails_cleanD: "fails_clean m \<Longrightarrow> m s = (Inl e, s') \<Longrightarrow> s' = s"
  unfolding fails_clean_def by (metis fst_conv is_ok_simps(1) snd_conv)

lemma reads_onlyD: "reads_only m \<Longrightarrow> m s = (r, s') \<Longrightarrow> s' = s"
  unfolding reads_only_def by (metis snd_conv)

lemma reads_only_intros [clean_rules]:
  "reads_only (st_ret x)" "reads_only (st_fail e)" "reads_only (st_lift r)" "reads_only (st_read f)"
  by (simp_all add: reads_only_def)

lemma never_failsD: "never_fails m \<Longrightarrow> \<exists>x s'. m s = (Inr x, s')"
  unfolding never_fails_def is_ok_iff by (metis prod.collapse)

lemma never_fails_basic [clean_rules]: "never_fails (st_ret x)" "never_fails (st_modify g)"
  by (simp_all add: never_fails_def)

lemma never_fails_bind [clean_rules]:
  assumes "never_fails m" and "\<And>x. never_fails (f x)"
  shows "never_fails (st_bind m f)"
  unfolding never_fails_def
proof
  fix s
  obtain x s' where m: "m s = (Inr x, s')" using never_failsD [OF assms(1)] by blast
  obtain y s'' where f: "f x s' = (Inr y, s'')" using never_failsD [OF assms(2)] by blast
  from m f show "is_ok (fst (st_bind m f s))" by (simp add: st_bind_def)
qed

lemma reads_only_clean: "reads_only m \<Longrightarrow> fails_clean m"
  by (simp add: reads_only_def fails_clean_def)

lemma never_fails_clean: "never_fails m \<Longrightarrow> fails_clean m"
  by (simp add: never_fails_def fails_clean_def)

lemma fails_clean_read:
  assumes "reads_only m" and "\<And>x. fails_clean (f x)"
  shows "fails_clean (st_bind m f)"
  unfolding fails_clean_def
proof
  fix s
  obtain r s' where m: "m s = (r, s')" by fastforce
  with assms(1) have "s' = s" by (auto dest: reads_onlyD)
  with m assms(2) show "\<not> is_ok (fst (st_bind m f s)) \<longrightarrow> snd (st_bind m f s) = s"
    by (cases r) (simp_all add: st_bind_def fails_clean_def)
qed

lemma fails_clean_write:
  assumes "fails_clean m" and "\<And>x. never_fails (f x)"
  shows "fails_clean (st_bind m f)"
  unfolding fails_clean_def
proof
  fix s
  obtain r s' where m: "m s = (r, s')" by fastforce
  show "\<not> is_ok (fst (st_bind m f s)) \<longrightarrow> snd (st_bind m f s) = s"
  proof (cases r)
    case (Inl e)
    with m assms(1) have "s' = s" by (auto dest: fails_cleanD)
    with m Inl show ?thesis by (simp add: st_bind_def)
  next
    case (Inr x)
    with m assms(2) show ?thesis by (simp add: st_bind_def never_fails_def)
  qed
qed


section \<open>Text\<close>

definition quote :: "string \<Rightarrow> string" where
  "quote s = CHR 0x27 # s @ [CHR 0x27]"

text \<open>Decimal formatting of an unsigned integer.\<close>

fun show_nat :: "nat \<Rightarrow> string" where
  "show_nat n = (if n < 10 then [''0123456789'' ! n] else show_nat (n div 10) @ [''0123456789'' ! (n mod 10)])"

declare show_nat.simps [simp del]

definition starts_with :: "string \<Rightarrow> string \<Rightarrow> bool" where
  "starts_with s p = prefix p s"

definition strip_prefix :: "string \<Rightarrow> string \<Rightarrow> string option" where
  "strip_prefix p s = (if prefix p s then Some (drop (length p) s) else None)"

definition byte_between :: "char \<Rightarrow> char \<Rightarrow> char \<Rightarrow> bool" where
  "byte_between lo hi b = (of_char lo \<le> (of_char b :: nat) \<and> (of_char b :: nat) \<le> of_char hi)"

definition is_ascii_digit :: "char \<Rightarrow> bool" where
  "is_ascii_digit = byte_between (CHR ''0'') (CHR ''9'')"

definition is_ascii_alphabetic :: "char \<Rightarrow> bool" where
  "is_ascii_alphabetic b =
     (byte_between (CHR ''a'') (CHR ''z'') b \<or> byte_between (CHR ''A'') (CHR ''Z'') b)"

definition is_ascii_alphanumeric :: "char \<Rightarrow> bool" where
  "is_ascii_alphanumeric b = (is_ascii_alphabetic b \<or> is_ascii_digit b)"

definition is_lower_hex :: "char \<Rightarrow> bool" where
  "is_lower_hex b = (is_ascii_digit b \<or> byte_between (CHR ''a'') (CHR ''f'') b)"

lemma starts_with_append [simp]: "starts_with (p @ s) p"
  by (simp add: starts_with_def)

lemma strip_prefix_Some [simp]: "strip_prefix p s = Some r \<longleftrightarrow> s = p @ r"
  by (auto simp: strip_prefix_def prefix_def)

lemma strip_prefix_append [simp]: "strip_prefix p (p @ r) = Some r"
  by simp

lemma strip_prefix_None [simp]: "strip_prefix p s = None \<longleftrightarrow> \<not> prefix p s"
  by (simp add: strip_prefix_def)

text \<open>
  A path component without the separator is recovered from what precedes the separator: the
  argument behind every storage key that is built by joining components.
\<close>

lemma sep_split:
  assumes "xs @ c # ys = xs' @ c # ys'" and "c \<notin> set xs" and "c \<notin> set xs'"
  shows "xs = xs' \<and> ys = ys'"
proof -
  have "takeWhile (\<lambda>d. d \<noteq> c) (xs @ c # ys) = xs"
    using assms(2) by (induction xs) auto
  moreover have "takeWhile (\<lambda>d. d \<noteq> c) (xs' @ c # ys') = xs'"
    using assms(3) by (induction xs') auto
  ultimately have "xs = xs'" using assms(1) by simp
  then show ?thesis using assms(1) by simp
qed

lemma prefix_sep_split:
  assumes "prefix (xs @ c # ys) (xs' @ c # ys')" and "c \<notin> set xs" and "c \<notin> set xs'"
  shows "xs = xs' \<and> prefix ys ys'"
proof -
  from assms(1) obtain zs where "xs @ c # (ys @ zs) = xs' @ c # ys'"
    by (auto simp: prefix_def)
  from sep_split [OF this assms(2,3)] show ?thesis by (auto simp: prefix_def)
qed

end
