(* ===== verification/Identity.thy ===== *)
theory Identity
  imports Prelude
begin

text \<open>
  The \<open>identity\<close> crate: the \<open>Did\<close> newtype of \<open>crates/identity/src/did.rs\<close>. A \<open>Did\<close> wraps a string;
  \<open>did_new\<close> is the validating constructor, \<open>did_wildcard\<close> the one value the code builds without it.
\<close>

definition DID_KEY_PREFIX :: string where
  "DID_KEY_PREFIX = ''did:key:''"

definition DID_OPK_PREFIX :: string where
  "DID_OPK_PREFIX = ''did:opk:''"

datatype did = Did (as_str: string)

datatype identity_error = InvalidDidError string

definition did_new :: "string \<Rightarrow> identity_error + did" where
  "did_new s =
     (let provider =
        (case strip_prefix DID_OPK_PREFIX s of
           None \<Rightarrow> False
         | Some hash \<Rightarrow> length hash = 64 \<and> list_all is_lower_hex hash)
      in if \<not> starts_with s DID_KEY_PREFIX \<and> \<not> provider
         then Inl (InvalidDidError ''unsupported or malformed identity'')
         else Inr (Did s))"

definition did_wildcard :: did where
  "did_wildcard = Did ''*''"

definition is_wildcard_did :: "did \<Rightarrow> bool" where
  "is_wildcard_did d = (as_str d = ''*'')"

definition key_portion :: "did \<Rightarrow> string option" where
  "key_portion d = strip_prefix DID_KEY_PREFIX (as_str d)"

fun identity_error_to_string :: "identity_error \<Rightarrow> string" where
  "identity_error_to_string (InvalidDidError m) = ''invalid DID: '' @ m"

lemmas did_consts = DID_KEY_PREFIX_def DID_OPK_PREFIX_def

lemma did_new_Inr [simp]:
  "did_new s = Inr d \<longleftrightarrow>
     d = Did s \<and> (prefix DID_KEY_PREFIX s \<or>
       (\<exists>h. s = DID_OPK_PREFIX @ h \<and> length h = 64 \<and> list_all is_lower_hex h))"
  by (auto simp: did_new_def starts_with_def Let_def split: option.splits if_splits)

lemma did_new_as_str: "did_new s = Inr d \<Longrightarrow> as_str d = s"
  by auto

lemma did_new_not_wildcard: "did_new ''*'' = Inl (InvalidDidError ''unsupported or malformed identity'')"
  by (simp add: did_new_def did_consts starts_with_def strip_prefix_def)

lemma did_new_nonempty: "did_new s = Inr d \<Longrightarrow> s \<noteq> []"
  by (auto simp: did_consts)

lemma key_portion_iff: "key_portion d = Some k \<longleftrightarrow> as_str d = DID_KEY_PREFIX @ k"
  by (simp add: key_portion_def)

end
