(* ===== verification/Zanzibar_Types.thy ===== *)
theory Zanzibar_Types
  imports Identity
begin

text \<open>
  The data model of the \<open>zanzibar\<close> crate: relation expressions (\<open>expression/mod.rs\<close>), subjects and
  subject restrictions (\<open>types/subject.rs\<close>), relationships (\<open>types/relationship.rs\<close>), resources
  (\<open>types/resource.rs\<close>), policies and their validation (\<open>types/policy.rs\<close>) and the crate's errors
  (\<open>error.rs\<close>). \<open>serde\<close> derives are library code and appear later as codec parameters.
\<close>

section \<open>Errors\<close>

datatype zerror =
    IndeterminateExclusion
  | EvaluationLimitExceeded string
  | Json string
  | InvalidDid string
  | PolicyNotFound string
  | RelationNotFound string string
  | ResourceNotFound string
  | InvalidExpression string
  | InvalidPolicy string
  | InvalidEntitySetReference string string
  | SubjectRestrictionViolation string
  | DpiMissingOwner string
  | DpiExpressionMissingOwner string string
  | DpiDisallowedOperation string string string
  | InvalidRelationshipField string string
  | Serialization string
  | InvalidSubjectEncoding string

fun zerror_to_string :: "zerror \<Rightarrow> string" where
  "zerror_to_string IndeterminateExclusion =
     ''cannot resolve an exclusion through a relationship cycle''"
| "zerror_to_string (EvaluationLimitExceeded l) = ''permission evaluation '' @ l @ '' limit exceeded''"
| "zerror_to_string (Json e) = ''serialization error: '' @ e"
| "zerror_to_string (InvalidDid e) = ''invalid DID: '' @ e"
| "zerror_to_string (PolicyNotFound p) = ''policy not found: '' @ p"
| "zerror_to_string (RelationNotFound resource relation) =
     ''relation not found: '' @ relation @ '' in resource '' @ resource"
| "zerror_to_string (ResourceNotFound r) = ''resource not found: '' @ r"
| "zerror_to_string (InvalidExpression e) = ''invalid expression: '' @ e"
| "zerror_to_string (InvalidPolicy e) = ''invalid policy: '' @ e"
| "zerror_to_string (InvalidEntitySetReference resource relation) =
     ''invalid EntitySet reference: resource '' @ quote resource @ '' relation '' @ quote relation
       @ '' does not exist in policy''"
| "zerror_to_string (SubjectRestrictionViolation m) = ''subject restriction violated: '' @ m"
| "zerror_to_string (DpiMissingOwner resource) =
     ''DPI violation: resource '' @ quote resource @ '' must have an '' @ quote ''owner'' @ '' relation''"
| "zerror_to_string (DpiExpressionMissingOwner resource relation) =
     ''DPI violation: permission '' @ quote relation @ '' on resource '' @ quote resource
       @ '' must include '' @ quote ''owner'' @ '' in its expression''"
| "zerror_to_string (DpiDisallowedOperation resource relation operation) =
     ''DPI violation: resource '' @ quote resource @ '' relation '' @ quote relation
       @ '' uses disallowed operation '' @ quote operation"
| "zerror_to_string (InvalidRelationshipField field reason) =
     ''invalid relationship field '' @ quote field @ '': '' @ reason"
| "zerror_to_string (Serialization e) = ''serialization error: '' @ e"
| "zerror_to_string (InvalidSubjectEncoding e) = ''invalid subject encoding: '' @ e"


section \<open>Relation expressions\<close>

text \<open>
  \<open>Union\<close> and \<open>Intersection\<close> of the source are named \<open>UnionOf\<close> and \<open>IntersectionOf\<close>, because HOL's
  set operations have the names.
\<close>

datatype relation_expression =
    This
  | ComputedUserset string
  | TupleToUserset string string
  | UnionOf "relation_expression list"
  | IntersectionOf "relation_expression list"
  | Difference relation_expression relation_expression

fun is_this :: "relation_expression \<Rightarrow> bool" where
  "is_this This = True"
| "is_this _ = False"

definition join :: "string \<Rightarrow> string list \<Rightarrow> string" where
  "join sep parts = concat (if parts = [] then [] else hd parts # map (\<lambda>p. sep @ p) (tl parts))"

fun expression_to_string :: "relation_expression \<Rightarrow> string" where
  "expression_to_string This = ''_this''"
| "expression_to_string (ComputedUserset relation) = relation"
| "expression_to_string (TupleToUserset tuple_relation computed_relation) =
     tuple_relation @ ''->'' @ computed_relation"
| "expression_to_string (UnionOf exprs) = ''('' @ join '' + '' (map expression_to_string exprs) @ '')''"
| "expression_to_string (IntersectionOf exprs) =
     ''('' @ join '' & '' (map expression_to_string exprs) @ '')''"
| "expression_to_string (Difference base subtract) =
     ''('' @ expression_to_string base @ '' - '' @ expression_to_string subtract @ '')''"


section \<open>Subjects\<close>

datatype subject =
    Entity did
  | EntitySet string string string
  | TypedWildcard string
  | Wildcard

datatype subject_restriction =
    REntity
  | REntitySet string string
  | RTypedWildcard string
  | RActor
  | RAnyOf "subject_restriction list"
  | RAny

fun subject_type_name :: "subject \<Rightarrow> string" where
  "subject_type_name (Entity _) = ''Entity''"
| "subject_type_name (EntitySet _ _ _) = ''EntitySet''"
| "subject_type_name (TypedWildcard _) = ''TypedWildcard''"
| "subject_type_name Wildcard = ''Wildcard''"

fun satisfies :: "subject_restriction \<Rightarrow> subject \<Rightarrow> string + unit" where
  "satisfies REntity subject =
     (case subject of
        Entity _ \<Rightarrow> Inr ()
      | _ \<Rightarrow> Inl (''expected entity subject, got '' @ subject_type_name subject))"
| "satisfies (REntitySet resource relation) subject =
     (case subject of
        EntitySet subj_resource _ subj_relation \<Rightarrow>
          if subj_resource = resource \<and> subj_relation = relation then Inr ()
          else Inl (''expected EntitySet from '' @ resource @ ''#'' @ relation @ '', got ''
                    @ subj_resource @ ''#'' @ subj_relation)
      | _ \<Rightarrow> Inl (''expected EntitySet subject, got '' @ subject_type_name subject))"
| "satisfies (RTypedWildcard resource) subject =
     (case subject of
        TypedWildcard subj_resource \<Rightarrow>
          if subj_resource = resource then Inr ()
          else Inl (''expected TypedWildcard for '' @ resource @ '', got '' @ subj_resource)
      | _ \<Rightarrow> Inl (''expected TypedWildcard subject, got '' @ subject_type_name subject))"
| "satisfies RActor subject =
     (case subject of
        Entity _ \<Rightarrow> Inr ()
      | Wildcard \<Rightarrow> Inr ()
      | _ \<Rightarrow> Inl (''expected an actor (entity or '' @ quote ''*'' @ ''), got ''
                   @ subject_type_name subject))"
| "satisfies (RAnyOf restrictions) subject =
     (if list_ex (\<lambda>r. is_ok (satisfies r subject)) restrictions then Inr ()
      else Inl (''subject '' @ subject_type_name subject
                @ '' satisfies none of the relation'' @ [CHR 0x27] @ ''s declared types''))"
| "satisfies RAny subject = Inr ()"

fun is_typed_wildcard :: "subject \<Rightarrow> bool" where
  "is_typed_wildcard (TypedWildcard _) = True"
| "is_typed_wildcard _ = False"

fun subject_to_string :: "subject \<Rightarrow> string" where
  "subject_to_string (Entity d) = as_str d"
| "subject_to_string (EntitySet resource object_id relation) =
     resource @ '':'' @ object_id @ ''#'' @ relation"
| "subject_to_string (TypedWildcard resource) = resource @ '':*''"
| "subject_to_string Wildcard = ''*''"


section \<open>Relationships\<close>

record relationship =
  rel_resource :: string
  rel_object_id :: string
  rel_relation :: string
  rel_subject :: subject

definition relationship_new :: "string \<Rightarrow> string \<Rightarrow> string \<Rightarrow> subject \<Rightarrow> relationship" where
  "relationship_new resource object_id relation subject =
     \<lparr>rel_resource = resource, rel_object_id = object_id,
      rel_relation = relation, rel_subject = subject\<rparr>"

definition with_entity :: "string \<Rightarrow> string \<Rightarrow> string \<Rightarrow> did \<Rightarrow> relationship" where
  "with_entity resource object_id relation d =
     relationship_new resource object_id relation (Entity d)"

definition FORBIDDEN_CHARS :: "char list" where
  "FORBIDDEN_CHARS = [CHR ''/'', CHR 0x5C]"

definition validate_field :: "string \<Rightarrow> string \<Rightarrow> zerror + unit" where
  "validate_field field_name value =
     (if value = [] then Inl (InvalidRelationshipField field_name ''must not be empty'')
      else case List.find (\<lambda>c. c \<in> set FORBIDDEN_CHARS) value of
        Some ch \<Rightarrow>
          Inl (InvalidRelationshipField field_name (''contains forbidden character '' @ quote [ch]))
      | None \<Rightarrow> Inr ())"

definition try_new :: "string \<Rightarrow> string \<Rightarrow> string \<Rightarrow> subject \<Rightarrow> zerror + relationship" where
  "try_new resource object_id relation subject =
     res_bind (validate_field ''resource'' resource) (\<lambda>_.
     res_bind (validate_field ''object_id'' object_id) (\<lambda>_.
     res_bind (validate_field ''relation'' relation) (\<lambda>_.
     Inr (relationship_new resource object_id relation subject))))"

record object_ref =
  ref_resource :: string
  ref_object_id :: string


section \<open>Resources and policies\<close>

record relation_def =
  reld_name :: string
  reld_description :: string
  reld_expression :: relation_expression
  reld_restriction :: "subject_restriction option"
  reld_manages :: "string list"

record resource_def =
  resd_name :: string
  resd_description :: string
  resd_relations :: "relation_def list"

datatype policy_specification = NoSpec | Defra

record policy =
  pol_id :: string
  pol_name :: string
  pol_description :: string
  pol_actor :: "resource_def option"
  pol_resources :: "resource_def list"
  pol_attributes :: "(string \<times> string) list"
  pol_specification :: policy_specification

definition policy_new :: "string \<Rightarrow> string \<Rightarrow> policy" where
  "policy_new i name =
     \<lparr>pol_id = i, pol_name = name, pol_description = [], pol_actor = None, pol_resources = [],
      pol_attributes = [], pol_specification = NoSpec\<rparr>"

definition relation_direct :: "string \<Rightarrow> relation_def" where
  "relation_direct name =
     \<lparr>reld_name = name, reld_description = [], reld_expression = This,
      reld_restriction = None, reld_manages = []\<rparr>"

definition relation_computed :: "string \<Rightarrow> relation_expression \<Rightarrow> relation_def" where
  "relation_computed name expression =
     \<lparr>reld_name = name, reld_description = [], reld_expression = expression,
      reld_restriction = None, reld_manages = []\<rparr>"

definition resource_new :: "string \<Rightarrow> resource_def" where
  "resource_new name = \<lparr>resd_name = name, resd_description = [], resd_relations = []\<rparr>"

definition with_relation :: "resource_def \<Rightarrow> relation_def \<Rightarrow> resource_def" where
  "with_relation r rel = r\<lparr>resd_relations := resd_relations r @ [rel]\<rparr>"

definition with_resource :: "policy \<Rightarrow> resource_def \<Rightarrow> policy" where
  "with_resource p r = p\<lparr>pol_resources := pol_resources p @ [r]\<rparr>"

definition resource_get_relation :: "resource_def \<Rightarrow> string \<Rightarrow> relation_def option" where
  "resource_get_relation r name = List.find (\<lambda>rel. reld_name rel = name) (resd_relations r)"

definition get_resource :: "policy \<Rightarrow> string \<Rightarrow> resource_def option" where
  "get_resource p name =
     (case List.find (\<lambda>r. resd_name r = name) (pol_resources p) of
        Some r \<Rightarrow> Some r
      | None \<Rightarrow>
          (case pol_actor p of
             Some actor \<Rightarrow> if resd_name actor = name then Some actor else None
           | None \<Rightarrow> None))"

definition get_relation :: "policy \<Rightarrow> string \<Rightarrow> string \<Rightarrow> relation_def option" where
  "get_relation p resource relation =
     Option.bind (get_resource p resource) (\<lambda>r. resource_get_relation r relation)"

definition get_managers_for_relation :: "policy \<Rightarrow> string \<Rightarrow> string \<Rightarrow> string list" where
  "get_managers_for_relation p resource relation =
     (case get_resource p resource of
        None \<Rightarrow> []
      | Some r \<Rightarrow>
          map reld_name (filter (\<lambda>rel. list_ex (\<lambda>m. m = relation) (reld_manages rel))
            (resd_relations r)))"

definition actor_list :: "policy \<Rightarrow> resource_def list" where
  "actor_list p = (case pol_actor p of None \<Rightarrow> [] | Some a \<Rightarrow> [a])"

definition is_actor :: "policy \<Rightarrow> string \<Rightarrow> bool" where
  "is_actor p resource =
     (case pol_actor p of None \<Rightarrow> False | Some actor \<Rightarrow> resd_name actor = resource)"


section \<open>Policy validation\<close>

fun validate_expression :: "policy \<Rightarrow> string \<Rightarrow> relation_expression \<Rightarrow> zerror + unit" where
  "validate_expression p resource_name This = Inr ()"
| "validate_expression p resource_name (ComputedUserset relation) =
     (if get_relation p resource_name relation = None
      then Inl (InvalidPolicy (''ComputedUserset references non-existent relation ''
             @ quote relation @ '' in resource '' @ quote resource_name))
      else Inr ())"
| "validate_expression p resource_name (TupleToUserset tuple_relation computed_relation) =
     (if get_relation p resource_name tuple_relation = None
      then Inl (InvalidPolicy (''TupleToUserset references non-existent tuple relation ''
             @ quote tuple_relation @ '' in resource '' @ quote resource_name))
      else Inr ())"
| "validate_expression p resource_name (UnionOf exprs) =
     check_all (validate_expression p resource_name) exprs"
| "validate_expression p resource_name (IntersectionOf exprs) =
     check_all (validate_expression p resource_name) exprs"
| "validate_expression p resource_name (Difference base subtract) =
     res_bind (validate_expression p resource_name base)
       (\<lambda>_. validate_expression p resource_name subtract)"

definition policy_validate :: "policy \<Rightarrow> zerror + unit" where
  "policy_validate p =
     check_all (\<lambda>resource.
       check_all (\<lambda>relation. validate_expression p (resd_name resource) (reld_expression relation))
         (resd_relations resource))
       (pol_resources p @ actor_list p)"

fun expression_includes_owner :: "relation_expression \<Rightarrow> bool" where
  "expression_includes_owner This = False"
| "expression_includes_owner (ComputedUserset relation) = (relation = ''owner'')"
| "expression_includes_owner (TupleToUserset _ computed_relation) = (computed_relation = ''owner'')"
| "expression_includes_owner (UnionOf exprs) = list_ex expression_includes_owner exprs"
| "expression_includes_owner (IntersectionOf exprs) = list_all expression_includes_owner exprs"
| "expression_includes_owner (Difference base subtract) =
     (expression_includes_owner base \<or> expression_includes_owner subtract)"

text \<open>Rust's \<open>iter().find_map(f)\<close>: the first \<open>Some\<close>.\<close>

fun find_map :: "('a \<Rightarrow> 'b option) \<Rightarrow> 'a list \<Rightarrow> 'b option" where
  "find_map f [] = None"
| "find_map f (x # xs) = (case f x of Some y \<Rightarrow> Some y | None \<Rightarrow> find_map f xs)"

lemma find_map_cong [fundef_cong]:
  "xs = ys \<Longrightarrow> (\<And>x. x \<in> set ys \<Longrightarrow> f x = g x) \<Longrightarrow> find_map f xs = find_map g ys"
  by (induction ys arbitrary: xs) (auto split: option.splits)

fun find_disallowed_operation :: "relation_expression \<Rightarrow> string option" where
  "find_disallowed_operation This = None"
| "find_disallowed_operation (ComputedUserset _) = None"
| "find_disallowed_operation (TupleToUserset _ _) = None"
| "find_disallowed_operation (UnionOf exprs) = find_map find_disallowed_operation exprs"
| "find_disallowed_operation (IntersectionOf exprs) = find_map find_disallowed_operation exprs"
| "find_disallowed_operation (Difference base subtract) =
     (case find_disallowed_operation base of
        Some op \<Rightarrow> Some op
      | None \<Rightarrow> find_disallowed_operation subtract)"

definition validate_dpi_relation :: "resource_def \<Rightarrow> relation_def \<Rightarrow> zerror + unit" where
  "validate_dpi_relation resource relation =
     (if reld_name relation = ''owner'' then Inr ()
      else if is_this (reld_expression relation) then Inr ()
      else if \<not> expression_includes_owner (reld_expression relation)
      then Inl (DpiExpressionMissingOwner (resd_name resource) (reld_name relation))
      else case find_disallowed_operation (reld_expression relation) of
        Some op \<Rightarrow> Inl (DpiDisallowedOperation (resd_name resource) (reld_name relation) op)
      | None \<Rightarrow> Inr ())"

definition validate_dpi :: "policy \<Rightarrow> zerror + unit" where
  "validate_dpi p =
     check_all (\<lambda>resource.
       if resource_get_relation resource ''owner'' = None
       then Inl (DpiMissingOwner (resd_name resource))
       else check_all (validate_dpi_relation resource) (resd_relations resource))
       (pol_resources p)"


section \<open>Relationship validation\<close>

definition reference_exists :: "policy \<Rightarrow> string \<Rightarrow> string \<Rightarrow> bool" where
  "reference_exists p resource relation =
     (if relation = [] then get_resource p resource \<noteq> None
      else get_relation p resource relation \<noteq> None)"

definition terminal_actor :: "policy \<Rightarrow> subject \<Rightarrow> zerror + subject option" where
  "terminal_actor p subject =
     (case subject of
        EntitySet resource object_id relation \<Rightarrow>
          if is_actor p resource \<and> relation = []
          then res_bind (map_err (\<lambda>e. InvalidPolicy (identity_error_to_string e)) (did_new object_id))
                 (\<lambda>d. Inr (Some (Entity d)))
          else Inr None
      | _ \<Rightarrow> Inr None)"

definition relationship_validate :: "relationship \<Rightarrow> policy \<Rightarrow> zerror + unit" where
  "relationship_validate rel p =
     (if is_actor p (rel_resource rel) \<and> \<not> is_ok (did_new (rel_object_id rel))
      then Inl (InvalidPolicy ''actor object must be a DID'')
      else res_bind
        (case rel_subject rel of
           EntitySet resource object_id _ \<Rightarrow>
             if is_actor p resource \<and> \<not> is_ok (did_new object_id)
             then Inl (InvalidPolicy ''actor subject must be a DID'') else Inr ()
         | _ \<Rightarrow> Inr ()) (\<lambda>_.
      res_bind (ok_or (RelationNotFound (rel_resource rel) (rel_relation rel))
        (get_relation p (rel_resource rel) (rel_relation rel))) (\<lambda>rdef.
      res_bind
        (case rel_subject rel of
           EntitySet resource _ relation \<Rightarrow>
             if \<not> reference_exists p resource relation
             then Inl (InvalidEntitySetReference resource relation) else Inr ()
         | _ \<Rightarrow> Inr ()) (\<lambda>_.
      res_bind (terminal_actor p (rel_subject rel)) (\<lambda>terminal.
      case reld_restriction rdef of
        None \<Rightarrow> Inr ()
      | Some restriction \<Rightarrow>
          map_err (\<lambda>msg. SubjectRestrictionViolation
              (''relation '' @ quote (rel_relation rel) @ '' on resource ''
                @ quote (rel_resource rel) @ '': '' @ msg))
            (satisfies restriction
              (case terminal of Some actor \<Rightarrow> actor | None \<Rightarrow> rel_subject rel)))))))"

end
