(* ===== verification/Policy_Lookup.thy ===== *)
theory Policy_Lookup
  imports Zanzibar_Types
begin

text \<open>
  \<open>PolicyLookupTable\<close> of \<open>crates/zanzibar/src/lookup.rs\<close>: nested hash maps from policy, resource and
  relation name to the relation's expression, and the actor resource of every policy. A hash map is
  a HOL map; a later insertion for a key replaces the earlier one.
\<close>

type_synonym relation_map = "string \<rightharpoonup> relation_expression"
type_synonym resource_map = "string \<rightharpoonup> relation_map"

record lookup_table =
  lt_policies :: "string \<rightharpoonup> resource_map"
  lt_actors :: "string \<rightharpoonup> string"

definition lookup_new :: lookup_table where
  "lookup_new = \<lparr>lt_policies = Map.empty, lt_actors = Map.empty\<rparr>"

definition relation_map_of :: "resource_def \<Rightarrow> relation_map" where
  "relation_map_of resource =
     foldl (\<lambda>relations relation. relations(reld_name relation \<mapsto> reld_expression relation))
       Map.empty (resd_relations resource)"

definition resource_map_of :: "policy \<Rightarrow> resource_map" where
  "resource_map_of p =
     foldl (\<lambda>resources resource. resources(resd_name resource \<mapsto> relation_map_of resource))
       Map.empty (pol_resources p @ actor_list p)"

definition add_policy :: "lookup_table \<Rightarrow> policy \<Rightarrow> lookup_table" where
  "add_policy t p =
     (let actors = (lt_actors t)(pol_id p := None);
          actors' = (case pol_actor p of
                       None \<Rightarrow> actors
                     | Some actor \<Rightarrow> actors(pol_id p \<mapsto> resd_name actor))
      in t\<lparr>lt_actors := actors', lt_policies := (lt_policies t)(pol_id p \<mapsto> resource_map_of p)\<rparr>)"

definition remove_policy :: "lookup_table \<Rightarrow> string \<Rightarrow> lookup_table" where
  "remove_policy t policy_id =
     t\<lparr>lt_policies := (lt_policies t)(policy_id := None),
       lt_actors := (lt_actors t)(policy_id := None)\<rparr>"

definition update_policy :: "lookup_table \<Rightarrow> policy \<Rightarrow> lookup_table" where
  "update_policy t p = add_policy (remove_policy t (pol_id p)) p"

definition is_actor_resource :: "lookup_table \<Rightarrow> string \<Rightarrow> string \<Rightarrow> bool" where
  "is_actor_resource t policy_id resource =
     (case lt_actors t policy_id of None \<Rightarrow> False | Some name \<Rightarrow> name = resource)"

definition get_expression ::
  "lookup_table \<Rightarrow> string \<Rightarrow> string \<Rightarrow> string \<Rightarrow> zerror + relation_expression" where
  "get_expression t policy_id resource relation =
     res_bind (ok_or (PolicyNotFound policy_id) (lt_policies t policy_id)) (\<lambda>resources.
     res_bind (ok_or (ResourceNotFound resource) (resources resource)) (\<lambda>relations.
     ok_or (RelationNotFound resource relation) (relations relation)))"

definition has_policy :: "lookup_table \<Rightarrow> string \<Rightarrow> bool" where
  "has_policy t policy_id = (lt_policies t policy_id \<noteq> None)"

definition has_resource :: "lookup_table \<Rightarrow> string \<Rightarrow> string \<Rightarrow> bool" where
  "has_resource t policy_id resource =
     (case lt_policies t policy_id of None \<Rightarrow> False | Some r \<Rightarrow> r resource \<noteq> None)"

definition has_relation :: "lookup_table \<Rightarrow> string \<Rightarrow> string \<Rightarrow> string \<Rightarrow> bool" where
  "has_relation t policy_id resource relation =
     (case Option.bind (lt_policies t policy_id) (\<lambda>r. r resource) of
        None \<Rightarrow> False
      | Some rel \<Rightarrow> rel relation \<noteq> None)"


section \<open>The table against the policy\<close>

text \<open>
  The table keeps the last definition of a name and \<open>Policy::get_relation\<close> returns the first, so the
  two agree exactly on policies whose names are distinct.
\<close>

definition distinct_names :: "policy \<Rightarrow> bool" where
  "distinct_names p \<longleftrightarrow>
     distinct (map resd_name (pol_resources p @ actor_list p)) \<and>
     (\<forall>r \<in> set (pol_resources p @ actor_list p). distinct (map reld_name (resd_relations r)))"

lemma foldl_upd_map_of:
  "foldl (\<lambda>m x. m(f x \<mapsto> g x)) m0 xs = m0 ++ map_of (rev (map (\<lambda>x. (f x, g x)) xs))"
  by (induction xs arbitrary: m0) (simp_all add: map_add_def fun_eq_iff split: option.splits)

lemma map_of_rev_distinct:
  "distinct (map f xs) \<Longrightarrow>
     map_of (rev (map (\<lambda>x. (f x, g x)) xs)) k = map_option g (List.find (\<lambda>x. f x = k) xs)"
proof (induction xs)
  case (Cons x xs)
  then have "List.find (\<lambda>y. f y = f x) xs = None"
    by (auto simp: find_None_iff image_iff)
  with Cons show ?case by (auto simp: map_add_def split: option.splits)
qed simp

lemma add_policy_fields [simp]:
  "lt_policies (add_policy t p) = (lt_policies t)(pol_id p \<mapsto> resource_map_of p)"
  "lt_actors (add_policy t p) = (lt_actors t)(pol_id p := map_option resd_name (pol_actor p))"
  by (simp_all add: add_policy_def Let_def split: option.splits)

lemma relation_map_of_find:
  "distinct (map reld_name (resd_relations r)) \<Longrightarrow>
     relation_map_of r k = map_option reld_expression (resource_get_relation r k)"
  by (simp add: relation_map_of_def foldl_upd_map_of map_of_rev_distinct resource_get_relation_def)

lemma find_append: "List.find P (xs @ ys) =
    (case List.find P xs of None \<Rightarrow> List.find P ys | Some x \<Rightarrow> Some x)"
  by (induction xs) auto

lemma get_resource_find:
  "get_resource p k = List.find (\<lambda>r. resd_name r = k) (pol_resources p @ actor_list p)"
  by (auto simp: get_resource_def find_append actor_list_def split: option.splits)

lemma resource_map_of_find:
  "distinct_names p \<Longrightarrow> resource_map_of p k = map_option relation_map_of (get_resource p k)"
  unfolding resource_map_of_def foldl_upd_map_of get_resource_find distinct_names_def
  by (simp only: map_of_rev_distinct map_add_def) (simp split: option.splits)

lemma get_resource_in: "get_resource p k = Some r \<Longrightarrow> r \<in> set (pol_resources p @ actor_list p)"
  by (simp only: get_resource_find find_Some_iff) (use nth_mem in blast)

lemma get_expression_add_policy:
  assumes "distinct_names p"
  shows "get_expression (add_policy t p) (pol_id p) resource relation =
    (case get_resource p resource of
       None \<Rightarrow> Inl (ResourceNotFound resource)
     | Some r \<Rightarrow>
         ok_or (RelationNotFound resource relation)
           (map_option reld_expression (resource_get_relation r relation)))"
proof (cases "get_resource p resource")
  case None
  with assms show ?thesis by (simp add: get_expression_def resource_map_of_find)
next
  case (Some r)
  from get_resource_in [OF Some] assms
  have "distinct (map reld_name (resd_relations r))"
    unfolding distinct_names_def by (elim conjE) (drule (1) bspec)
  with assms Some show ?thesis
    by (simp add: get_expression_def resource_map_of_find relation_map_of_find)
qed

lemma get_expression_relation:
  assumes "distinct_names p"
  shows "get_expression (add_policy t p) (pol_id p) resource relation = Inr e \<longleftrightarrow>
    (\<exists>rd. get_relation p resource relation = Some rd \<and> reld_expression rd = e)"
  by (auto simp: get_expression_add_policy [OF assms] get_relation_def split: option.splits)

lemma get_expression_other:
  "policy_id \<noteq> pol_id p \<Longrightarrow>
     get_expression (add_policy t p) policy_id = get_expression t policy_id"
  by (simp add: fun_eq_iff get_expression_def)

lemma get_expression_remove:
  "get_expression (remove_policy t pid) policy_id resource relation =
     (if policy_id = pid then Inl (PolicyNotFound pid) else get_expression t policy_id resource relation)"
  by (simp add: get_expression_def remove_policy_def)

lemma is_actor_resource_add:
  "is_actor_resource (add_policy t p) (pol_id p) resource = is_actor p resource"
  by (simp add: is_actor_resource_def is_actor_def split: option.splits)

lemma update_policy_eq: "update_policy t p = add_policy t p"
  by (simp add: update_policy_def add_policy_def remove_policy_def Let_def split: option.splits)

end
