(* ===== verification/Permission_Engine.thy ===== *)
theory Permission_Engine
  imports Policy_Lookup
begin

text \<open>
  The evaluator of the \<open>zanzibar\<close> crate: \<open>engine/limits.rs\<close>, \<open>engine/cache.rs\<close>,
  \<open>engine/evaluate.rs\<close> and the entry points of \<open>engine/mod.rs\<close>.

  The engine is generic in its \<open>ZanzibarStore\<close>. The three reads the evaluator makes are the record
  \<open>store_ops\<close>; a store may keep state behind them (a read budget), so each is a state-passing
  computation over the store's own state \<open>'s\<close>. One evaluation owns a \<open>CheckCache\<close>: the number of
  steps charged so far and the memoised results. Both survive an error, which \<open>check_many\<close> relies on.

  The \<open>EvaluationGuard\<close> returned by \<open>enter\<close> counts the evaluations that are active and gives its unit
  back on every exit, so the counter is the nesting depth of \<open>evaluate_expr_inner\<close>. The model passes
  the number of evaluations that may still be entered below this one (64 minus the counter) as the
  argument the recursion descends on; the code's own depth limit is what makes it terminate.
\<close>

section \<open>Store interface and evaluation state\<close>

record 's store_ops =
  check_permission_direct_op ::
    "string \<Rightarrow> string \<Rightarrow> string \<Rightarrow> string \<Rightarrow> did \<Rightarrow> ('s, zerror, bool) stm"
  get_relation_subjects_op ::
    "string \<Rightarrow> string \<Rightarrow> string \<Rightarrow> string \<Rightarrow> ('s, zerror, subject list) stm"
  get_relation_targets_op ::
    "string \<Rightarrow> string \<Rightarrow> string \<Rightarrow> string \<Rightarrow> ('s, zerror, object_ref list) stm"

type_synonym node_id = "string \<times> string \<times> string"
type_synonym node_trail = "node_id set"
type_synonym check_key = "string \<times> node_id \<times> did"

record 's check_cache =
  budget_steps :: nat
  results :: "check_key \<rightharpoonup> bool"
  backend :: 's

record 's engine =
  eng_ops :: "'s store_ops"
  eng_lookup :: lookup_table

type_synonym 's eval = "('s check_cache, zerror, bool \<times> bool) stm"

definition MAX_EVALUATION_DEPTH :: nat where
  "MAX_EVALUATION_DEPTH = 64"

definition MAX_EVALUATION_STEPS :: nat where
  "MAX_EVALUATION_STEPS = 10000"

definition cache_new :: "'s \<Rightarrow> 's check_cache" where
  "cache_new s = \<lparr>budget_steps = 0, results = Map.empty, backend = s\<rparr>"

definition cache_get :: "check_key \<Rightarrow> 's check_cache \<Rightarrow> bool option" where
  "cache_get key c = results c key"

definition cache_set :: "check_key \<Rightarrow> bool \<Rightarrow> ('s check_cache, zerror, unit) stm" where
  "cache_set key v = st_modify (\<lambda>c. c\<lparr>results := (results c)(key \<mapsto> v)\<rparr>)"

definition charge :: "('s check_cache, zerror, unit) stm" where
  "charge c =
     (if budget_steps c < MAX_EVALUATION_STEPS
      then (Inr (), c\<lparr>budget_steps := budget_steps c + 1\<rparr>)
      else (Inl (EvaluationLimitExceeded ''steps''), c))"

text \<open>\<open>enter\<close> with \<open>remaining\<close> evaluations still allowed below the depth limit.\<close>

definition enter :: "nat \<Rightarrow> ('s check_cache, zerror, unit) stm" where
  "enter remaining =
     st_bind charge (\<lambda>_.
       if remaining = 0 then st_fail (EvaluationLimitExceeded ''depth'') else st_ret ())"

text \<open>A read of the backing store from inside an evaluation.\<close>

definition on_backend :: "('s, zerror, 'a) stm \<Rightarrow> ('s check_cache, zerror, 'a) stm" where
  "on_backend m c = (case m (backend c) of (r, s') \<Rightarrow> (r, c\<lparr>backend := s'\<rparr>))"


section \<open>Expression evaluation\<close>

text \<open>
  The loops of \<open>evaluate_expr_inner\<close>, each a recursion over the list the \<open>for\<close> runs through. \<open>call\<close>
  stands for the recursive \<open>evaluate_expr_cached\<close> on another node, \<open>inner\<close> for the recursive
  \<open>evaluate_expr_inner\<close> on the same node.
\<close>

type_synonym 's node_eval = "node_id \<Rightarrow> relation_expression \<Rightarrow> node_trail \<Rightarrow> 's eval"

text \<open>The \<open>This\<close> branch after the direct check (userset subjects of the relation itself).\<close>

fun this_loop ::
  "lookup_table \<Rightarrow> string \<Rightarrow> did \<Rightarrow> 's node_eval \<Rightarrow> node_trail \<Rightarrow> bool \<Rightarrow> subject list \<Rightarrow> 's eval" where
  "this_loop lk policy_id subject call trail tainted [] = st_ret (False, tainted)"
| "this_loop lk policy_id subject call trail tainted (target # rest) =
     st_bind charge (\<lambda>_.
       case target of
         EntitySet resource object_id relation \<Rightarrow>
           if relation = [] then
             (if is_actor_resource lk policy_id resource \<and> object_id = as_str subject
              then st_ret (True, False)
              else this_loop lk policy_id subject call trail tainted rest)
           else
             let node_id = (resource, object_id, relation) in
             if node_id \<in> trail then this_loop lk policy_id subject call trail True rest
             else
               st_bind (st_lift (get_expression lk policy_id resource relation)) (\<lambda>expression.
               st_bind (call node_id expression (insert node_id trail)) (\<lambda>(granted, target_tainted).
                 if granted then st_ret (True, target_tainted)
                 else this_loop lk policy_id subject call trail (tainted \<or> target_tainted) rest))
       | _ \<Rightarrow> this_loop lk policy_id subject call trail tainted rest)"

text \<open>The two loops of the \<open>TupleToUserset\<close> branch.\<close>

text \<open>A loop that has not decided yet hands its \<open>tainted\<close> flag on as \<open>Inl\<close>; a decision is \<open>Inr\<close>.\<close>

fun ttu_targets_loop ::
  "lookup_table \<Rightarrow> string \<Rightarrow> string \<Rightarrow> 's node_eval \<Rightarrow> node_trail \<Rightarrow> bool \<Rightarrow> object_ref list \<Rightarrow>
     ('s check_cache, zerror, bool + (bool \<times> bool)) stm" where
  "ttu_targets_loop lk policy_id computed_relation call trail tainted [] = st_ret (Inl tainted)"
| "ttu_targets_loop lk policy_id computed_relation call trail tainted (target # rest) =
     st_bind charge (\<lambda>_.
       let node_id = (ref_resource target, ref_object_id target, computed_relation) in
       if node_id \<in> trail
       then ttu_targets_loop lk policy_id computed_relation call trail True rest
       else
         st_bind (st_lift (get_expression lk policy_id (ref_resource target) computed_relation))
           (\<lambda>target_expr.
         st_bind (call node_id target_expr (insert node_id trail)) (\<lambda>(granted, t).
           if granted then st_ret (Inr (True, t))
           else ttu_targets_loop lk policy_id computed_relation call trail (tainted \<or> t) rest)))"

fun ttu_subjects_loop ::
  "lookup_table \<Rightarrow> string \<Rightarrow> string \<Rightarrow> 's node_eval \<Rightarrow> node_trail \<Rightarrow> bool \<Rightarrow> subject list \<Rightarrow> 's eval" where
  "ttu_subjects_loop lk policy_id computed_relation call trail tainted [] = st_ret (False, tainted)"
| "ttu_subjects_loop lk policy_id computed_relation call trail tainted (subj # rest) =
     st_bind charge (\<lambda>_.
       case subj of
         EntitySet target_resource target_object_id _ \<Rightarrow>
           let node_id = (target_resource, target_object_id, computed_relation) in
           if node_id \<in> trail
           then ttu_subjects_loop lk policy_id computed_relation call trail True rest
           else
             st_bind (st_lift (get_expression lk policy_id target_resource computed_relation))
               (\<lambda>target_expr.
             st_bind (call node_id target_expr (insert node_id trail)) (\<lambda>(granted, t).
               if granted then st_ret (True, t)
               else ttu_subjects_loop lk policy_id computed_relation call trail (tainted \<or> t) rest))
       | Wildcard \<Rightarrow> st_ret (True, False)
       | TypedWildcard _ \<Rightarrow> st_ret (True, False)
       | Entity _ \<Rightarrow> ttu_subjects_loop lk policy_id computed_relation call trail tainted rest)"

fun union_loop :: "(relation_expression \<Rightarrow> 's eval) \<Rightarrow> bool \<Rightarrow> relation_expression list \<Rightarrow> 's eval" where
  "union_loop inner tainted [] = st_ret (False, tainted)"
| "union_loop inner tainted (expr # rest) =
     st_bind (inner expr) (\<lambda>(granted, t).
       if granted then st_ret (True, t) else union_loop inner (tainted \<or> t) rest)"

fun intersection_loop ::
  "(relation_expression \<Rightarrow> 's eval) \<Rightarrow> bool \<Rightarrow> relation_expression list \<Rightarrow> 's eval" where
  "intersection_loop inner tainted [] = st_ret (True, tainted)"
| "intersection_loop inner tainted (expr # rest) =
     st_bind (inner expr) (\<lambda>(granted, t).
       if \<not> granted then st_ret (False, t) else intersection_loop inner (tainted \<or> t) rest)"

definition difference_eval ::
  "(relation_expression \<Rightarrow> 's eval) \<Rightarrow> relation_expression \<Rightarrow> relation_expression \<Rightarrow> 's eval" where
  "difference_eval inner base subtract =
     st_bind (inner base) (\<lambda>(base_granted, base_tainted).
       if \<not> base_granted then st_ret (False, base_tainted)
       else st_bind (inner subtract) (\<lambda>(subtract_granted, subtract_tainted).
         if subtract_tainted then st_fail IndeterminateExclusion
         else st_ret (\<not> subtract_granted, base_tainted)))"

text \<open>\<open>evaluate_expr_cached\<close>, over the evaluator it falls back to on a miss.\<close>

definition cached_with ::
  "(node_id \<Rightarrow> relation_expression \<Rightarrow> node_trail \<Rightarrow> 's eval) \<Rightarrow> string \<Rightarrow> did \<Rightarrow> 's node_eval" where
  "cached_with inner policy_id subject node expression trail c =
     (let key = (policy_id, node, subject) in
      case cache_get key c of
        Some cached \<Rightarrow> st_bind charge (\<lambda>_. st_ret (cached, False)) c
      | None \<Rightarrow>
          st_bind (inner node expression trail) (\<lambda>(v, tainted).
            st_bind (if \<not> tainted then cache_set key v else st_ret ()) (\<lambda>_.
            st_ret (v, tainted))) c)"

text \<open>The branches of \<open>evaluate_expr_inner\<close> on \<open>This\<close> and \<open>TupleToUserset\<close>, with their store reads.\<close>

definition this_eval :: "'s engine \<Rightarrow> string \<Rightarrow> did \<Rightarrow> 's node_eval \<Rightarrow> node_id \<Rightarrow> node_trail \<Rightarrow> 's eval" where
  "this_eval eng policy_id subject call node trail =
     (case node of (resource, object_id, relation) \<Rightarrow>
       st_bind (on_backend (check_permission_direct_op (eng_ops eng)
                  policy_id resource object_id relation subject)) (\<lambda>granted.
       if granted then st_ret (True, False)
       else
         st_bind (on_backend (get_relation_subjects_op (eng_ops eng)
                    policy_id resource object_id relation)) (\<lambda>targets.
         this_loop (eng_lookup eng) policy_id subject call trail False targets)))"

definition computed_eval :: "'s engine \<Rightarrow> string \<Rightarrow> 's node_eval \<Rightarrow> node_id \<Rightarrow> string \<Rightarrow> node_trail \<Rightarrow> 's eval" where
  "computed_eval eng policy_id call node computed_rel trail =
     (case node of (resource, object_id, relation) \<Rightarrow>
       let node_id = (resource, object_id, computed_rel) in
       if node_id \<in> trail then st_ret (False, True)
       else
         st_bind (st_lift (get_expression (eng_lookup eng) policy_id resource computed_rel))
           (\<lambda>computed_expr. call node_id computed_expr (insert node_id trail)))"

definition ttu_eval ::
  "'s engine \<Rightarrow> string \<Rightarrow> 's node_eval \<Rightarrow> node_id \<Rightarrow> string \<Rightarrow> string \<Rightarrow> node_trail \<Rightarrow> 's eval" where
  "ttu_eval eng policy_id call node tuple_relation computed_relation trail =
     (case node of (resource, object_id, relation) \<Rightarrow>
       st_bind (on_backend (get_relation_targets_op (eng_ops eng)
                  policy_id resource object_id tuple_relation)) (\<lambda>targets.
       st_bind (ttu_targets_loop (eng_lookup eng) policy_id computed_relation call trail False targets)
         (\<lambda>decision. case decision of
            Inr r \<Rightarrow> st_ret r
          | Inl tainted \<Rightarrow>
              st_bind (on_backend (get_relation_subjects_op (eng_ops eng)
                         policy_id resource object_id tuple_relation)) (\<lambda>subjects.
              ttu_subjects_loop (eng_lookup eng) policy_id computed_relation call trail tainted
                subjects))))"

text \<open>
  \<open>evaluate_expr_inner\<close>: \<open>remaining\<close> is the number of evaluations that may still be active,
  so entering with none left fails and the recursion descends on it.
\<close>

primrec evaluate_expr_inner ::
  "nat \<Rightarrow> 's engine \<Rightarrow> string \<Rightarrow> did \<Rightarrow> node_id \<Rightarrow> relation_expression \<Rightarrow> node_trail \<Rightarrow> 's eval" where
  "evaluate_expr_inner 0 eng policy_id subject node expression trail =
     st_bind (enter 0) (\<lambda>_. st_fail (EvaluationLimitExceeded ''depth''))"
| "evaluate_expr_inner (Suc remaining) eng policy_id subject node expression trail =
     st_bind (enter (Suc remaining)) (\<lambda>_.
       let call = cached_with (evaluate_expr_inner remaining eng policy_id subject) policy_id subject;
           inner = (\<lambda>expr. evaluate_expr_inner remaining eng policy_id subject node expr trail)
       in case expression of
            This \<Rightarrow> this_eval eng policy_id subject call node trail
          | ComputedUserset computed_rel \<Rightarrow> computed_eval eng policy_id call node computed_rel trail
          | TupleToUserset tuple_relation computed_relation \<Rightarrow>
              ttu_eval eng policy_id call node tuple_relation computed_relation trail
          | UnionOf exprs \<Rightarrow> union_loop inner False exprs
          | IntersectionOf exprs \<Rightarrow> intersection_loop inner False exprs
          | Difference base subtract \<Rightarrow> difference_eval inner base subtract)"

lemma evaluate_expr_inner_numeral:
  "evaluate_expr_inner (numeral k) eng policy_id subject node expression trail =
     st_bind (enter (numeral k)) (\<lambda>_.
       let call = cached_with (evaluate_expr_inner (pred_numeral k) eng policy_id subject) policy_id subject;
           inner = (\<lambda>expr. evaluate_expr_inner (pred_numeral k) eng policy_id subject node expr trail)
       in case expression of
            This \<Rightarrow> this_eval eng policy_id subject call node trail
          | ComputedUserset computed_rel \<Rightarrow> computed_eval eng policy_id call node computed_rel trail
          | TupleToUserset tuple_relation computed_relation \<Rightarrow>
              ttu_eval eng policy_id call node tuple_relation computed_relation trail
          | UnionOf exprs \<Rightarrow> union_loop inner False exprs
          | IntersectionOf exprs \<Rightarrow> intersection_loop inner False exprs
          | Difference base subtract \<Rightarrow> difference_eval inner base subtract)"
  by (simp only: numeral_eq_Suc evaluate_expr_inner.simps)

definition evaluate_expr_cached :: "'s engine \<Rightarrow> string \<Rightarrow> did \<Rightarrow> 's node_eval" where
  "evaluate_expr_cached eng policy_id subject =
     cached_with (evaluate_expr_inner MAX_EVALUATION_DEPTH eng policy_id subject) policy_id subject"


section \<open>Entry points\<close>

definition check_with_cache ::
  "'s engine \<Rightarrow> string \<Rightarrow> string \<Rightarrow> string \<Rightarrow> string \<Rightarrow> did \<Rightarrow> ('s check_cache, zerror, bool) stm" where
  "check_with_cache eng policy_id resource object_id relation subject =
     st_bind (st_lift (get_expression (eng_lookup eng) policy_id resource relation)) (\<lambda>expression.
     let node_id = (resource, object_id, relation) in
     st_bind (evaluate_expr_cached eng policy_id subject node_id expression {node_id})
       (\<lambda>(granted, _). st_ret granted))"

text \<open>\<open>check\<close> and \<open>check_blocking\<close>: a fresh cache per call, the store's own state is kept.\<close>

definition check ::
  "'s engine \<Rightarrow> string \<Rightarrow> string \<Rightarrow> string \<Rightarrow> string \<Rightarrow> did \<Rightarrow> ('s, zerror, bool) stm" where
  "check eng policy_id resource object_id relation subject s =
     (case st_bind (st_lift (get_expression (eng_lookup eng) policy_id resource relation)) (\<lambda>expression.
        let node_id = (resource, object_id, relation) in
        st_bind (evaluate_expr_cached eng policy_id subject node_id expression {node_id})
          (\<lambda>(granted, _). st_ret granted)) (cache_new s) of
        (r, c) \<Rightarrow> (r, backend c))"

record check_request =
  req_policy_id :: string
  req_resource :: string
  req_object_id :: string
  req_relation :: string
  req_subject :: did

fun check_many_loop ::
  "'s engine \<Rightarrow> check_request list \<Rightarrow> 's check_cache \<Rightarrow> (zerror + bool) list \<times> 's check_cache" where
  "check_many_loop eng [] c = ([], c)"
| "check_many_loop eng (req # requests) c =
     (case check_with_cache eng (req_policy_id req) (req_resource req) (req_object_id req)
             (req_relation req) (req_subject req) c of
        (result, c1) \<Rightarrow>
          (case check_many_loop eng requests c1 of (rs, c2) \<Rightarrow> (result # rs, c2)))"

definition check_many :: "'s engine \<Rightarrow> check_request list \<Rightarrow> 's \<Rightarrow> (zerror + bool) list \<times> 's" where
  "check_many eng requests s =
     (case check_many_loop eng requests (cache_new s) of (rs, c) \<Rightarrow> (rs, backend c))"

end
