(* ===== verification/Permission_Semantics.thy ===== *)
theory Permission_Semantics
  imports Permission_Engine
begin

text \<open>
  What a permission check is supposed to answer, and the proof that the evaluator of
  \<open>Permission_Engine\<close> answers it.

  The specification is a pair of inductive relations over the stored tuples: \<open>granted\<close>, that a
  subject has a relation on an object, and \<open>refuted\<close>, that it provably has not. They are the least
  (well-founded) reading of Zanzibar's userset rewrites: a positive cycle grants nothing by itself, and
  an exclusion grants only when the excluded side is refuted. There is no trail, no cache, no taint and
  no budget in them.

  The interface between the evaluator and a store is the locale \<open>zanzibar_reads\<close>: a read returns an
  error, or exactly what the tuples say. In it, every \<open>Ok\<close> answer of \<open>check\<close> is shown to be the
  answer of the specification, in both directions.
\<close>

section \<open>Specification\<close>

type_synonym tuples = "string \<Rightarrow> node_id \<Rightarrow> subject set"

definition direct_grant :: "tuples \<Rightarrow> string \<Rightarrow> did \<Rightarrow> node_id \<Rightarrow> bool" where
  "direct_grant R pid sbj n \<longleftrightarrow>
     Entity sbj \<in> R pid n \<or> Wildcard \<in> R pid n \<or> (\<exists>x. TypedWildcard x \<in> R pid n)"

definition actor_grant :: "lookup_table \<Rightarrow> tuples \<Rightarrow> string \<Rightarrow> did \<Rightarrow> node_id \<Rightarrow> bool" where
  "actor_grant lk R pid sbj n \<longleftrightarrow>
     (\<exists>r. EntitySet r (as_str sbj) [] \<in> R pid n \<and> is_actor_resource lk pid r)"

definition wildcard_tuple :: "tuples \<Rightarrow> string \<Rightarrow> node_id \<Rightarrow> bool" where
  "wildcard_tuple R pid n \<longleftrightarrow> Wildcard \<in> R pid n \<or> (\<exists>x. TypedWildcard x \<in> R pid n)"

inductive granted :: "lookup_table \<Rightarrow> tuples \<Rightarrow> string \<Rightarrow> did \<Rightarrow> node_id \<Rightarrow> relation_expression \<Rightarrow> bool"
  and refuted :: "lookup_table \<Rightarrow> tuples \<Rightarrow> string \<Rightarrow> did \<Rightarrow> node_id \<Rightarrow> relation_expression \<Rightarrow> bool"
  for lk R pid sbj where
  g_direct: "direct_grant R pid sbj n \<or> actor_grant lk R pid sbj n \<Longrightarrow> granted lk R pid sbj n This"
| g_userset: "EntitySet r' o' l' \<in> R pid n \<Longrightarrow> l' \<noteq> [] \<Longrightarrow> get_expression lk pid r' l' = Inr e' \<Longrightarrow>
     granted lk R pid sbj (r', o', l') e' \<Longrightarrow> granted lk R pid sbj n This"
| g_computed: "get_expression lk pid r c = Inr e' \<Longrightarrow> granted lk R pid sbj (r, obj, c) e' \<Longrightarrow>
     granted lk R pid sbj (r, obj, l) (ComputedUserset c)"
| g_ttu_wildcard: "wildcard_tuple R pid (r, obj, tr) \<Longrightarrow>
     granted lk R pid sbj (r, obj, l) (TupleToUserset tr cr)"
| g_ttu: "EntitySet r' o' l' \<in> R pid (r, obj, tr) \<Longrightarrow> get_expression lk pid r' cr = Inr e' \<Longrightarrow>
     granted lk R pid sbj (r', o', cr) e' \<Longrightarrow>
     granted lk R pid sbj (r, obj, l) (TupleToUserset tr cr)"
| g_union: "e \<in> set es \<Longrightarrow> granted lk R pid sbj n e \<Longrightarrow> granted lk R pid sbj n (UnionOf es)"
| g_intersection: "(\<And>e. e \<in> set es \<Longrightarrow> granted lk R pid sbj n e) \<Longrightarrow>
     granted lk R pid sbj n (IntersectionOf es)"
| g_difference: "granted lk R pid sbj n b \<Longrightarrow> refuted lk R pid sbj n s \<Longrightarrow>
     granted lk R pid sbj n (Difference b s)"
| r_this: "\<not> direct_grant R pid sbj n \<Longrightarrow> \<not> actor_grant lk R pid sbj n \<Longrightarrow>
     (\<And>r' o' l'. EntitySet r' o' l' \<in> R pid n \<Longrightarrow> l' \<noteq> [] \<Longrightarrow>
        \<exists>e'. get_expression lk pid r' l' = Inr e' \<and> refuted lk R pid sbj (r', o', l') e') \<Longrightarrow>
     refuted lk R pid sbj n This"
| r_computed: "get_expression lk pid r c = Inr e' \<Longrightarrow> refuted lk R pid sbj (r, obj, c) e' \<Longrightarrow>
     refuted lk R pid sbj (r, obj, l) (ComputedUserset c)"
| r_ttu: "\<not> wildcard_tuple R pid (r, obj, tr) \<Longrightarrow>
     (\<And>r' o' l'. EntitySet r' o' l' \<in> R pid (r, obj, tr) \<Longrightarrow>
        \<exists>e'. get_expression lk pid r' cr = Inr e' \<and> refuted lk R pid sbj (r', o', cr) e') \<Longrightarrow>
     refuted lk R pid sbj (r, obj, l) (TupleToUserset tr cr)"
| r_union: "(\<And>e. e \<in> set es \<Longrightarrow> refuted lk R pid sbj n e) \<Longrightarrow> refuted lk R pid sbj n (UnionOf es)"
| r_intersection: "e \<in> set es \<Longrightarrow> refuted lk R pid sbj n e \<Longrightarrow>
     refuted lk R pid sbj n (IntersectionOf es)"
| r_difference_base: "refuted lk R pid sbj n b \<Longrightarrow> refuted lk R pid sbj n (Difference b s)"
| r_difference_subtract: "granted lk R pid sbj n s \<Longrightarrow> refuted lk R pid sbj n (Difference b s)"

inductive_cases granted_This [elim!]: "granted lk R pid sbj n This"
inductive_cases granted_Computed [elim!]: "granted lk R pid sbj n (ComputedUserset c)"
inductive_cases granted_Ttu [elim!]: "granted lk R pid sbj n (TupleToUserset tr cr)"
inductive_cases granted_Union [elim!]: "granted lk R pid sbj n (UnionOf es)"
inductive_cases granted_Intersection [elim!]: "granted lk R pid sbj n (IntersectionOf es)"
inductive_cases granted_Difference [elim!]: "granted lk R pid sbj n (Difference b s)"

text \<open>No subject is both granted and refuted.\<close>

lemma granted_refuted_exclusive:
  "granted lk R pid sbj n e \<Longrightarrow> \<not> refuted lk R pid sbj n e"
  "refuted lk R pid sbj n e \<Longrightarrow> \<not> granted lk R pid sbj n e"
proof (induction rule: granted_refuted.inducts)
  case (g_userset r' o' l' n e')
  show ?case
  proof
    assume "refuted lk R pid sbj n This"
    then show False using g_userset by cases fastforce
  qed
next
  case (g_ttu r' o' l' r obj tr cr e' l)
  show ?case
  proof
    assume "refuted lk R pid sbj (r, obj, l) (TupleToUserset tr cr)"
    then show False using g_ttu by cases fastforce
  qed
next
  case (r_this n)
  then show ?case by fastforce
next
  case (r_ttu r obj tr cr l)
  then show ?case by fastforce
qed (auto elim: refuted.cases)


section \<open>Derivations that avoid a set of nodes\<close>

text \<open>
  The evaluator never revisits a node of its trail. \<open>granted_avoiding T\<close> is \<open>granted\<close> restricted to
  derivations that do not pass through \<open>T\<close>; a derivation that passes through a node contains a
  derivation of that node, so forbidding the node one is asking about loses nothing.
\<close>

inductive granted_avoiding ::
  "lookup_table \<Rightarrow> tuples \<Rightarrow> string \<Rightarrow> did \<Rightarrow> node_trail \<Rightarrow> node_id \<Rightarrow> relation_expression \<Rightarrow> bool"
  for lk R pid sbj T where
  a_direct: "direct_grant R pid sbj n \<or> actor_grant lk R pid sbj n \<Longrightarrow>
     granted_avoiding lk R pid sbj T n This"
| a_userset: "EntitySet r' o' l' \<in> R pid n \<Longrightarrow> l' \<noteq> [] \<Longrightarrow> get_expression lk pid r' l' = Inr e' \<Longrightarrow>
     (r', o', l') \<notin> T \<Longrightarrow> granted_avoiding lk R pid sbj T (r', o', l') e' \<Longrightarrow>
     granted_avoiding lk R pid sbj T n This"
| a_computed: "get_expression lk pid r c = Inr e' \<Longrightarrow> (r, obj, c) \<notin> T \<Longrightarrow>
     granted_avoiding lk R pid sbj T (r, obj, c) e' \<Longrightarrow>
     granted_avoiding lk R pid sbj T (r, obj, l) (ComputedUserset c)"
| a_ttu_wildcard: "wildcard_tuple R pid (r, obj, tr) \<Longrightarrow>
     granted_avoiding lk R pid sbj T (r, obj, l) (TupleToUserset tr cr)"
| a_ttu: "EntitySet r' o' l' \<in> R pid (r, obj, tr) \<Longrightarrow> get_expression lk pid r' cr = Inr e' \<Longrightarrow>
     (r', o', cr) \<notin> T \<Longrightarrow> granted_avoiding lk R pid sbj T (r', o', cr) e' \<Longrightarrow>
     granted_avoiding lk R pid sbj T (r, obj, l) (TupleToUserset tr cr)"
| a_union: "e \<in> set es \<Longrightarrow> granted_avoiding lk R pid sbj T n e \<Longrightarrow>
     granted_avoiding lk R pid sbj T n (UnionOf es)"
| a_intersection: "(\<And>e. e \<in> set es \<Longrightarrow> granted_avoiding lk R pid sbj T n e) \<Longrightarrow>
     granted_avoiding lk R pid sbj T n (IntersectionOf es)"
| a_difference: "granted_avoiding lk R pid sbj T n b \<Longrightarrow> refuted lk R pid sbj n s \<Longrightarrow>
     granted_avoiding lk R pid sbj T n (Difference b s)"

inductive_cases avoiding_This: "granted_avoiding lk R pid sbj T n This"
inductive_cases avoiding_Computed: "granted_avoiding lk R pid sbj T n (ComputedUserset c)"
inductive_cases avoiding_Ttu: "granted_avoiding lk R pid sbj T n (TupleToUserset tr cr)"
inductive_cases avoiding_Union: "granted_avoiding lk R pid sbj T n (UnionOf es)"
inductive_cases avoiding_Intersection: "granted_avoiding lk R pid sbj T n (IntersectionOf es)"
inductive_cases avoiding_Difference: "granted_avoiding lk R pid sbj T n (Difference b s)"

lemma avoiding_granted: "granted_avoiding lk R pid sbj T n e \<Longrightarrow> granted lk R pid sbj n e"
  by (induction rule: granted_avoiding.induct) (auto intro: granted_refuted.intros)

lemma granted_avoiding_empty:
  "granted lk R pid sbj n e \<Longrightarrow> granted_avoiding lk R pid sbj {} n e"
  "refuted lk R pid sbj n e \<Longrightarrow> True"
  by (induction rule: granted_refuted.inducts) (auto intro: granted_avoiding.intros)

text \<open>Removing a loop: a derivation either avoids \<open>m\<close> already, or contains one of \<open>m\<close> that does.\<close>

lemma avoiding_split:
  assumes "granted_avoiding lk R pid sbj T n e" and "get_expression lk pid (fst m) (snd (snd m)) = Inr em"
  shows "granted_avoiding lk R pid sbj (insert m T) n e \<or>
         granted_avoiding lk R pid sbj (insert m T) m em"
  using assms
proof (induction rule: granted_avoiding.induct)
  case (a_userset r' o' l' n e')
  then show ?case by (cases "(r', o', l') = m") (auto intro: granted_avoiding.intros)
next
  case (a_computed r c e' obj l)
  then show ?case by (cases "(r, obj, c) = m") (auto intro: granted_avoiding.intros)
next
  case (a_ttu r' o' l' r obj tr cr e' l)
  then show ?case by (cases "(r', o', cr) = m") (auto intro: granted_avoiding.intros)
next
  case (a_intersection es n)
  then show ?case by (metis granted_avoiding.a_intersection)
qed (auto intro: granted_avoiding.intros)

lemma avoiding_self:
  "granted_avoiding lk R pid sbj T n e \<Longrightarrow> get_expression lk pid (fst n) (snd (snd n)) = Inr e \<Longrightarrow>
     granted_avoiding lk R pid sbj (insert n T) n e"
  using avoiding_split by fastforce

end
