(* ===== verification/Permission_Correctness.thy ===== *)
theory Permission_Correctness
  imports Permission_Semantics
begin

text \<open>
  The evaluator answers the specification. The loops are treated first, over any evaluator for the
  nodes they jump to; then the store interface \<open>zanzibar_reads\<close> and, inside it, the induction on the
  remaining depth and the entry points \<open>check\<close> and \<open>check_many\<close>.
\<close>

section \<open>What one evaluation decides\<close>

text \<open>
  A result is a pair (granted, tainted). A granted result is always right; a denial that is not tainted
  is a refutation; and any denial excludes a derivation that avoids the trail.
\<close>

definition decides ::
  "lookup_table \<Rightarrow> tuples \<Rightarrow> string \<Rightarrow> did \<Rightarrow> node_trail \<Rightarrow> node_id \<Rightarrow> relation_expression \<Rightarrow>
     bool \<times> bool \<Rightarrow> bool" where
  "decides lk R pid sbj T n e = (\<lambda>(v, t).
     (v \<longrightarrow> granted lk R pid sbj n e) \<and>
     (\<not> v \<longrightarrow> \<not> t \<longrightarrow> refuted lk R pid sbj n e) \<and>
     (\<not> v \<longrightarrow> \<not> granted_avoiding lk R pid sbj T n e))"

definition node_expression :: "lookup_table \<Rightarrow> string \<Rightarrow> node_id \<Rightarrow> zerror + relation_expression" where
  "node_expression lk pid n = get_expression lk pid (fst n) (snd (snd n))"

definition permitted :: "lookup_table \<Rightarrow> tuples \<Rightarrow> string \<Rightarrow> did \<Rightarrow> node_id \<Rightarrow> bool" where
  "permitted lk R pid sbj m \<longleftrightarrow> (\<exists>e. node_expression lk pid m = Inr e \<and> granted lk R pid sbj m e)"

definition forbidden :: "lookup_table \<Rightarrow> tuples \<Rightarrow> string \<Rightarrow> did \<Rightarrow> node_id \<Rightarrow> bool" where
  "forbidden lk R pid sbj m \<longleftrightarrow> (\<exists>e. node_expression lk pid m = Inr e \<and> refuted lk R pid sbj m e)"

definition jump_avoiding ::
  "lookup_table \<Rightarrow> tuples \<Rightarrow> string \<Rightarrow> did \<Rightarrow> node_trail \<Rightarrow> node_id \<Rightarrow> bool" where
  "jump_avoiding lk R pid sbj T m \<longleftrightarrow>
     m \<notin> T \<and> (\<exists>e. node_expression lk pid m = Inr e \<and> granted_avoiding lk R pid sbj T m e)"

lemmas jump_defs = permitted_def forbidden_def jump_avoiding_def node_expression_def

text \<open>What an evaluator of other nodes must provide to the loops that call it.\<close>

definition call_ok ::
  "('s check_cache \<Rightarrow> bool) \<Rightarrow> lookup_table \<Rightarrow> tuples \<Rightarrow> string \<Rightarrow> did \<Rightarrow> 's node_eval \<Rightarrow> bool" where
  "call_ok I lk R pid sbj call \<longleftrightarrow>
     (\<forall>m e T. node_expression lk pid m = Inr e \<longrightarrow> triple I (call m e T) (decides lk R pid sbj T m e))"

text \<open>The step every loop shares: look the node's expression up and evaluate it under a longer trail.\<close>

definition jump_decides ::
  "lookup_table \<Rightarrow> tuples \<Rightarrow> string \<Rightarrow> did \<Rightarrow> node_trail \<Rightarrow> node_id \<Rightarrow> bool \<times> bool \<Rightarrow> bool" where
  "jump_decides lk R pid sbj T m = (\<lambda>(v, t).
     (v \<longrightarrow> permitted lk R pid sbj m) \<and>
     (\<not> v \<longrightarrow> \<not> t \<longrightarrow> forbidden lk R pid sbj m) \<and>
     (\<not> v \<longrightarrow> \<not> jump_avoiding lk R pid sbj T m))"

lemma jump_decidesI:
  assumes "decides lk R pid sbj (insert m T) m e r" and "node_expression lk pid m = Inr e"
  shows "jump_decides lk R pid sbj T m r"
proof -
  have "granted_avoiding lk R pid sbj T m e \<Longrightarrow> granted_avoiding lk R pid sbj (insert m T) m e"
    using assms(2) avoiding_self by (simp add: node_expression_def)
  with assms show ?thesis
    by (auto simp: jump_decides_def decides_def permitted_def forbidden_def jump_avoiding_def)
qed

lemma triple_jump:
  assumes "call_ok I lk R pid sbj call"
    and "\<And>w. jump_decides lk R pid sbj T (r, ob, l) w \<Longrightarrow> triple I (k w) Q"
  shows "triple I (st_bind (st_lift (get_expression lk pid r l))
           (\<lambda>e. st_bind (call (r, ob, l) e (insert (r, ob, l) T)) k)) Q"
proof (rule triple_bind)
  show "triple I (st_lift (get_expression lk pid r l)) (\<lambda>e. node_expression lk pid (r, ob, l) = Inr e)"
    by (rule triple_lift) (simp add: node_expression_def)
next
  fix e assume e: "node_expression lk pid (r, ob, l) = Inr e"
  let ?T = "insert (r, ob, l) T"
  from e have "triple I (call (r, ob, l) e ?T) (decides lk R pid sbj ?T (r, ob, l) e)"
    using assms(1) unfolding call_ok_def by blast
  then show "triple I (st_bind (call (r, ob, l) e ?T) k) Q"
    by (rule triple_bind) (use assms(2) e jump_decidesI in blast)
qed

lemma triple_charge_bind:
  assumes "triple I charge (\<lambda>_. True)" and "triple I (k ()) Q"
  shows "triple I (st_bind charge k) Q"
  by (rule triple_bind [OF assms(1)]) (use assms(2) in \<open>simp add: unit_eq\<close>)


section \<open>The loops\<close>

text \<open>What a stored subject contributes to the relation it is stored under.\<close>

fun this_hit :: "lookup_table \<Rightarrow> tuples \<Rightarrow> string \<Rightarrow> did \<Rightarrow> subject \<Rightarrow> bool" where
  "this_hit lk R pid sbj (EntitySet r ob l) =
     (if l = [] then is_actor_resource lk pid r \<and> ob = as_str sbj
      else permitted lk R pid sbj (r, ob, l))"
| "this_hit lk R pid sbj _ = False"

fun this_miss :: "lookup_table \<Rightarrow> tuples \<Rightarrow> string \<Rightarrow> did \<Rightarrow> subject \<Rightarrow> bool" where
  "this_miss lk R pid sbj (EntitySet r ob l) =
     (if l = [] then \<not> (is_actor_resource lk pid r \<and> ob = as_str sbj)
      else forbidden lk R pid sbj (r, ob, l))"
| "this_miss lk R pid sbj _ = True"

fun this_avoid :: "lookup_table \<Rightarrow> tuples \<Rightarrow> string \<Rightarrow> did \<Rightarrow> node_trail \<Rightarrow> subject \<Rightarrow> bool" where
  "this_avoid lk R pid sbj T (EntitySet r ob l) =
     (if l = [] then is_actor_resource lk pid r \<and> ob = as_str sbj
      else jump_avoiding lk R pid sbj T (r, ob, l))"
| "this_avoid lk R pid sbj T _ = False"

text \<open>Outcome of a search through a list: a hit, or no hit with the flag telling whether every
  element was refuted.\<close>

definition searched ::
  "('a \<Rightarrow> bool) \<Rightarrow> ('a \<Rightarrow> bool) \<Rightarrow> ('a \<Rightarrow> bool) \<Rightarrow> bool \<Rightarrow> 'a list \<Rightarrow> bool \<times> bool \<Rightarrow> bool" where
  "searched hit miss avoid tainted xs = (\<lambda>(v, t).
     (v \<longrightarrow> (\<exists>x \<in> set xs. hit x)) \<and>
     (\<not> v \<longrightarrow> \<not> t \<longrightarrow> \<not> tainted \<and> (\<forall>x \<in> set xs. miss x)) \<and>
     (\<not> v \<longrightarrow> (\<forall>x \<in> set xs. \<not> avoid x)))"

lemma searched_Nil: "searched hit miss avoid tainted [] (False, tainted)"
  by (simp add: searched_def)

lemma searched_hit: "hit x \<Longrightarrow> searched hit miss avoid tainted (x # xs) (True, t)"
  by (simp add: searched_def)

lemma searched_Cons:
  assumes "searched hit miss avoid tainted' xs r" and "tainted \<Longrightarrow> tainted'"
    and "\<not> tainted' \<Longrightarrow> miss x" and "\<not> avoid x"
  shows "searched hit miss avoid tainted (x # xs) r"
  using assms by (auto simp: searched_def)

lemma search_skip:
  assumes "triple I (loop tainted') (searched hit miss avoid tainted' xs)"
    and "tainted \<Longrightarrow> tainted'" and "\<not> tainted' \<Longrightarrow> miss x" and "\<not> avoid x"
  shows "triple I (loop tainted') (searched hit miss avoid tainted (x # xs))"
  by (rule triple_weaken [OF assms(1)]) (use assms(2-4) in \<open>auto intro: searched_Cons\<close>)

text \<open>The continuation of a search after it has evaluated its head.\<close>

lemma search_step:
  assumes loop: "\<And>tainted. triple I (loop tainted) (searched hit miss avoid tainted xs)"
    and w: "(fst w \<longrightarrow> hit x) \<and> (\<not> fst w \<longrightarrow> \<not> snd w \<longrightarrow> miss x) \<and> (\<not> fst w \<longrightarrow> \<not> avoid x)"
  shows "triple I (case w of (v, t) \<Rightarrow> if v then st_ret (True, t) else loop (tainted \<or> t))
           (searched hit miss avoid tainted (x # xs))"
proof (cases w)
  case (Pair v t)
  show ?thesis
  proof (cases v)
    case True
    with Pair w show ?thesis by (auto intro!: triple_ret searched_hit)
  next
    case False
    with Pair w have "triple I (loop (tainted \<or> t)) (searched hit miss avoid tainted (x # xs))"
      by (intro search_skip [OF loop]) auto
    with Pair False show ?thesis by simp
  qed
qed

lemma search_jump:
  assumes call: "call_ok I lk R pid sbj call"
    and loop: "\<And>tainted. triple I (loop tainted) (searched hit miss avoid tainted xs)"
    and "hit x \<longleftrightarrow> permitted lk R pid sbj (r, ob, l)"
    and "miss x \<longleftrightarrow> forbidden lk R pid sbj (r, ob, l)"
    and "avoid x \<longleftrightarrow> jump_avoiding lk R pid sbj T (r, ob, l)"
  shows "triple I (st_bind (st_lift (get_expression lk pid r l)) (\<lambda>e.
           st_bind (call (r, ob, l) e (insert (r, ob, l) T)) (\<lambda>w. case w of (v, t) \<Rightarrow>
             if v then st_ret (True, t) else loop (tainted \<or> t))))
         (searched hit miss avoid tainted (x # xs))"
proof -
  have "triple I (case w of (v, t) \<Rightarrow> if v then st_ret (True, t) else loop (tainted \<or> t))
          (searched hit miss avoid tainted (x # xs))"
    if "jump_decides lk R pid sbj T (r, ob, l) w" for w
    by (rule search_step [OF loop]) (use that assms(3-5) in \<open>auto simp: jump_decides_def\<close>)
  then show ?thesis by (rule triple_jump [OF call])
qed

lemma this_loop_ok:
  assumes charge: "triple I charge (\<lambda>_. True)" and call: "call_ok I lk R pid sbj call"
  shows "triple I (this_loop lk pid sbj call T tainted ss)
           (searched (this_hit lk R pid sbj) (this_miss lk R pid sbj) (this_avoid lk R pid sbj T) tainted ss)"
proof (induction ss arbitrary: tainted)
  case Nil
  show ?case by (simp only: this_loop.simps) (rule triple_ret, rule searched_Nil)
next
  case (Cons s ss)
  let ?loop = "\<lambda>tainted. this_loop lk pid sbj call T tainted ss"
  note skip = search_skip [where loop = ?loop, OF Cons.IH]
  show ?case
  proof (cases s)
    case (EntitySet r ob l)
    show ?thesis
    proof (cases "l = []")
      case True
      with EntitySet show ?thesis
        by (auto intro!: triple_charge_bind [OF charge] triple_ret searched_hit skip)
    next
      case False
      from False EntitySet show ?thesis
        by (auto intro!: triple_charge_bind [OF charge] skip search_jump [where loop = ?loop, OF call Cons.IH]
                 simp: Let_def jump_avoiding_def)
    qed
  qed (auto intro!: triple_charge_bind [OF charge] skip)
qed

text \<open>The loop over the target objects either finds a grant or hands its flag on.\<close>

definition target_found ::
  "lookup_table \<Rightarrow> tuples \<Rightarrow> string \<Rightarrow> did \<Rightarrow> string \<Rightarrow> bool \<Rightarrow> object_ref list \<Rightarrow>
     bool + bool \<times> bool \<Rightarrow> bool" where
  "target_found lk R pid sbj cr tainted ts d = (case d of
     Inl t \<Rightarrow> tainted \<longrightarrow> t
   | Inr w \<Rightarrow> fst w \<and> (\<exists>x \<in> set ts. permitted lk R pid sbj (ref_resource x, ref_object_id x, cr)))"

lemma target_found_Cons:
  "target_found lk R pid sbj cr tainted' ts d \<Longrightarrow> (tainted \<Longrightarrow> tainted') \<Longrightarrow>
     target_found lk R pid sbj cr tainted (x # ts) d"
  by (auto simp: target_found_def split: sum.splits)

lemma ttu_targets_loop_ok:
  assumes charge: "triple I charge (\<lambda>_. True)" and call: "call_ok I lk R pid sbj call"
  shows "triple I (ttu_targets_loop lk pid cr call T tainted ts)
           (target_found lk R pid sbj cr tainted ts)"
proof (induction ts arbitrary: tainted)
  case Nil
  show ?case by (simp only: ttu_targets_loop.simps) (rule triple_ret, simp add: target_found_def)
next
  case (Cons x ts)
  let ?m = "(ref_resource x, ref_object_id x, cr)"
  have loop: "triple I (ttu_targets_loop lk pid cr call T tainted' ts)
                (target_found lk R pid sbj cr tainted (x # ts))"
    if "tainted \<Longrightarrow> tainted'" for tainted'
    by (rule triple_weaken [OF Cons.IH]) (use that target_found_Cons in blast)
  have step: "triple I (case w of (v, t) \<Rightarrow> if v then st_ret (Inr (True, t))
           else ttu_targets_loop lk pid cr call T (tainted \<or> t) ts)
         (target_found lk R pid sbj cr tainted (x # ts))"
    if "jump_decides lk R pid sbj T ?m w" for w
    using that by (cases w) (auto intro!: triple_ret loop simp: jump_decides_def target_found_def)
  show ?case
    by (auto intro!: triple_charge_bind [OF charge] loop triple_jump [OF call, OF step, simplified]
             simp: Let_def simp del: st_simps split del: prod.splits)
qed

fun ttu_hit :: "lookup_table \<Rightarrow> tuples \<Rightarrow> string \<Rightarrow> did \<Rightarrow> string \<Rightarrow> subject \<Rightarrow> bool" where
  "ttu_hit lk R pid sbj cr (EntitySet r ob l) = permitted lk R pid sbj (r, ob, cr)"
| "ttu_hit lk R pid sbj cr (Entity d) = False"
| "ttu_hit lk R pid sbj cr _ = True"

fun ttu_miss :: "lookup_table \<Rightarrow> tuples \<Rightarrow> string \<Rightarrow> did \<Rightarrow> string \<Rightarrow> subject \<Rightarrow> bool" where
  "ttu_miss lk R pid sbj cr (EntitySet r ob l) = forbidden lk R pid sbj (r, ob, cr)"
| "ttu_miss lk R pid sbj cr (Entity d) = True"
| "ttu_miss lk R pid sbj cr _ = False"

fun ttu_avoid ::
  "lookup_table \<Rightarrow> tuples \<Rightarrow> string \<Rightarrow> did \<Rightarrow> string \<Rightarrow> node_trail \<Rightarrow> subject \<Rightarrow> bool" where
  "ttu_avoid lk R pid sbj cr T (EntitySet r ob l) = jump_avoiding lk R pid sbj T (r, ob, cr)"
| "ttu_avoid lk R pid sbj cr T (Entity d) = False"
| "ttu_avoid lk R pid sbj cr T _ = True"

lemma ttu_subjects_loop_ok:
  assumes charge: "triple I charge (\<lambda>_. True)" and call: "call_ok I lk R pid sbj call"
  shows "triple I (ttu_subjects_loop lk pid cr call T tainted ss)
           (searched (ttu_hit lk R pid sbj cr) (ttu_miss lk R pid sbj cr) (ttu_avoid lk R pid sbj cr T) tainted ss)"
proof (induction ss arbitrary: tainted)
  case Nil
  show ?case by (simp only: ttu_subjects_loop.simps) (rule triple_ret, rule searched_Nil)
next
  case (Cons s ss)
  let ?loop = "\<lambda>tainted. ttu_subjects_loop lk pid cr call T tainted ss"
  note skip = search_skip [where loop = ?loop, OF Cons.IH]
  show ?case
    by (cases s)
       (auto intro!: triple_charge_bind [OF charge] triple_ret searched_hit skip
                     search_jump [where loop = ?loop, OF call Cons.IH]
             simp: Let_def jump_avoiding_def)
qed

text \<open>The loops over the operands of a union and of an intersection.\<close>

lemma union_loop_ok:
  assumes "\<And>e. triple I (inner e) (decides lk R pid sbj T n e)"
  shows "triple I (union_loop inner tainted es)
           (searched (granted lk R pid sbj n) (refuted lk R pid sbj n)
              (granted_avoiding lk R pid sbj T n) tainted es)"
proof (induction es arbitrary: tainted)
  case Nil
  show ?case by (simp only: union_loop.simps) (rule triple_ret, rule searched_Nil)
next
  case (Cons e es)
  show ?case
    unfolding union_loop.simps
    by (rule triple_bind [OF assms], rule search_step [OF Cons.IH]) (auto simp: decides_def)
qed

lemma intersection_loop_ok:
  assumes inner: "\<And>e. triple I (inner e) (decides lk R pid sbj T n e)"
  shows "triple I (intersection_loop inner tainted es)
           (\<lambda>(v, t). (v \<longrightarrow> (\<forall>e \<in> set es. granted lk R pid sbj n e)) \<and>
             (\<not> v \<longrightarrow> \<not> t \<longrightarrow> (\<exists>e \<in> set es. refuted lk R pid sbj n e)) \<and>
             (\<not> v \<longrightarrow> (\<exists>e \<in> set es. \<not> granted_avoiding lk R pid sbj T n e)))"
proof (induction es arbitrary: tainted)
  case Nil
  show ?case by (simp only: intersection_loop.simps) (rule triple_ret, simp)
next
  case (Cons e es)
  show ?case
    unfolding intersection_loop.simps
  proof (rule triple_bind [OF inner])
    fix w assume w: "decides lk R pid sbj T n e w"
    obtain v t where vt: "w = (v, t)" by fastforce
    show "triple I (case w of (v, t) \<Rightarrow> if \<not> v then st_ret (False, t)
            else intersection_loop inner (tainted \<or> t) es)
          (\<lambda>(v, t). (v \<longrightarrow> (\<forall>e \<in> set (e # es). granted lk R pid sbj n e)) \<and>
             (\<not> v \<longrightarrow> \<not> t \<longrightarrow> (\<exists>e \<in> set (e # es). refuted lk R pid sbj n e)) \<and>
             (\<not> v \<longrightarrow> (\<exists>e \<in> set (e # es). \<not> granted_avoiding lk R pid sbj T n e)))"
    proof (cases v)
      case True
      have "triple I (intersection_loop inner (tainted \<or> t) es)
          (\<lambda>(v, t). (v \<longrightarrow> (\<forall>e \<in> set (e # es). granted lk R pid sbj n e)) \<and>
             (\<not> v \<longrightarrow> \<not> t \<longrightarrow> (\<exists>e \<in> set (e # es). refuted lk R pid sbj n e)) \<and>
             (\<not> v \<longrightarrow> (\<exists>e \<in> set (e # es). \<not> granted_avoiding lk R pid sbj T n e)))"
        by (rule triple_weaken [OF Cons.IH]) (use w vt True in \<open>auto simp: decides_def\<close>)
      with vt True show ?thesis by simp
    next
      case False
      with vt w show ?thesis by (auto intro!: triple_ret simp: decides_def)
    qed
  qed
qed


section \<open>The state of an evaluation\<close>

text \<open>Every memoised result is a fact about the tuples, whichever evaluation stored it.\<close>

definition cache_ok :: "lookup_table \<Rightarrow> tuples \<Rightarrow> 's check_cache \<Rightarrow> bool" where
  "cache_ok lk R c \<longleftrightarrow>
     (\<forall>pid n sbj v. results c (pid, n, sbj) = Some v \<longrightarrow>
        (if v then permitted lk R pid sbj n else forbidden lk R pid sbj n))"

definition eval_inv :: "('s \<Rightarrow> bool) \<Rightarrow> lookup_table \<Rightarrow> tuples \<Rightarrow> 's check_cache \<Rightarrow> bool" where
  "eval_inv sinv lk R c \<longleftrightarrow> cache_ok lk R c \<and> sinv (backend c)"

lemma eval_inv_new [simp]: "eval_inv sinv lk R (cache_new s) \<longleftrightarrow> sinv s"
  by (simp add: eval_inv_def cache_ok_def cache_new_def)

lemma triple_charge: "triple (eval_inv sinv lk R) charge (\<lambda>_. True)"
  by (auto simp: triple_def charge_def eval_inv_def cache_ok_def)

lemma triple_enter: "triple (eval_inv sinv lk R) (enter remaining) (\<lambda>_. True)"
  unfolding enter_def
  by (rule triple_charge_bind [OF triple_charge]) (auto intro!: triple_ret simp del: st_simps)

lemma triple_backend:
  "triple sinv m Q \<Longrightarrow> triple (eval_inv sinv lk R) (on_backend m) Q"
  by (fastforce simp: triple_def on_backend_def eval_inv_def cache_ok_def split: prod.splits)

lemma triple_cache_set:
  "(if v then permitted lk R pid sbj n else forbidden lk R pid sbj n) \<Longrightarrow>
     triple (eval_inv sinv lk R) (cache_set (pid, n, sbj) v) (\<lambda>_. True)"
  by (auto simp: triple_def cache_set_def eval_inv_def cache_ok_def)

lemma cached_with_ok:
  assumes inner: "\<And>m e T. triple (eval_inv sinv lk R) (inner m e T) (decides lk R pid sbj T m e)"
  shows "call_ok (eval_inv sinv lk R) lk R pid sbj (cached_with inner pid sbj)"
  unfolding call_ok_def
proof (intro allI impI)
  fix m e T assume e: "node_expression lk pid m = Inr e"
  let ?I = "eval_inv sinv lk R" and ?D = "decides lk R pid sbj T m e"
  have hit: "triple (\<lambda>c. ?I c) (st_bind charge (\<lambda>_. st_ret (v, False))) ?D"
    if "if v then permitted lk R pid sbj m else forbidden lk R pid sbj m" for v
  proof -
    from that e have "?D (v, False)"
      using granted_refuted_exclusive(2) [of lk R pid sbj m e] avoiding_granted [of lk R pid sbj T m e]
      by (auto simp: decides_def permitted_def forbidden_def split: if_splits)
    then show ?thesis by (intro triple_charge_bind [OF triple_charge] triple_ret)
  qed
  have miss: "triple ?I (st_bind (inner m e T) (\<lambda>(v, tainted).
                st_bind (if \<not> tainted then cache_set (pid, m, sbj) v else st_ret ()) (\<lambda>_.
                st_ret (v, tainted)))) ?D"
  proof (rule triple_bind [OF inner])
    fix w assume w: "?D w"
    obtain v t where vt: "w = (v, t)" by fastforce
    have "triple ?I (if \<not> t then cache_set (pid, m, sbj) v else st_ret ()) (\<lambda>_. True)"
      using w vt e
      by (auto intro!: triple_cache_set triple_ret
               simp: decides_def permitted_def forbidden_def simp del: st_simps)
    then have "triple ?I (st_bind (if \<not> t then cache_set (pid, m, sbj) v else st_ret ())
                 (\<lambda>_. st_ret (v, t))) ?D"
      by (rule triple_bind) (rule triple_ret, use w vt in simp)
    then show "triple ?I (case w of (v, tainted) \<Rightarrow>
            st_bind (if \<not> tainted then cache_set (pid, m, sbj) v else st_ret ()) (\<lambda>_.
            st_ret (v, tainted))) ?D" by (simp only: vt prod.case)
  qed
  show "triple ?I (cached_with inner pid sbj m e T) ?D"
  proof (rule tripleI)
    fix c r c' assume I: "?I c" and run: "cached_with inner pid sbj m e T c = (r, c')"
    show "?I c' \<and> (\<forall>x. r = Inr x \<longrightarrow> ?D x)"
    proof (cases "results c (pid, m, sbj)")
      case None
      with run have "st_bind (inner m e T) (\<lambda>(v, tainted).
                st_bind (if \<not> tainted then cache_set (pid, m, sbj) v else st_ret ()) (\<lambda>_.
                st_ret (v, tainted))) c = (r, c')"
        by (simp add: cached_with_def cache_get_def del: st_simps)
      with miss I show ?thesis unfolding triple_def by blast
    next
      case (Some v)
      from Some I have "if v then permitted lk R pid sbj m else forbidden lk R pid sbj m"
        unfolding eval_inv_def cache_ok_def by blast
      from hit [OF this]
      have "triple ?I (st_bind charge (\<lambda>_. st_ret (v, False))) ?D" .
      moreover from Some run have "st_bind charge (\<lambda>_. st_ret (v, False)) c = (r, c')"
        by (simp add: cached_with_def cache_get_def del: st_simps)
      ultimately show ?thesis using I unfolding triple_def by blast
    qed
  qed
qed


text \<open>A finished search settles the expression it implements.\<close>

lemma avoiding_This_cases:
  "granted_avoiding lk R pid sbj T n This \<Longrightarrow> direct_grant R pid sbj n \<or> actor_grant lk R pid sbj n \<or>
     (\<exists>r ob l. EntitySet r ob l \<in> R pid n \<and> l \<noteq> [] \<and> jump_avoiding lk R pid sbj T (r, ob, l))"
  by (erule avoiding_This) (auto simp: jump_defs)

lemma avoiding_Ttu_cases:
  "granted_avoiding lk R pid sbj T (r, ob, l) (TupleToUserset tr cr) \<Longrightarrow> wildcard_tuple R pid (r, ob, tr) \<or>
     (\<exists>r' ob' l'. EntitySet r' ob' l' \<in> R pid (r, ob, tr) \<and> jump_avoiding lk R pid sbj T (r', ob', cr))"
  by (erule avoiding_Ttu) (auto simp: jump_defs)

lemma this_hit_granted:
  assumes "this_hit lk R pid sbj s" and "s \<in> R pid n"
  shows "granted lk R pid sbj n This"
proof (cases s)
  case (EntitySet r ob l)
  with assms show ?thesis
    by (cases "l = []") (auto intro: g_direct g_userset simp: actor_grant_def jump_defs)
qed (use assms in auto)

lemma this_avoid_exists:
  assumes "granted_avoiding lk R pid sbj T n This" and "\<not> direct_grant R pid sbj n"
  shows "\<exists>s \<in> R pid n. this_avoid lk R pid sbj T s"
  using avoiding_This_cases [OF assms(1)] assms(2) by (force simp: actor_grant_def)

lemma ttu_hit_granted:
  assumes "ttu_hit lk R pid sbj cr s" and "s \<in> R pid (r, ob, tr)"
  shows "granted lk R pid sbj (r, ob, l) (TupleToUserset tr cr)"
proof (cases s)
  case (EntitySet r' ob' l')
  with assms show ?thesis by (auto intro: g_ttu simp: jump_defs)
qed (use assms in \<open>auto intro!: g_ttu_wildcard simp: wildcard_tuple_def\<close>)

lemma ttu_avoid_exists:
  assumes "granted_avoiding lk R pid sbj T (r, ob, l) (TupleToUserset tr cr)"
  shows "\<exists>s \<in> R pid (r, ob, tr). ttu_avoid lk R pid sbj cr T s"
  using avoiding_Ttu_cases [OF assms] by (force simp: wildcard_tuple_def)

lemma this_searched_decides:
  assumes "\<not> direct_grant R pid sbj n" and ss: "set ss = R pid n"
    and w: "searched (this_hit lk R pid sbj) (this_miss lk R pid sbj) (this_avoid lk R pid sbj T) False ss w"
  shows "decides lk R pid sbj T n This w"
proof -
  have miss: "refuted lk R pid sbj n This" if all: "\<And>s. s \<in> R pid n \<Longrightarrow> this_miss lk R pid sbj s"
  proof (rule r_this)
    show "\<not> actor_grant lk R pid sbj n" by (auto simp: actor_grant_def dest!: all)
  qed (use assms(1) in \<open>auto simp: jump_defs dest!: all\<close>)
  have hit: "granted lk R pid sbj n This" if "this_hit lk R pid sbj s" "s \<in> R pid n" for s
    using that by (rule this_hit_granted)
  have avoid: "\<exists>s \<in> R pid n. this_avoid lk R pid sbj T s" if "granted_avoiding lk R pid sbj T n This"
    using that assms(1) by (rule this_avoid_exists)
  show ?thesis
    using w hit miss avoid unfolding searched_def decides_def ss by (cases w) blast
qed

lemma ttu_searched_decides:
  assumes ss: "set ss = R pid (r, ob, tr)"
    and w: "searched (ttu_hit lk R pid sbj cr) (ttu_miss lk R pid sbj cr) (ttu_avoid lk R pid sbj cr T) tainted ss w"
  shows "decides lk R pid sbj T (r, ob, l) (TupleToUserset tr cr) w"
proof -
  have miss: "refuted lk R pid sbj (r, ob, l) (TupleToUserset tr cr)"
    if "\<And>s. s \<in> R pid (r, ob, tr) \<Longrightarrow> ttu_miss lk R pid sbj cr s"
    by (rule r_ttu) (auto simp: wildcard_tuple_def jump_defs dest!: that)
  have hit: "granted lk R pid sbj (r, ob, l) (TupleToUserset tr cr)"
    if "ttu_hit lk R pid sbj cr s" "s \<in> R pid (r, ob, tr)" for s
    using that by (rule ttu_hit_granted)
  have avoid: "\<exists>s \<in> R pid (r, ob, tr). ttu_avoid lk R pid sbj cr T s"
    if "granted_avoiding lk R pid sbj T (r, ob, l) (TupleToUserset tr cr)"
    using that by (rule ttu_avoid_exists)
  show ?thesis
    using w hit miss avoid unfolding searched_def decides_def ss by (cases w) blast
qed

lemma union_searched_decides:
  "searched (granted lk R pid sbj n) (refuted lk R pid sbj n) (granted_avoiding lk R pid sbj T n) tainted es w
     \<Longrightarrow> decides lk R pid sbj T n (UnionOf es) w"
  by (auto simp: searched_def decides_def intro: g_union r_union elim: avoiding_Union)

lemma difference_eval_ok:
  assumes inner: "\<And>e. triple I (inner e) (decides lk R pid sbj T n e)"
  shows "triple I (difference_eval inner b s) (decides lk R pid sbj T n (Difference b s))"
  unfolding difference_eval_def
proof (rule triple_bind [OF inner])
  fix w assume w: "decides lk R pid sbj T n b w"
  obtain vb tb where vt: "w = (vb, tb)" by fastforce
  let ?D = "decides lk R pid sbj T n (Difference b s)"
  have deny: "?D (False, tb)" if "\<not> vb"
    using that w vt by (auto simp: decides_def intro: r_difference_base elim: avoiding_Difference)
  have subtract: "triple I (case u of (vs, ts) \<Rightarrow> if ts then st_fail IndeterminateExclusion
           else st_ret (\<not> vs, tb)) ?D" if vb "decides lk R pid sbj T n s u" for u
  proof -
    obtain vs ts where u: "u = (vs, ts)" by fastforce
    have "?D (\<not> vs, tb)" if "\<not> ts"
      using that \<open>vb\<close> \<open>decides lk R pid sbj T n s u\<close> w vt u
            granted_refuted_exclusive(1) [of lk R pid sbj n s]
      by (auto simp: decides_def intro: g_difference r_difference_subtract elim!: avoiding_Difference)
    then show ?thesis using u by (auto intro!: triple_ret simp del: st_simps)
  qed
  have "triple I (if \<not> vb then st_ret (False, tb)
      else st_bind (inner s) (\<lambda>(vs, ts). if ts then st_fail IndeterminateExclusion
        else st_ret (\<not> vs, tb))) ?D"
  proof (cases vb)
    case True
    from triple_bind [OF inner subtract [OF True]] True show ?thesis by (simp del: st_simps)
  next
    case False
    with deny show ?thesis by (auto intro: triple_ret simp del: st_simps)
  qed
  then show "triple I (case w of (base_granted, base_tainted) \<Rightarrow>
      if \<not> base_granted then st_ret (False, base_tainted)
      else st_bind (inner s) (\<lambda>(subtract_granted, subtract_tainted).
        if subtract_tainted then st_fail IndeterminateExclusion
        else st_ret (\<not> subtract_granted, base_tainted))) ?D"
    by (simp only: vt prod.case)
qed


section \<open>Interface of a store\<close>

text \<open>
  What the evaluator relies on: \<open>R\<close> is the set of subjects stored under each relation, \<open>sinv\<close> the
  states of the store that hold it, \<open>known\<close> the subjects whose tuples the store can tell apart. Each
  read keeps the invariant and, when it succeeds, returns exactly what \<open>R\<close> says.
\<close>

locale zanzibar_reads =
  fixes ops :: "'s store_ops" and sinv :: "'s \<Rightarrow> bool" and R :: tuples and known :: "did \<Rightarrow> bool"
  assumes direct_exact: "known d \<Longrightarrow>
      triple sinv (check_permission_direct_op ops pid r ob l d) (\<lambda>b. b \<longleftrightarrow> direct_grant R pid d (r, ob, l))"
    and subjects_exact:
      "triple sinv (get_relation_subjects_op ops pid r ob l) (\<lambda>ss. set ss = R pid (r, ob, l))"
    and targets_exact:
      "triple sinv (get_relation_targets_op ops pid r ob l)
         (\<lambda>ts. set ts = {t. \<exists>l'. EntitySet (ref_resource t) (ref_object_id t) l' \<in> R pid (r, ob, l)})"
begin

lemma this_eval_ok:
  assumes "known sbj" and call: "call_ok (eval_inv sinv lk R) lk R pid sbj call"
  shows "triple (eval_inv sinv lk R) (this_eval \<lparr>eng_ops = ops, eng_lookup = lk\<rparr> pid sbj call n T)
           (decides lk R pid sbj T n This)"
proof -
  obtain r ob l where n: "n = (r, ob, l)" by (cases n)
  let ?I = "eval_inv sinv lk R" and ?D = "decides lk R pid sbj T n This"
  have yes: "triple ?I (st_ret (True, False)) ?D" if "direct_grant R pid sbj n"
    using that by (intro triple_ret) (auto simp: decides_def intro: g_direct)
  have no: "triple ?I (st_bind (on_backend (get_relation_subjects_op ops pid r ob l))
              (this_loop lk pid sbj call T False)) ?D" if "\<not> direct_grant R pid sbj n"
    by (rule triple_bind [OF triple_backend [OF subjects_exact]])
       (rule triple_weaken [OF this_loop_ok [OF triple_charge call]],
        rule this_searched_decides [OF that], simp_all add: n)
  show ?thesis
    unfolding this_eval_def n prod.case engine.simps
    by (rule triple_bind [OF triple_backend [OF direct_exact [OF assms(1)]]])
       (use yes no n in \<open>auto simp del: st_simps\<close>)
qed

lemma computed_eval_ok:
  assumes call: "call_ok (eval_inv sinv lk R) lk R pid sbj call"
  shows "triple (eval_inv sinv lk R) (computed_eval \<lparr>eng_ops = ops, eng_lookup = lk\<rparr> pid call n c T)
           (decides lk R pid sbj T n (ComputedUserset c))"
proof -
  obtain r ob l where n: "n = (r, ob, l)" by (cases n)
  let ?D = "decides lk R pid sbj T n (ComputedUserset c)"
  have loop: "triple (eval_inv sinv lk R) (st_ret (False, True)) ?D" if "(r, ob, c) \<in> T"
    using that n by (intro triple_ret) (auto simp: decides_def elim!: avoiding_Computed)
  have dec: "?D w" if "jump_decides lk R pid sbj T (r, ob, c) w" for w
    using that n
    by (auto simp: jump_decides_def decides_def jump_defs intro: g_computed r_computed elim!: avoiding_Computed)
  have jump: "triple (eval_inv sinv lk R) (st_bind (st_lift (get_expression lk pid r c))
          (\<lambda>e. st_bind (call (r, ob, c) e (insert (r, ob, c) T)) st_ret)) ?D"
    by (rule triple_jump [OF call], rule triple_ret, rule dec)
  show ?thesis
    using loop jump unfolding computed_eval_def n prod.case engine.simps Let_def st_bind_ret_right
    by (auto simp del: st_simps)
qed

lemma ttu_eval_ok:
  assumes call: "call_ok (eval_inv sinv lk R) lk R pid sbj call"
  shows "triple (eval_inv sinv lk R) (ttu_eval \<lparr>eng_ops = ops, eng_lookup = lk\<rparr> pid call n tr cr T)
           (decides lk R pid sbj T n (TupleToUserset tr cr))"
proof -
  obtain r ob l where n: "n = (r, ob, l)" by (cases n)
  let ?I = "eval_inv sinv lk R" and ?D = "decides lk R pid sbj T n (TupleToUserset tr cr)"
  have found: "?D w" if "target_found lk R pid sbj cr False ts (Inr w)"
    "set ts = {t. \<exists>l'. EntitySet (ref_resource t) (ref_object_id t) l' \<in> R pid (r, ob, tr)}" for ts w
    using that n by (auto simp: target_found_def decides_def jump_defs intro: g_ttu)
  have rest: "triple ?I (st_bind (on_backend (get_relation_subjects_op ops pid r ob tr))
       (ttu_subjects_loop lk pid cr call T t)) ?D" for t
    unfolding n
    by (rule triple_bind [OF triple_backend [OF subjects_exact]])
       (rule triple_weaken [OF ttu_subjects_loop_ok [OF triple_charge call]],
        rule ttu_searched_decides)
  show ?thesis
    unfolding ttu_eval_def n
      prod.case engine.simps
    by (rule triple_bind [OF triple_backend [OF targets_exact]],
        rule triple_bind [OF ttu_targets_loop_ok [OF triple_charge call]])
       (use found rest n in \<open>auto intro!: triple_ret split: sum.splits simp del: st_simps\<close>)
qed

lemma evaluate_expr_inner_ok:
  assumes known: "known sbj"
  shows "triple (eval_inv sinv lk R)
           (evaluate_expr_inner remaining \<lparr>eng_ops = ops, eng_lookup = lk\<rparr> pid sbj n e T)
           (decides lk R pid sbj T n e)"
proof (induction remaining arbitrary: n e T)
  case 0
  show ?case
    unfolding evaluate_expr_inner.simps
    by (rule triple_bind [OF triple_enter]) (rule triple_fail)
next
  case (Suc remaining)
  let ?I = "eval_inv sinv lk R" and ?D = "decides lk R pid sbj T n e"
  let ?inner = "evaluate_expr_inner remaining \<lparr>eng_ops = ops, eng_lookup = lk\<rparr> pid sbj"
  have call: "call_ok ?I lk R pid sbj (cached_with ?inner pid sbj)"
    by (rule cached_with_ok) (rule Suc.IH)
  have union: "triple ?I (union_loop (\<lambda>e. ?inner n e T) False es) (decides lk R pid sbj T n (UnionOf es))" for es
    by (rule triple_weaken [OF union_loop_ok [OF Suc.IH]]) (rule union_searched_decides)
  have inter: "triple ?I (intersection_loop (\<lambda>e. ?inner n e T) False es)
                 (decides lk R pid sbj T n (IntersectionOf es))" for es
    by (rule triple_weaken [OF intersection_loop_ok [OF Suc.IH]])
       (auto simp: decides_def intro: g_intersection r_intersection elim!: avoiding_Intersection)
  show ?case
    unfolding evaluate_expr_inner.simps Let_def
    by (rule triple_bind [OF triple_enter], cases e)
       (simp_all only: relation_expression.case this_eval_ok [OF known call] computed_eval_ok [OF call]
          ttu_eval_ok [OF call] union inter difference_eval_ok [OF Suc.IH])
qed

lemma check_with_cache_ok:
  assumes known: "known sbj"
  shows "triple (eval_inv sinv lk R)
           (check_with_cache \<lparr>eng_ops = ops, eng_lookup = lk\<rparr> pid r ob l sbj)
           (\<lambda>b. b \<longleftrightarrow> permitted lk R pid sbj (r, ob, l))"
proof -
  let ?n = "(r, ob, l)" and ?I = "eval_inv sinv lk R"
  have dec: "v \<longleftrightarrow> permitted lk R pid sbj ?n"
    if "decides lk R pid sbj {?n} ?n e (v, t)" "get_expression lk pid r l = Inr e" for e v t
  proof -
    have "\<not> granted lk R pid sbj ?n e" if "\<not> granted_avoiding lk R pid sbj {?n} ?n e"
      using that granted_avoiding_empty(1) [of lk R pid sbj ?n e] avoiding_self [of lk R pid sbj "{}" ?n e]
        \<open>get_expression lk pid r l = Inr e\<close> by auto
    with that show ?thesis by (auto simp: decides_def jump_defs)
  qed
  have call: "call_ok ?I lk R pid sbj (evaluate_expr_cached \<lparr>eng_ops = ops, eng_lookup = lk\<rparr> pid sbj)"
    unfolding evaluate_expr_cached_def by (rule cached_with_ok) (rule evaluate_expr_inner_ok [OF known])
  show ?thesis
    unfolding check_with_cache_def engine.simps Let_def
  proof (rule triple_bind)
    show "triple ?I (st_lift (get_expression lk pid r l)) (\<lambda>e. get_expression lk pid r l = Inr e)"
      by (rule triple_lift)
  next
    fix e assume e: "get_expression lk pid r l = Inr e"
    then have "triple ?I (evaluate_expr_cached \<lparr>eng_ops = ops, eng_lookup = lk\<rparr> pid sbj ?n e {?n})
                 (decides lk R pid sbj {?n} ?n e)"
      using call unfolding call_ok_def by (simp add: node_expression_def)
    then show "triple ?I (st_bind (evaluate_expr_cached \<lparr>eng_ops = ops, eng_lookup = lk\<rparr> pid sbj ?n e {?n})
                 (\<lambda>(granted, _). st_ret granted)) (\<lambda>b. b \<longleftrightarrow> permitted lk R pid sbj ?n)"
      by (rule triple_bind) (use dec e in \<open>auto intro!: triple_ret simp del: st_simps\<close>)
  qed
qed

lemma check_ok:
  assumes "known sbj" and "sinv s"
    and run: "check \<lparr>eng_ops = ops, eng_lookup = lk\<rparr> pid r ob l sbj s = (res, s')"
  shows "sinv s' \<and> (\<forall>b. res = Inr b \<longrightarrow> (b \<longleftrightarrow> permitted lk R pid sbj (r, ob, l)))"
proof -
  obtain c where c: "check_with_cache \<lparr>eng_ops = ops, eng_lookup = lk\<rparr> pid r ob l sbj (cache_new s) = (res, c)"
    and s': "s' = backend c"
    using run by (auto simp: check_def check_with_cache_def split: prod.splits)
  have "eval_inv sinv lk R (cache_new s)" using assms(2) by simp
  from tripleE [OF check_with_cache_ok [OF assms(1)] this c] s' show ?thesis
    by (simp add: eval_inv_def)
qed

lemma check_many_loop_ok:
  assumes "eval_inv sinv lk R c"
    and "check_many_loop \<lparr>eng_ops = ops, eng_lookup = lk\<rparr> reqs c = (rs, c')"
    and "\<forall>q \<in> set reqs. known (req_subject q)"
  shows "eval_inv sinv lk R c' \<and>
    list_all2 (\<lambda>q res. \<forall>b. res = Inr b \<longrightarrow>
      (b \<longleftrightarrow> permitted lk R (req_policy_id q) (req_subject q)
                (req_resource q, req_object_id q, req_relation q))) reqs rs"
  using assms
proof (induction reqs arbitrary: c rs)
  case (Cons q reqs)
  obtain res c1 where q: "check_with_cache \<lparr>eng_ops = ops, eng_lookup = lk\<rparr> (req_policy_id q)
      (req_resource q) (req_object_id q) (req_relation q) (req_subject q) c = (res, c1)" by fastforce
  obtain rs' where rest: "check_many_loop \<lparr>eng_ops = ops, eng_lookup = lk\<rparr> reqs c1 = (rs', c')"
    and rs: "rs = res # rs'"
    using Cons.prems(2) q by (auto split: prod.splits)
  from Cons.prems(3) have "known (req_subject q)" by simp
  from tripleE [OF check_with_cache_ok [OF this] Cons.prems(1) q]
  have "eval_inv sinv lk R c1 \<and> (\<forall>b. res = Inr b \<longrightarrow>
      (b \<longleftrightarrow> permitted lk R (req_policy_id q) (req_subject q)
                (req_resource q, req_object_id q, req_relation q)))"
    .
  with Cons.IH [OF _ rest] Cons.prems(3) rs show ?case by simp
qed auto

end

end
