(* ===== verification/Explain.thy ===== *)
theory Explain
  imports Permission_Correctness
begin

text \<open>
  \<open>PermissionEngine::explain\<close> (\<open>engine/mod.rs\<close>) and the evaluator behind it (\<open>engine/trace.rs\<close>), which
  records a trace of steps. It is a second implementation of the same semantics: it recurses into itself
  on \<open>This\<close> and \<open>ComputedUserset\<close> and into the evaluator of \<open>Permission_Engine\<close> elsewhere, and it drops
  the taint. It is shown to give the answer of the specification as well, hence the answer of \<open>check\<close>.
\<close>

section \<open>Trace\<close>

datatype step_result = Granted | Denied | Skipped | Continuing

fun step_result_to_string :: "step_result \<Rightarrow> string" where
  "step_result_to_string Granted = ''GRANTED''"
| "step_result_to_string Denied = ''DENIED''"
| "step_result_to_string Skipped = ''SKIPPED''"
| "step_result_to_string Continuing = ''...''"

record evaluation_step =
  expression_type :: string
  step_resource :: string
  step_object_id :: string
  step_relation :: string
  step_outcome :: step_result
  step_details :: "string option"

record 's traced =
  tr_cache :: "'s check_cache"
  tr_steps :: "evaluation_step list"

type_synonym ('s, 'a) texec = "('s traced, zerror, 'a) stm"

definition mk_step ::
  "string \<Rightarrow> node_id \<Rightarrow> step_result \<Rightarrow> string option \<Rightarrow> evaluation_step" where
  "mk_step ty n res details = \<lparr>expression_type = ty, step_resource = fst n, step_object_id = fst (snd n),
     step_relation = snd (snd n), step_outcome = res, step_details = details\<rparr>"

definition add_step :: "evaluation_step \<Rightarrow> ('s, unit) texec" where
  "add_step step = st_modify (\<lambda>t. t\<lparr>tr_steps := tr_steps t @ [step]\<rparr>)"

text \<open>An evaluation that only uses the shared cache.\<close>

definition on_cache :: "('s check_cache, zerror, 'a) stm \<Rightarrow> ('s, 'a) texec" where
  "on_cache m t = (case m (tr_cache t) of (r, c) \<Rightarrow> (r, t\<lparr>tr_cache := c\<rparr>))"

definition granted_or_denied :: "bool \<Rightarrow> step_result" where
  "granted_or_denied b = (if b then Granted else Denied)"

definition node_text :: "node_id \<Rightarrow> string" where
  "node_text n = fst n @ '':'' @ fst (snd n) @ ''#'' @ snd (snd n)"


section \<open>Evaluation with a trace\<close>

fun trace_this_loop ::
  "lookup_table \<Rightarrow> string \<Rightarrow> did \<Rightarrow> (node_id \<Rightarrow> relation_expression \<Rightarrow> node_trail \<Rightarrow> ('s, bool) texec) \<Rightarrow>
     node_trail \<Rightarrow> subject list \<Rightarrow> ('s, bool) texec" where
  "trace_this_loop lk policy_id subject rec trail [] = st_ret False"
| "trace_this_loop lk policy_id subject rec trail (target # rest) =
     st_bind (on_cache charge) (\<lambda>_.
       case target of
         EntitySet resource object_id relation \<Rightarrow>
           if relation = [] then
             (if is_actor_resource lk policy_id resource \<and> object_id = as_str subject
              then st_bind (add_step (mk_step ''Actor'' (resource, object_id, relation) Granted
                     (Some ''Actor object matches the requested identity''))) (\<lambda>_. st_ret True)
              else trace_this_loop lk policy_id subject rec trail rest)
           else
             let node_id = (resource, object_id, relation) in
             if node_id \<in> trail then trace_this_loop lk policy_id subject rec trail rest
             else
               st_bind (st_lift (get_expression lk policy_id resource relation)) (\<lambda>expression.
               st_bind (rec node_id expression (insert node_id trail)) (\<lambda>granted.
                 if granted then st_ret True
                 else trace_this_loop lk policy_id subject rec trail rest))
       | _ \<Rightarrow> trace_this_loop lk policy_id subject rec trail rest)"

definition trace_this ::
  "'s engine \<Rightarrow> string \<Rightarrow> did \<Rightarrow> (node_id \<Rightarrow> relation_expression \<Rightarrow> node_trail \<Rightarrow> ('s, bool) texec) \<Rightarrow>
     node_id \<Rightarrow> node_trail \<Rightarrow> ('s, bool) texec" where
  "trace_this eng policy_id subject rec node trail =
     (case node of (resource, object_id, relation) \<Rightarrow>
       st_bind (on_cache (on_backend (check_permission_direct_op (eng_ops eng)
                  policy_id resource object_id relation subject))) (\<lambda>result.
       st_bind (add_step (mk_step ''This (direct lookup)'' node (granted_or_denied result)
                  (Some (''Direct tuple check for subject '' @ as_str subject)))) (\<lambda>_.
       if result then st_ret True
       else
         st_bind (on_cache (on_backend (get_relation_subjects_op (eng_ops eng)
                    policy_id resource object_id relation))) (\<lambda>targets.
         trace_this_loop (eng_lookup eng) policy_id subject rec trail targets))))"

definition trace_computed ::
  "'s engine \<Rightarrow> string \<Rightarrow> (node_id \<Rightarrow> relation_expression \<Rightarrow> node_trail \<Rightarrow> ('s, bool) texec) \<Rightarrow>
     node_id \<Rightarrow> string \<Rightarrow> node_trail \<Rightarrow> ('s, bool) texec" where
  "trace_computed eng policy_id rec node computed_rel trail =
     (case node of (resource, object_id, relation) \<Rightarrow>
       let node_id = (resource, object_id, computed_rel) in
       if node_id \<in> trail then
         st_bind (add_step (mk_step ''ComputedUserset'' node_id Skipped
           (Some ''Cycle detected, returning false''))) (\<lambda>_. st_ret False)
       else
         st_bind (add_step (mk_step ''ComputedUserset'' node_id Continuing
           (Some (''Checking relation '' @ quote computed_rel @ '' on same object'')))) (\<lambda>_.
         st_bind (st_lift (get_expression (eng_lookup eng) policy_id resource computed_rel)) (\<lambda>computed_expr.
         st_bind (rec node_id computed_expr (insert node_id trail)) (\<lambda>result.
         st_bind (add_step (mk_step ''ComputedUserset (result)'' node_id (granted_or_denied result) None)) (\<lambda>_.
         st_ret result)))))"

text \<open>\<open>call\<close> is \<open>evaluate_expr_cached\<close>; its taint is dropped.\<close>

fun trace_ttu_targets ::
  "lookup_table \<Rightarrow> string \<Rightarrow> string \<Rightarrow> 's node_eval \<Rightarrow> node_trail \<Rightarrow> object_ref list \<Rightarrow> ('s, bool) texec" where
  "trace_ttu_targets lk policy_id computed_relation call trail [] = st_ret False"
| "trace_ttu_targets lk policy_id computed_relation call trail (target # rest) =
     st_bind (on_cache charge) (\<lambda>_.
       let node_id = (ref_resource target, ref_object_id target, computed_relation) in
       if node_id \<in> trail
       then st_bind (add_step (mk_step ''TTU target'' node_id Skipped (Some ''Cycle detected''))) (\<lambda>_.
              trace_ttu_targets lk policy_id computed_relation call trail rest)
       else
         st_bind (st_lift (get_expression lk policy_id (ref_resource target) computed_relation))
           (\<lambda>target_expr.
         st_bind (on_cache (call node_id target_expr (insert node_id trail))) (\<lambda>w.
           if fst w
           then st_bind (add_step (mk_step ''TTU target match'' node_id Granted
                  (Some (''Found permission via '' @ node_text node_id)))) (\<lambda>_. st_ret True)
           else trace_ttu_targets lk policy_id computed_relation call trail rest)))"

fun trace_ttu_subjects ::
  "lookup_table \<Rightarrow> string \<Rightarrow> node_id \<Rightarrow> string \<Rightarrow> 's node_eval \<Rightarrow> node_trail \<Rightarrow> subject list \<Rightarrow> ('s, bool) texec" where
  "trace_ttu_subjects lk policy_id tuple_node computed_relation call trail [] = st_ret False"
| "trace_ttu_subjects lk policy_id tuple_node computed_relation call trail (subj # rest) =
     st_bind (on_cache charge) (\<lambda>_.
       case subj of
         EntitySet target_resource target_object_id _ \<Rightarrow>
           let node_id = (target_resource, target_object_id, computed_relation) in
           if node_id \<in> trail
           then trace_ttu_subjects lk policy_id tuple_node computed_relation call trail rest
           else
             st_bind (st_lift (get_expression lk policy_id target_resource computed_relation))
               (\<lambda>target_expr.
             st_bind (on_cache (call node_id target_expr (insert node_id trail))) (\<lambda>w.
               if fst w
               then st_bind (add_step (mk_step ''TTU EntitySet match'' node_id Granted
                      (Some (''Found permission via EntitySet '' @ node_text node_id)))) (\<lambda>_. st_ret True)
               else trace_ttu_subjects lk policy_id tuple_node computed_relation call trail rest))
       | Entity _ \<Rightarrow> trace_ttu_subjects lk policy_id tuple_node computed_relation call trail rest
       | _ \<Rightarrow>
           st_bind (add_step (mk_step ''TTU Wildcard'' tuple_node Granted
             (Some ''Wildcard on tuple relation grants access''))) (\<lambda>_. st_ret True))"

definition trace_ttu ::
  "'s engine \<Rightarrow> string \<Rightarrow> 's node_eval \<Rightarrow> node_id \<Rightarrow> string \<Rightarrow> string \<Rightarrow> node_trail \<Rightarrow> ('s, bool) texec" where
  "trace_ttu eng policy_id call node tuple_relation computed_relation trail =
     (case node of (resource, object_id, relation) \<Rightarrow>
       st_bind (add_step (mk_step ''TupleToUserset'' node Continuing
         (Some (''Following '' @ quote tuple_relation @ '' to check '' @ quote computed_relation)))) (\<lambda>_.
       st_bind (on_cache (on_backend (get_relation_targets_op (eng_ops eng)
                  policy_id resource object_id tuple_relation))) (\<lambda>targets.
       st_bind (trace_ttu_targets (eng_lookup eng) policy_id computed_relation call trail targets) (\<lambda>found.
       if found then st_ret True
       else
         st_bind (on_cache (on_backend (get_relation_subjects_op (eng_ops eng)
                    policy_id resource object_id tuple_relation))) (\<lambda>subjects.
         st_bind (trace_ttu_subjects (eng_lookup eng) policy_id (resource, object_id, tuple_relation)
                    computed_relation call trail subjects) (\<lambda>matched.
         if matched then st_ret True
         else
           st_bind (add_step (mk_step ''TupleToUserset (result)'' node Denied
             (Some ''No matching TTU path found''))) (\<lambda>_. st_ret False)))))))"

fun trace_union_loop ::
  "(relation_expression \<Rightarrow> 's eval) \<Rightarrow> node_id \<Rightarrow> nat \<Rightarrow> relation_expression list \<Rightarrow> ('s, bool) texec" where
  "trace_union_loop inner node i [] =
     st_bind (add_step (mk_step ''Union (result)'' node Denied (Some ''All branches failed''))) (\<lambda>_. st_ret False)"
| "trace_union_loop inner node i (expr # rest) =
     st_bind (on_cache (inner expr)) (\<lambda>w.
       if fst w
       then st_bind (add_step (mk_step (''Union branch '' @ show_nat (i + 1)) node Granted
              (Some ''Branch succeeded, short-circuiting''))) (\<lambda>_. st_ret True)
       else trace_union_loop inner node (i + 1) rest)"

definition trace_union ::
  "(relation_expression \<Rightarrow> 's eval) \<Rightarrow> node_id \<Rightarrow> relation_expression list \<Rightarrow> ('s, bool) texec" where
  "trace_union inner node exprs =
     st_bind (add_step (mk_step ''Union'' node Continuing
       (Some (''Evaluating '' @ show_nat (length exprs) @ '' branches (OR)'')))) (\<lambda>_.
     trace_union_loop inner node 0 exprs)"

fun trace_intersection_loop ::
  "(relation_expression \<Rightarrow> 's eval) \<Rightarrow> node_id \<Rightarrow> nat \<Rightarrow> relation_expression list \<Rightarrow> ('s, bool) texec" where
  "trace_intersection_loop inner node i [] =
     st_bind (add_step (mk_step ''Intersection (result)'' node Granted (Some ''All branches succeeded'')))
       (\<lambda>_. st_ret True)"
| "trace_intersection_loop inner node i (expr # rest) =
     st_bind (on_cache (inner expr)) (\<lambda>w.
       if \<not> fst w
       then st_bind (add_step (mk_step (''Intersection branch '' @ show_nat (i + 1)) node Denied
              (Some ''Branch failed, short-circuiting''))) (\<lambda>_. st_ret False)
       else trace_intersection_loop inner node (i + 1) rest)"

definition trace_intersection ::
  "(relation_expression \<Rightarrow> 's eval) \<Rightarrow> node_id \<Rightarrow> relation_expression list \<Rightarrow> ('s, bool) texec" where
  "trace_intersection inner node exprs =
     st_bind (add_step (mk_step ''Intersection'' node Continuing
       (Some (''Evaluating '' @ show_nat (length exprs) @ '' branches (AND)'')))) (\<lambda>_.
     trace_intersection_loop inner node 0 exprs)"

definition show_bool :: "bool \<Rightarrow> string" where
  "show_bool b = (if b then ''true'' else ''false'')"

definition trace_difference ::
  "(relation_expression \<Rightarrow> 's eval) \<Rightarrow> node_id \<Rightarrow> relation_expression \<Rightarrow> relation_expression \<Rightarrow>
     ('s, bool) texec" where
  "trace_difference inner node base subtract =
     st_bind (add_step (mk_step ''Difference'' node Continuing (Some ''Evaluating base AND NOT subtract''))) (\<lambda>_.
     st_bind (on_cache (inner base)) (\<lambda>wb.
       if \<not> fst wb
       then st_bind (add_step (mk_step ''Difference (base)'' node Denied (Some ''Base expression failed'')))
              (\<lambda>_. st_ret False)
       else
         st_bind (on_cache (inner subtract)) (\<lambda>ws.
         if snd ws then st_fail IndeterminateExclusion
         else
           let final_result = \<not> fst ws in
           st_bind (add_step (mk_step ''Difference (result)'' node (granted_or_denied final_result)
             (Some (''Base=true, Subtract='' @ show_bool (fst ws) @ '', Result='' @ show_bool final_result))))
             (\<lambda>_. st_ret final_result))))"

primrec evaluate_expr_with_trace ::
  "nat \<Rightarrow> 's engine \<Rightarrow> string \<Rightarrow> did \<Rightarrow> node_id \<Rightarrow> relation_expression \<Rightarrow> node_trail \<Rightarrow> ('s, bool) texec" where
  "evaluate_expr_with_trace 0 eng policy_id subject node expression trail =
     st_bind (on_cache (enter 0)) (\<lambda>_. st_fail (EvaluationLimitExceeded ''depth''))"
| "evaluate_expr_with_trace (Suc remaining) eng policy_id subject node expression trail =
     st_bind (on_cache (enter (Suc remaining))) (\<lambda>_.
       let rec = evaluate_expr_with_trace remaining eng policy_id subject;
           call = cached_with (evaluate_expr_inner remaining eng policy_id subject) policy_id subject;
           inner = (\<lambda>expr. evaluate_expr_inner remaining eng policy_id subject node expr trail)
       in case expression of
            This \<Rightarrow> trace_this eng policy_id subject rec node trail
          | ComputedUserset computed_rel \<Rightarrow> trace_computed eng policy_id rec node computed_rel trail
          | TupleToUserset tuple_relation computed_relation \<Rightarrow>
              trace_ttu eng policy_id call node tuple_relation computed_relation trail
          | UnionOf exprs \<Rightarrow> trace_union inner node exprs
          | IntersectionOf exprs \<Rightarrow> trace_intersection inner node exprs
          | Difference base subtract \<Rightarrow> trace_difference inner node base subtract)"

lemma evaluate_expr_with_trace_numeral:
  "evaluate_expr_with_trace (numeral k) eng policy_id subject node expression trail =
     st_bind (on_cache (enter (numeral k))) (\<lambda>_.
       let rec = evaluate_expr_with_trace (pred_numeral k) eng policy_id subject;
           call = cached_with (evaluate_expr_inner (pred_numeral k) eng policy_id subject) policy_id subject;
           inner = (\<lambda>expr. evaluate_expr_inner (pred_numeral k) eng policy_id subject node expr trail)
       in case expression of
            This \<Rightarrow> trace_this eng policy_id subject rec node trail
          | ComputedUserset computed_rel \<Rightarrow> trace_computed eng policy_id rec node computed_rel trail
          | TupleToUserset tuple_relation computed_relation \<Rightarrow>
              trace_ttu eng policy_id call node tuple_relation computed_relation trail
          | UnionOf exprs \<Rightarrow> trace_union inner node exprs
          | IntersectionOf exprs \<Rightarrow> trace_intersection inner node exprs
          | Difference base subtract \<Rightarrow> trace_difference inner node base subtract)"
  by (simp only: numeral_eq_Suc evaluate_expr_with_trace.simps)

record permission_explanation =
  expl_granted :: bool
  expl_resource :: string
  expl_object_id :: string
  expl_relation :: string
  expl_subject :: string
  expl_trace :: "evaluation_step list"

definition explain ::
  "'s engine \<Rightarrow> string \<Rightarrow> string \<Rightarrow> string \<Rightarrow> string \<Rightarrow> did \<Rightarrow> ('s, zerror, permission_explanation) stm" where
  "explain eng policy_id resource object_id relation subject s =
     (case get_expression (eng_lookup eng) policy_id resource relation of
        Inl e \<Rightarrow> (Inl e, s)
      | Inr expression \<Rightarrow>
          let node_id = (resource, object_id, relation) in
          (case evaluate_expr_with_trace MAX_EVALUATION_DEPTH eng policy_id subject node_id expression {node_id}
                  \<lparr>tr_cache = cache_new s, tr_steps = []\<rparr> of
             (Inl e, t) \<Rightarrow> (Inl e, backend (tr_cache t))
           | (Inr answer, t) \<Rightarrow>
               (Inr \<lparr>expl_granted = answer, expl_resource = resource, expl_object_id = object_id,
                     expl_relation = relation, expl_subject = as_str subject, expl_trace = tr_steps t\<rparr>,
                backend (tr_cache t))))"


section \<open>The explained answer is the answer\<close>

definition verdict ::
  "lookup_table \<Rightarrow> tuples \<Rightarrow> string \<Rightarrow> did \<Rightarrow> node_trail \<Rightarrow> node_id \<Rightarrow> relation_expression \<Rightarrow> bool \<Rightarrow> bool" where
  "verdict lk R pid sbj T n e b \<longleftrightarrow>
     (b \<longrightarrow> granted lk R pid sbj n e) \<and> (\<not> b \<longrightarrow> \<not> granted_avoiding lk R pid sbj T n e)"

lemma decides_verdict: "decides lk R pid sbj T n e w \<Longrightarrow> verdict lk R pid sbj T n e (fst w)"
  by (auto simp: decides_def verdict_def)

definition jump_verdict :: "lookup_table \<Rightarrow> tuples \<Rightarrow> string \<Rightarrow> did \<Rightarrow> node_trail \<Rightarrow> node_id \<Rightarrow> bool \<Rightarrow> bool" where
  "jump_verdict lk R pid sbj T m b \<longleftrightarrow>
     (b \<longrightarrow> permitted lk R pid sbj m) \<and> (\<not> b \<longrightarrow> \<not> jump_avoiding lk R pid sbj T m)"

lemma jump_verdictI:
  assumes "verdict lk R pid sbj (insert m T) m e b" and "node_expression lk pid m = Inr e"
  shows "jump_verdict lk R pid sbj T m b"
proof -
  have "granted_avoiding lk R pid sbj T m e \<Longrightarrow> granted_avoiding lk R pid sbj (insert m T) m e"
    using assms(2) avoiding_self by (simp add: node_expression_def)
  with assms show ?thesis
    by (auto simp: verdict_def jump_verdict_def permitted_def jump_avoiding_def)
qed

definition found :: "('a \<Rightarrow> bool) \<Rightarrow> ('a \<Rightarrow> bool) \<Rightarrow> 'a list \<Rightarrow> bool \<Rightarrow> bool" where
  "found hit avoid xs b \<longleftrightarrow> (b \<longrightarrow> (\<exists>x \<in> set xs. hit x)) \<and> (\<not> b \<longrightarrow> (\<forall>x \<in> set xs. \<not> avoid x))"

lemma found_True: "hit x \<Longrightarrow> found hit avoid (x # xs) True"
  by (simp add: found_def)

lemma found_Cons: "found hit avoid xs b \<Longrightarrow> \<not> avoid x \<Longrightarrow> found hit avoid (x # xs) b"
  by (auto simp: found_def)

abbreviation tinv :: "('s \<Rightarrow> bool) \<Rightarrow> lookup_table \<Rightarrow> tuples \<Rightarrow> 's traced \<Rightarrow> bool" where
  "tinv P lk R \<equiv> \<lambda>t. eval_inv P lk R (tr_cache t)"

lemma triple_on_cache:
  "triple (eval_inv P lk R) m Q \<Longrightarrow> triple (tinv P lk R) (on_cache m) Q"
  by (simp add: triple_def on_cache_def split: prod.splits)

lemma triple_add_step:
  "triple (tinv P lk R) (f ()) Q \<Longrightarrow> triple (tinv P lk R) (st_bind (add_step step) f) Q"
  by (rule triple_bind [where P = "\<lambda>_. True"]) (auto simp: triple_def add_step_def)

lemma triple_tcharge:
  "triple (tinv P lk R) (f ()) Q \<Longrightarrow> triple (tinv P lk R) (st_bind (on_cache charge) f) Q"
  by (rule triple_bind [OF triple_on_cache [OF triple_charge]]) simp

lemmas trace_rules = triple_tcharge triple_add_step triple_ret


text \<open>The loops, over an evaluator for the nodes they jump to.\<close>

definition rec_ok ::
  "('s traced \<Rightarrow> bool) \<Rightarrow> lookup_table \<Rightarrow> tuples \<Rightarrow> string \<Rightarrow> did \<Rightarrow>
     (node_id \<Rightarrow> relation_expression \<Rightarrow> node_trail \<Rightarrow> ('s, bool) texec) \<Rightarrow> bool" where
  "rec_ok I lk R pid sbj rec \<longleftrightarrow>
     (\<forall>m e T. node_expression lk pid m = Inr e \<longrightarrow> triple I (rec m e T) (verdict lk R pid sbj T m e))"

lemma triple_trace_jump:
  assumes "rec_ok I lk R pid sbj rec"
    and "\<And>b. jump_verdict lk R pid sbj T (r, ob, l) b \<Longrightarrow> triple I (k b) Q"
  shows "triple I (st_bind (st_lift (get_expression lk pid r l))
           (\<lambda>e. st_bind (rec (r, ob, l) e (insert (r, ob, l) T)) k)) Q"
proof (rule triple_bind)
  show "triple I (st_lift (get_expression lk pid r l)) (\<lambda>e. node_expression lk pid (r, ob, l) = Inr e)"
    by (rule triple_lift) (simp add: node_expression_def)
next
  fix e assume e: "node_expression lk pid (r, ob, l) = Inr e"
  let ?T = "insert (r, ob, l) T"
  from e have "triple I (rec (r, ob, l) e ?T) (verdict lk R pid sbj ?T (r, ob, l) e)"
    using assms(1) unfolding rec_ok_def by blast
  then show "triple I (st_bind (rec (r, ob, l) e ?T) k) Q"
    by (rule triple_bind) (use assms(2) e jump_verdictI in blast)
qed

lemma call_rec_ok:
  assumes "call_ok (eval_inv P lk R) lk R pid sbj call"
  shows "rec_ok (tinv P lk R) lk R pid sbj (\<lambda>m e T. st_bind (on_cache (call m e T)) (\<lambda>w. st_ret (fst w)))"
  unfolding rec_ok_def
proof (intro allI impI)
  fix m e T assume "node_expression lk pid m = Inr e"
  with assms have "triple (eval_inv P lk R) (call m e T) (decides lk R pid sbj T m e)"
    unfolding call_ok_def by blast
  from triple_on_cache [OF this]
  show "triple (tinv P lk R) (st_bind (on_cache (call m e T)) (\<lambda>w. st_ret (fst w))) (verdict lk R pid sbj T m e)"
    by (rule triple_bind) (intro triple_ret decides_verdict)
qed

lemma st_bind_assoc: "st_bind (st_bind m f) g = st_bind m (\<lambda>x. st_bind (f x) g)"
  by (auto simp: fun_eq_iff st_bind_def split: prod.splits sum.splits)

lemma triple_call_jump:
  assumes "call_ok (eval_inv P lk R) lk R pid sbj call"
    and "\<And>b. jump_verdict lk R pid sbj T (r, ob, l) b \<Longrightarrow> triple (tinv P lk R) (k b) Q"
  shows "triple (tinv P lk R) (st_bind (st_lift (get_expression lk pid r l))
           (\<lambda>e. st_bind (on_cache (call (r, ob, l) e (insert (r, ob, l) T))) (\<lambda>w. k (fst w)))) Q"
  using triple_trace_jump [OF call_rec_ok [OF assms(1)] assms(2)]
  by (simp only: st_bind_assoc st_bind_ret)

lemma trace_this_loop_ok:
  assumes rec: "rec_ok (tinv P lk R) lk R pid sbj rec"
  shows "triple (tinv P lk R) (trace_this_loop lk pid sbj rec T ss)
           (found (this_hit lk R pid sbj) (this_avoid lk R pid sbj T) ss)"
proof (induction ss)
  case Nil
  show ?case by (simp only: trace_this_loop.simps) (rule triple_ret, simp add: found_def)
next
  case (Cons s ss)
  have skip: "triple (tinv P lk R) (trace_this_loop lk pid sbj rec T ss)
      (found (this_hit lk R pid sbj) (this_avoid lk R pid sbj T) (x # ss))"
    if "\<not> this_avoid lk R pid sbj T x" for x
    by (rule triple_weaken [OF Cons.IH]) (use that in \<open>auto intro: found_Cons\<close>)
  have jump: "triple (tinv P lk R) (if b then st_ret True else trace_this_loop lk pid sbj rec T ss)
      (found (this_hit lk R pid sbj) (this_avoid lk R pid sbj T) (EntitySet r ob l # ss))"
    if "jump_verdict lk R pid sbj T (r, ob, l) b" "l \<noteq> []" for r ob l b
    using that skip by (cases b) (auto intro!: triple_ret found_True skip simp: jump_verdict_def simp del: st_simps)
  show ?case
    by (cases s) (auto intro!: trace_rules found_True skip triple_trace_jump [OF rec] jump
                       simp: Let_def jump_avoiding_def simp del: st_simps)
qed

lemma trace_ttu_targets_ok:
  assumes call: "call_ok (eval_inv P lk R) lk R pid sbj call"
  shows "triple (tinv P lk R) (trace_ttu_targets lk pid cr call T ts)
           (found (\<lambda>x. permitted lk R pid sbj (ref_resource x, ref_object_id x, cr)) (\<lambda>_. False) ts)"
proof (induction ts)
  case Nil
  show ?case by (simp only: trace_ttu_targets.simps) (rule triple_ret, simp add: found_def)
next
  case (Cons x ts)
  let ?n = "(ref_resource x, ref_object_id x, cr)"
  let ?Q = "found (\<lambda>x. permitted lk R pid sbj (ref_resource x, ref_object_id x, cr)) (\<lambda>_. False) (x # ts)"
  have skip: "triple (tinv P lk R) (trace_ttu_targets lk pid cr call T ts) ?Q"
    by (rule triple_weaken [OF Cons.IH]) (auto intro: found_Cons)
  have jump: "triple (tinv P lk R) (if b
        then st_bind (add_step (mk_step ''TTU target match'' ?n Granted
               (Some (''Found permission via '' @ node_text ?n)))) (\<lambda>_. st_ret True)
        else trace_ttu_targets lk pid cr call T ts) ?Q"
    if "jump_verdict lk R pid sbj T ?n b" for b
    using that skip by (cases b) (auto intro!: trace_rules found_True simp: jump_verdict_def simp del: st_simps)
  have "triple (tinv P lk R) (st_bind (st_lift (get_expression lk pid (ref_resource x) cr))
           (\<lambda>e. st_bind (on_cache (call ?n e (insert ?n T))) (\<lambda>w. if fst w
        then st_bind (add_step (mk_step ''TTU target match'' ?n Granted
               (Some (''Found permission via '' @ node_text ?n)))) (\<lambda>_. st_ret True)
        else trace_ttu_targets lk pid cr call T ts))) ?Q"
    by (rule triple_call_jump [OF call]) (rule jump)
  then show ?case
    by (auto intro!: triple_tcharge triple_add_step skip simp: Let_def simp del: st_simps)
qed

lemma trace_ttu_subjects_ok:
  assumes call: "call_ok (eval_inv P lk R) lk R pid sbj call"
  shows "triple (tinv P lk R) (trace_ttu_subjects lk pid tn cr call T ss)
           (found (ttu_hit lk R pid sbj cr) (ttu_avoid lk R pid sbj cr T) ss)"
proof (induction ss)
  case Nil
  show ?case by (simp only: trace_ttu_subjects.simps) (rule triple_ret, simp add: found_def)
next
  case (Cons s ss)
  have skip: "triple (tinv P lk R) (trace_ttu_subjects lk pid tn cr call T ss)
      (found (ttu_hit lk R pid sbj cr) (ttu_avoid lk R pid sbj cr T) (x # ss))"
    if "\<not> ttu_avoid lk R pid sbj cr T x" for x
    by (rule triple_weaken [OF Cons.IH]) (use that in \<open>auto intro: found_Cons\<close>)
  have jump: "triple (tinv P lk R) (if b
        then st_bind (add_step (mk_step ''TTU EntitySet match'' (r, ob, cr) Granted
               (Some (''Found permission via EntitySet '' @ node_text (r, ob, cr))))) (\<lambda>_. st_ret True)
        else trace_ttu_subjects lk pid tn cr call T ss)
      (found (ttu_hit lk R pid sbj cr) (ttu_avoid lk R pid sbj cr T) (EntitySet r ob l # ss))"
    if "jump_verdict lk R pid sbj T (r, ob, cr) b" for r ob l b
    using that skip by (cases b) (auto intro!: trace_rules found_True skip simp: jump_verdict_def simp del: st_simps)
  show ?case
  proof (cases s)
    case (EntitySet r ob l)
    have "triple (tinv P lk R) (st_bind (st_lift (get_expression lk pid r cr))
             (\<lambda>e. st_bind (on_cache (call (r, ob, cr) e (insert (r, ob, cr) T))) (\<lambda>w. if fst w
        then st_bind (add_step (mk_step ''TTU EntitySet match'' (r, ob, cr) Granted
               (Some (''Found permission via EntitySet '' @ node_text (r, ob, cr))))) (\<lambda>_. st_ret True)
        else trace_ttu_subjects lk pid tn cr call T ss)))
      (found (ttu_hit lk R pid sbj cr) (ttu_avoid lk R pid sbj cr T) (EntitySet r ob l # ss))"
      by (rule triple_call_jump [OF call]) (rule jump)
    then show ?thesis
      using EntitySet by (auto intro!: triple_tcharge skip simp: Let_def jump_avoiding_def simp del: st_simps)
  qed (auto intro!: trace_rules found_True skip simp del: st_simps)
qed


lemma trace_union_loop_ok:
  assumes "\<And>e. triple (eval_inv P lk R) (inner e) (decides lk R pid sbj T n e)"
  shows "triple (tinv P lk R) (trace_union_loop inner n i es)
           (found (granted lk R pid sbj n) (granted_avoiding lk R pid sbj T n) es)"
proof (induction es arbitrary: i)
  case Nil
  show ?case by (simp only: trace_union_loop.simps) (intro trace_rules, simp add: found_def)
next
  case (Cons e es)
  have skip: "triple (tinv P lk R) (trace_union_loop inner n (i + 1) es)
      (found (granted lk R pid sbj n) (granted_avoiding lk R pid sbj T n) (e # es))"
    if "\<not> granted_avoiding lk R pid sbj T n e"
    by (rule triple_weaken [OF Cons.IH]) (use that in \<open>auto intro: found_Cons\<close>)
  show ?case
    unfolding trace_union_loop.simps
    by (rule triple_bind [OF triple_on_cache [OF assms]])
       (use skip in \<open>auto intro!: trace_rules found_True simp: decides_def simp del: st_simps\<close>)
qed

lemma trace_intersection_loop_ok:
  assumes "\<And>e. triple (eval_inv P lk R) (inner e) (decides lk R pid sbj T n e)"
  shows "triple (tinv P lk R) (trace_intersection_loop inner n i es)
           (\<lambda>b. found (\<lambda>e. \<not> granted_avoiding lk R pid sbj T n e) (\<lambda>e. \<not> granted lk R pid sbj n e) es (\<not> b))"
proof (induction es arbitrary: i)
  case Nil
  show ?case by (simp only: trace_intersection_loop.simps) (intro trace_rules, simp add: found_def)
next
  case (Cons e es)
  have skip: "triple (tinv P lk R) (trace_intersection_loop inner n (i + 1) es)
      (\<lambda>b. found (\<lambda>e. \<not> granted_avoiding lk R pid sbj T n e) (\<lambda>e. \<not> granted lk R pid sbj n e) (e # es) (\<not> b))"
    if "granted lk R pid sbj n e"
    by (rule triple_weaken [OF Cons.IH]) (use that in \<open>auto intro: found_Cons\<close>)
  show ?case
    unfolding trace_intersection_loop.simps
    by (rule triple_bind [OF triple_on_cache [OF assms]])
       (use skip in \<open>auto intro!: trace_rules simp: found_True decides_def simp del: st_simps\<close>)
qed

lemma trace_difference_ok:
  assumes inner: "\<And>e. triple (eval_inv P lk R) (inner e) (decides lk R pid sbj T n e)"
  shows "triple (tinv P lk R) (trace_difference inner n b s) (verdict lk R pid sbj T n (Difference b s))"
proof -
  let ?V = "verdict lk R pid sbj T n (Difference b s)"
  have deny: "?V False" if "decides lk R pid sbj T n b wb" "\<not> fst wb" for wb
    using that by (auto simp: decides_def verdict_def elim: avoiding_Difference)
  have final: "?V (\<not> fst ws)"
    if "decides lk R pid sbj T n b wb" "fst wb" "decides lk R pid sbj T n s ws" "\<not> snd ws" for wb ws
    using that granted_refuted_exclusive(1) [of lk R pid sbj n s]
    by (auto simp: decides_def verdict_def intro: g_difference elim!: avoiding_Difference)
  have subtract: "triple (tinv P lk R) (st_bind (on_cache (inner s)) (\<lambda>ws.
         if snd ws then st_fail IndeterminateExclusion
         else
           let final_result = \<not> fst ws in
           st_bind (add_step (mk_step ''Difference (result)'' n (granted_or_denied final_result)
             (Some (''Base=true, Subtract='' @ show_bool (fst ws) @ '', Result='' @ show_bool final_result))))
             (\<lambda>_. st_ret final_result))) ?V" if "decides lk R pid sbj T n b wb" "fst wb" for wb
    by (rule triple_bind [OF triple_on_cache [OF inner]])
       (use final [OF that] in \<open>auto intro!: trace_rules triple_fail simp: Let_def simp del: st_simps\<close>)
  show ?thesis
    unfolding trace_difference_def
    by (rule triple_add_step, rule triple_bind [OF triple_on_cache [OF inner]])
       (use deny subtract in \<open>auto intro!: trace_rules simp del: st_simps\<close>)
qed

context zanzibar_reads
begin

lemma trace_this_ok:
  assumes "known sbj" and rec: "rec_ok (tinv sinv lk R) lk R pid sbj rec"
  shows "triple (tinv sinv lk R) (trace_this \<lparr>eng_ops = ops, eng_lookup = lk\<rparr> pid sbj rec n T)
           (verdict lk R pid sbj T n This)"
proof -
  obtain r ob l where n: "n = (r, ob, l)" by (cases n)
  let ?V = "verdict lk R pid sbj T n This"
  have yes: "?V True" if "direct_grant R pid sbj n"
    using that by (auto simp: verdict_def intro: g_direct)
  have loop: "?V b" if "\<not> direct_grant R pid sbj n" "set ss = R pid n"
      "found (this_hit lk R pid sbj) (this_avoid lk R pid sbj T) ss b" for ss b
    using that this_hit_granted [of lk R pid sbj _ n] this_avoid_exists [OF _ that(1), of lk T]
    unfolding found_def verdict_def by blast
  have no: "triple (tinv sinv lk R) (st_bind (on_cache (on_backend (get_relation_subjects_op ops pid r ob l)))
              (trace_this_loop lk pid sbj rec T)) ?V" if "\<not> direct_grant R pid sbj n"
    by (rule triple_bind [OF triple_on_cache [OF triple_backend [OF subjects_exact]]])
       (rule triple_weaken [OF trace_this_loop_ok [OF rec]], rule loop [OF that], simp_all add: n)
  show ?thesis
    unfolding trace_this_def n prod.case engine.simps
    by (rule triple_bind [OF triple_on_cache [OF triple_backend [OF direct_exact [OF assms(1)]]]])
       (use yes no n in \<open>auto intro!: trace_rules simp del: st_simps\<close>)
qed

lemma trace_computed_ok:
  assumes rec: "rec_ok (tinv sinv lk R) lk R pid sbj rec"
  shows "triple (tinv sinv lk R) (trace_computed \<lparr>eng_ops = ops, eng_lookup = lk\<rparr> pid rec n c T)
           (verdict lk R pid sbj T n (ComputedUserset c))"
proof -
  obtain r ob l where n: "n = (r, ob, l)" by (cases n)
  let ?V = "verdict lk R pid sbj T n (ComputedUserset c)"
  have cycle: "?V False" if "(r, ob, c) \<in> T"
    using that n by (auto simp: verdict_def elim!: avoiding_Computed)
  have jump: "?V b" if "jump_verdict lk R pid sbj T (r, ob, c) b" for b
    using that n by (auto simp: jump_verdict_def verdict_def jump_defs intro: g_computed elim!: avoiding_Computed)
  have "triple (tinv sinv lk R) (st_bind (st_lift (get_expression lk pid r c)) (\<lambda>e.
          st_bind (rec (r, ob, c) e (insert (r, ob, c) T)) (\<lambda>result.
          st_bind (add_step (mk_step ''ComputedUserset (result)'' (r, ob, c) (granted_or_denied result) None))
            (\<lambda>_. st_ret result)))) ?V"
    by (rule triple_trace_jump [OF rec]) (intro trace_rules jump)
  then show ?thesis
    unfolding trace_computed_def n prod.case engine.simps Let_def
    using cycle n by (auto intro!: trace_rules simp del: st_simps)
qed

lemma trace_ttu_ok:
  assumes call: "call_ok (eval_inv sinv lk R) lk R pid sbj call"
  shows "triple (tinv sinv lk R) (trace_ttu \<lparr>eng_ops = ops, eng_lookup = lk\<rparr> pid call n tr cr T)
           (verdict lk R pid sbj T n (TupleToUserset tr cr))"
proof -
  obtain r ob l where n: "n = (r, ob, l)" by (cases n)
  let ?I = "tinv sinv lk R" and ?V = "verdict lk R pid sbj T n (TupleToUserset tr cr)"
  have target: "?V True" if "found (\<lambda>x. permitted lk R pid sbj (ref_resource x, ref_object_id x, cr)) (\<lambda>_. False) ts True"
    "set ts = {t. \<exists>l'. EntitySet (ref_resource t) (ref_object_id t) l' \<in> R pid (r, ob, tr)}" for ts
    using that n by (auto simp: found_def verdict_def jump_defs intro: g_ttu)
  have subj: "?V b" if "set ss = R pid (r, ob, tr)"
    "found (ttu_hit lk R pid sbj cr) (ttu_avoid lk R pid sbj cr T) ss b" for ss b
    using that ttu_hit_granted [of lk R pid sbj cr _ r ob tr l] ttu_avoid_exists [of lk R pid sbj T r ob l tr cr]
    unfolding found_def verdict_def n by blast
  have rest: "triple ?I (st_bind (on_cache (on_backend (get_relation_subjects_op ops pid r ob tr))) (\<lambda>ss.
      st_bind (trace_ttu_subjects lk pid (r, ob, tr) cr call T ss) (\<lambda>matched.
        if matched then st_ret True
        else st_bind (add_step (mk_step ''TupleToUserset (result)'' (r, ob, l) Denied
               (Some ''No matching TTU path found''))) (\<lambda>_. st_ret False)))) ?V"
    by (rule triple_bind [OF triple_on_cache [OF triple_backend [OF subjects_exact]]],
        rule triple_bind [OF trace_ttu_subjects_ok [OF call]])
       (use subj in \<open>auto intro!: trace_rules simp del: st_simps\<close>)
  show ?thesis
    unfolding trace_ttu_def n prod.case engine.simps
    by (rule triple_add_step,
        rule triple_bind [OF triple_on_cache [OF triple_backend [OF targets_exact]]],
        rule triple_bind [OF trace_ttu_targets_ok [OF call]])
       (use target rest n in \<open>auto intro!: triple_ret simp del: st_simps\<close>)
qed

lemma evaluate_expr_with_trace_ok:
  assumes known: "known sbj"
  shows "triple (tinv sinv lk R)
           (evaluate_expr_with_trace remaining \<lparr>eng_ops = ops, eng_lookup = lk\<rparr> pid sbj n e T)
           (verdict lk R pid sbj T n e)"
proof (induction remaining arbitrary: n e T)
  case 0
  show ?case
    unfolding evaluate_expr_with_trace.simps
    by (rule triple_bind [OF triple_on_cache [OF triple_enter]]) (rule triple_fail)
next
  case (Suc remaining)
  let ?I = "tinv sinv lk R"
  let ?inner = "evaluate_expr_inner remaining \<lparr>eng_ops = ops, eng_lookup = lk\<rparr> pid sbj"
  note inner = evaluate_expr_inner_ok [OF known, where remaining = remaining and lk = lk and pid = pid]
  have rec: "rec_ok ?I lk R pid sbj (evaluate_expr_with_trace remaining \<lparr>eng_ops = ops, eng_lookup = lk\<rparr> pid sbj)"
    unfolding rec_ok_def using Suc.IH by blast
  have call: "call_ok (eval_inv sinv lk R) lk R pid sbj (cached_with ?inner pid sbj)"
    by (rule cached_with_ok) (rule inner)
  have union: "triple ?I (trace_union (\<lambda>e. ?inner n e T) n es) (verdict lk R pid sbj T n (UnionOf es))" for es
    unfolding trace_union_def
    by (rule triple_add_step, rule triple_weaken [OF trace_union_loop_ok [OF inner]])
       (auto simp: found_def verdict_def intro: g_union elim: avoiding_Union)
  have inter: "triple ?I (trace_intersection (\<lambda>e. ?inner n e T) n es)
                 (verdict lk R pid sbj T n (IntersectionOf es))" for es
    unfolding trace_intersection_def
    by (rule triple_add_step, rule triple_weaken [OF trace_intersection_loop_ok [OF inner]])
       (auto simp: found_def verdict_def intro: g_intersection elim!: avoiding_Intersection)
  show ?case
    unfolding evaluate_expr_with_trace.simps Let_def
    by (rule triple_bind [OF triple_on_cache [OF triple_enter]], cases e)
       (simp_all only: relation_expression.case trace_this_ok [OF known rec] trace_computed_ok [OF rec]
          trace_ttu_ok [OF call] union inter trace_difference_ok [OF inner])
qed

lemma explain_ok:
  assumes "known sbj" and "sinv s"
    and run: "explain \<lparr>eng_ops = ops, eng_lookup = lk\<rparr> pid r ob l sbj s = (Inr x, s')"
  shows "sinv s' \<and> (expl_granted x \<longleftrightarrow> permitted lk R pid sbj (r, ob, l))"
proof -
  let ?n = "(r, ob, l)"
  obtain e where e: "get_expression lk pid r l = Inr e"
    using run by (auto simp: explain_def split: sum.splits)
  obtain b t where ev: "evaluate_expr_with_trace MAX_EVALUATION_DEPTH \<lparr>eng_ops = ops, eng_lookup = lk\<rparr> pid sbj
      ?n e {?n} \<lparr>tr_cache = cache_new s, tr_steps = []\<rparr> = (Inr b, t)"
    and x: "expl_granted x = b" and s': "s' = backend (tr_cache t)"
    using run e by (auto simp: explain_def Let_def split: sum.splits prod.splits)
  have "tinv sinv lk R \<lparr>tr_cache = cache_new s, tr_steps = []\<rparr>" using assms(2) by simp
  from tripleE [OF evaluate_expr_with_trace_ok [OF assms(1)] this ev]
  have "sinv s'" and "verdict lk R pid sbj {?n} ?n e b"
    using s' by (auto simp: eval_inv_def)
  moreover have "\<not> granted lk R pid sbj ?n e" if "\<not> granted_avoiding lk R pid sbj {?n} ?n e"
    using that granted_avoiding_empty(1) [of lk R pid sbj ?n e] avoiding_self [of lk R pid sbj "{}" ?n e] e by auto
  ultimately show ?thesis using x e by (auto simp: verdict_def jump_defs)
qed

end

end
