(* ===== verification/Evaluation_Limits.thy ===== *)
theory Evaluation_Limits
  imports Permission_Correctness
begin

text \<open>
  What an evaluation may cost and how it may fail: the step budget is never exceeded, also not over a
  whole batch, and an error is a limit, an indeterminate exclusion, a missing policy, resource or
  relation, or an error of the store. One structural argument over the evaluator carries both.
\<close>

definition safe :: "('s \<Rightarrow> bool) \<Rightarrow> ('e \<Rightarrow> bool) \<Rightarrow> ('s, 'e, 'a) stm \<Rightarrow> bool" where
  "safe I E m \<longleftrightarrow> (\<forall>s r s'. I s \<longrightarrow> m s = (r, s') \<longrightarrow> I s' \<and> (\<forall>e. r = Inl e \<longrightarrow> E e))"

lemma safeD: "safe I E m \<Longrightarrow> I s \<Longrightarrow> m s = (r, s') \<Longrightarrow> I s' \<and> (\<forall>e. r = Inl e \<longrightarrow> E e)"
  by (simp add: safe_def)

lemma safe_ret [intro]: "safe I E (st_ret x)"
  by (simp add: safe_def)

lemma safe_fail [intro]: "E e \<Longrightarrow> safe I E (st_fail e)"
  by (simp add: safe_def)

lemma safe_lift: "(\<And>e. m = Inl e \<Longrightarrow> E e) \<Longrightarrow> safe I E (st_lift m)"
  by (simp add: safe_def)

lemma safe_bind: "safe I E m \<Longrightarrow> (\<And>x. safe I E (f x)) \<Longrightarrow> safe I E (st_bind m f)"
proof (unfold safe_def, intro allI impI)
  fix s r s' assume safe: "\<forall>s r s'. I s \<longrightarrow> m s = (r, s') \<longrightarrow> I s' \<and> (\<forall>e. r = Inl e \<longrightarrow> E e)"
    and cont: "\<And>x. \<forall>s r s'. I s \<longrightarrow> f x s = (r, s') \<longrightarrow> I s' \<and> (\<forall>e. r = Inl e \<longrightarrow> E e)"
    and I: "I s" and run: "st_bind m f s = (r, s')"
  obtain r1 s1 where m: "m s = (r1, s1)" by fastforce
  from safe I m have "I s1 \<and> (\<forall>e. r1 = Inl e \<longrightarrow> E e)" by blast
  with cont run m show "I s' \<and> (\<forall>e. r = Inl e \<longrightarrow> E e)"
    by (cases r1) (auto simp: st_bind_def)
qed

text \<open>The errors of an evaluation over a store whose errors are \<open>S\<close>.\<close>

definition eval_error :: "lookup_table \<Rightarrow> (zerror \<Rightarrow> bool) \<Rightarrow> zerror \<Rightarrow> bool" where
  "eval_error lk S e \<longleftrightarrow> e = EvaluationLimitExceeded ''steps'' \<or> e = EvaluationLimitExceeded ''depth'' \<or>
     e = IndeterminateExclusion \<or> (\<exists>pid r l. get_expression lk pid r l = Inl e) \<or> S e"

definition within_budget :: "'s check_cache \<Rightarrow> bool" where
  "within_budget c \<longleftrightarrow> budget_steps c \<le> MAX_EVALUATION_STEPS"

abbreviation eval_safe :: "lookup_table \<Rightarrow> (zerror \<Rightarrow> bool) \<Rightarrow> ('s check_cache, zerror, 'a) stm \<Rightarrow> bool" where
  "eval_safe lk S \<equiv> safe within_budget (eval_error lk S)"

lemma safe_charge: "eval_safe lk S charge"
  by (auto simp: safe_def charge_def within_budget_def eval_error_def)

lemma safe_charge_bind: "eval_safe lk S (f ()) \<Longrightarrow> eval_safe lk S (st_bind charge f)"
  by (rule safe_bind [OF safe_charge]) (simp add: unit_eq)

lemma safe_enter: "eval_safe lk S (enter n)"
  unfolding enter_def
  by (rule safe_charge_bind) (auto intro!: safe_ret safe_fail simp: eval_error_def simp del: st_simps)

lemma safe_expression: "eval_safe lk S (st_lift (get_expression lk pid r l))"
  by (rule safe_lift) (auto simp: eval_error_def)

lemma safe_backend: "(\<And>s e s'. m s = (Inl e, s') \<Longrightarrow> S e) \<Longrightarrow> eval_safe lk S (on_backend m)"
  by (auto simp: safe_def on_backend_def within_budget_def eval_error_def split: prod.splits)

lemma safe_cache_set: "eval_safe lk S (cache_set k v)"
  by (auto simp: safe_def cache_set_def within_budget_def)

lemmas safe_rules = safe_charge_bind safe_bind [OF safe_expression] safe_ret

lemma this_loop_safe:
  assumes "\<And>m e T. eval_safe lk S (call m e T)"
  shows "eval_safe lk S (this_loop lk pid sbj call T tainted ss)"
proof (induction ss arbitrary: tainted)
  case (Cons s ss)
  then show ?case
    by (cases s) (auto intro!: safe_rules safe_bind [OF assms] simp: Let_def simp del: st_simps)
qed (auto simp del: st_simps)

lemma ttu_targets_loop_safe:
  assumes "\<And>m e T. eval_safe lk S (call m e T)"
  shows "eval_safe lk S (ttu_targets_loop lk pid cr call T tainted ts)"
proof (induction ts arbitrary: tainted)
  case (Cons t ts)
  then show ?case
    by (auto intro!: safe_rules safe_bind [OF assms] simp: Let_def simp del: st_simps)
qed (auto simp del: st_simps)

lemma ttu_subjects_loop_safe:
  assumes "\<And>m e T. eval_safe lk S (call m e T)"
  shows "eval_safe lk S (ttu_subjects_loop lk pid cr call T tainted ss)"
proof (induction ss arbitrary: tainted)
  case (Cons s ss)
  then show ?case
    by (cases s) (auto intro!: safe_rules safe_bind [OF assms] simp: Let_def simp del: st_simps)
qed (auto simp del: st_simps)

lemma union_loop_safe:
  assumes "\<And>e. eval_safe lk S (inner e)"
  shows "eval_safe lk S (union_loop inner tainted es)"
  by (induction es arbitrary: tainted) (auto intro!: safe_bind [OF assms] safe_ret simp del: st_simps)

lemma intersection_loop_safe:
  assumes "\<And>e. eval_safe lk S (inner e)"
  shows "eval_safe lk S (intersection_loop inner tainted es)"
  by (induction es arbitrary: tainted) (auto intro!: safe_bind [OF assms] safe_ret simp del: st_simps)

lemma difference_eval_safe:
  assumes "\<And>e. eval_safe lk S (inner e)"
  shows "eval_safe lk S (difference_eval inner b s)"
  unfolding difference_eval_def
  by (auto intro!: safe_bind [OF assms] safe_ret safe_fail simp: eval_error_def simp del: st_simps)

lemma cached_with_safe:
  assumes "\<And>m e T. eval_safe lk S (inner m e T)"
  shows "eval_safe lk S (cached_with inner pid sbj m e T)"
proof -
  have hit: "eval_safe lk S (st_bind charge (\<lambda>_. st_ret (v, False)))" for v
    by (intro safe_charge_bind safe_ret)
  have miss: "eval_safe lk S (st_bind (inner m e T) (\<lambda>(v, tainted).
      st_bind (if \<not> tainted then cache_set (pid, m, sbj) v else st_ret ()) (\<lambda>_. st_ret (v, tainted))))"
    by (rule safe_bind [OF assms]) (auto intro!: safe_bind safe_cache_set safe_ret simp del: st_simps)
  show ?thesis
    unfolding safe_def
  proof (intro allI impI)
    fix c r c' assume "within_budget c" "cached_with inner pid sbj m e T c = (r, c')"
    then show "within_budget c' \<and> (\<forall>e. r = Inl e \<longrightarrow> eval_error lk S e)"
      using safeD [OF hit, where s = c and r = r and s' = c'] safeD [OF miss, where s = c and r = r and s' = c']
      unfolding cached_with_def Let_def by (auto simp del: st_simps split: option.splits)
  qed
qed

text \<open>Store errors: every read of the three operations fails only with \<open>S\<close>.\<close>

definition store_errors :: "'s store_ops \<Rightarrow> (zerror \<Rightarrow> bool) \<Rightarrow> bool" where
  "store_errors ops S \<longleftrightarrow>
     (\<forall>pid r ob l d s e s'. check_permission_direct_op ops pid r ob l d s = (Inl e, s') \<longrightarrow> S e) \<and>
     (\<forall>pid r ob l s e s'. get_relation_subjects_op ops pid r ob l s = (Inl e, s') \<longrightarrow> S e) \<and>
     (\<forall>pid r ob l s e s'. get_relation_targets_op ops pid r ob l s = (Inl e, s') \<longrightarrow> S e)"

lemma store_errorsD:
  assumes "store_errors ops S"
  shows "eval_safe lk S (on_backend (check_permission_direct_op ops pid r ob l d))"
    and "eval_safe lk S (on_backend (get_relation_subjects_op ops pid r ob l))"
    and "eval_safe lk S (on_backend (get_relation_targets_op ops pid r ob l))"
  using assms unfolding store_errors_def by (meson safe_backend)+

lemma evaluate_expr_inner_safe:
  assumes "store_errors (eng_ops eng) S"
  shows "eval_safe (eng_lookup eng) S (evaluate_expr_inner remaining eng pid sbj n e T)"
proof (induction remaining arbitrary: n e T)
  case 0
  show ?case
    unfolding evaluate_expr_inner.simps
    by (rule safe_bind [OF safe_enter]) (auto intro!: safe_fail simp: eval_error_def simp del: st_simps)
next
  case (Suc remaining)
  let ?call = "cached_with (evaluate_expr_inner remaining eng pid sbj) pid sbj"
  note reads = store_errorsD [OF assms]
  have call: "eval_safe (eng_lookup eng) S (?call m e' T')" for m e' T'
    by (rule cached_with_safe) (rule Suc.IH)
  have this_case: "eval_safe (eng_lookup eng) S (this_eval eng pid sbj ?call n T)"
    unfolding this_eval_def
    by (auto intro!: safe_bind [OF reads(1)] safe_bind [OF reads(2)] safe_ret this_loop_safe [OF call]
             simp del: st_simps split: prod.splits)
  have computed: "eval_safe (eng_lookup eng) S (computed_eval eng pid ?call n c T)" for c
    unfolding computed_eval_def
    by (auto intro!: safe_ret safe_bind [OF safe_expression] call simp: Let_def simp del: st_simps split: prod.splits)
  have rest: "eval_safe (eng_lookup eng) S (case d of Inl t \<Rightarrow>
       st_bind (on_backend (get_relation_subjects_op (eng_ops eng) pid r ob tr))
         (ttu_subjects_loop (eng_lookup eng) pid cr ?call T t) | Inr w \<Rightarrow> st_ret w)" for d r ob tr cr
    by (auto intro!: safe_ret safe_bind [OF reads(2)] ttu_subjects_loop_safe [OF call]
             simp del: st_simps split: sum.splits)
  have ttu: "eval_safe (eng_lookup eng) S (ttu_eval eng pid ?call n tr cr T)" for tr cr
    unfolding ttu_eval_def
    by (auto intro!: safe_bind [OF reads(3)] safe_bind [OF ttu_targets_loop_safe [OF call]] rest
             simp del: st_simps split: prod.splits)
  show ?case
    unfolding evaluate_expr_inner.simps Let_def
    by (rule safe_bind [OF safe_enter], cases e)
       (simp_all only: relation_expression.case this_case computed ttu union_loop_safe [OF Suc.IH]
          intersection_loop_safe [OF Suc.IH] difference_eval_safe [OF Suc.IH])
qed

lemma check_with_cache_safe:
  assumes "store_errors (eng_ops eng) S"
  shows "eval_safe (eng_lookup eng) S (check_with_cache eng pid r ob l sbj)"
  unfolding check_with_cache_def Let_def evaluate_expr_cached_def
  by (auto intro!: safe_bind [OF safe_expression] safe_ret
        safe_bind [OF cached_with_safe [OF evaluate_expr_inner_safe [OF assms]]] simp del: st_simps)

lemma check_many_loop_safe:
  assumes "store_errors (eng_ops eng) S" and "within_budget c"
    and "check_many_loop eng reqs c = (rs, c')"
  shows "within_budget c' \<and> (\<forall>e. Inl e \<in> set rs \<longrightarrow> eval_error (eng_lookup eng) S e) \<and>
    length rs = length reqs"
  using assms(2,3)
proof (induction reqs arbitrary: c rs)
  case (Cons q reqs)
  obtain res c1 where q: "check_with_cache eng (req_policy_id q) (req_resource q) (req_object_id q)
      (req_relation q) (req_subject q) c = (res, c1)" by fastforce
  obtain rs' where rest: "check_many_loop eng reqs c1 = (rs', c')" and rs: "rs = res # rs'"
    using Cons.prems(2) q by (auto split: prod.splits)
  from safeD [OF check_with_cache_safe [OF assms(1)] Cons.prems(1) q] Cons.IH [OF _ rest] rs
  show ?case by auto
qed auto

end
