(* ===== verification/Zanzibar_Store.thy ===== *)
theory Zanzibar_Store
  imports Explain Evaluation_Limits
begin

text \<open>
  \<open>MemoryZanzibarStore\<close> (\<open>zanzibar/src/store/memory.rs\<close>) with the storage keys it uses
  (\<open>types/relationship.rs\<close>, \<open>types/subject.rs\<close>) and the default method of the \<open>ZanzibarStore\<close> trait.

  A \<open>HashMap\<close> that is iterated over is an association list with distinct keys; the order of the list
  stands for the unspecified iteration order. The standard library does not fix the function of its
  \<open>DefaultHasher\<close>, so it is the argument \<open>finish\<close> of the definitions that hash a subject: what is
  claimed of the store assumes nothing of it beyond no collision among the subjects at hand.

  The reads are shown to satisfy \<open>zanzibar_reads\<close>, so the evaluator is correct over this store; the
  writes are shown to be insertion and removal on the set of tuples.
\<close>

section \<open>Storage keys\<close>

definition hex_digit :: "nat \<Rightarrow> char" where
  "hex_digit n = ''0123456789abcdef'' ! n"

text \<open>The format \<open>{:016x}\<close> of a 64-bit integer.\<close>

definition hex16 :: "u64 \<Rightarrow> string" where
  "hex16 w = map (\<lambda>i. hex_digit (unat w div 16 ^ (15 - i) mod 16)) [0..<16]"

definition storage_hash :: "(subject \<Rightarrow> u64) \<Rightarrow> subject \<Rightarrow> string" where
  "storage_hash finish s = hex16 (finish s)"

definition object_prefix :: "string \<Rightarrow> string \<Rightarrow> string" where
  "object_prefix resource object_id = ''/rel/'' @ resource @ ''/'' @ object_id @ ''/''"

definition relation_prefix :: "string \<Rightarrow> string \<Rightarrow> string \<Rightarrow> string" where
  "relation_prefix resource object_id relation =
     ''/rel/'' @ resource @ ''/'' @ object_id @ ''/'' @ relation @ ''/''"

definition storage_key :: "(subject \<Rightarrow> u64) \<Rightarrow> relationship \<Rightarrow> string" where
  "storage_key finish rel =
     ''/rel/'' @ rel_resource rel @ ''/'' @ rel_object_id rel @ ''/'' @ rel_relation rel @ ''/'' @
     storage_hash finish (rel_subject rel)"


section \<open>The store\<close>

type_synonym rel_map = "(string \<times> relationship) list"

record mem_store =
  mem_policies :: "(string \<times> policy) list"
  mem_relationships :: "string \<rightharpoonup> rel_map"
  mem_policy_counter :: u64

type_synonym 'a mem = "(mem_store, zerror, 'a) stm"

definition hm_insert :: "'k \<Rightarrow> 'v \<Rightarrow> ('k \<times> 'v) list \<Rightarrow> ('k \<times> 'v) list" where
  "hm_insert k v m = (k, v) # filter (\<lambda>e. fst e \<noteq> k) m"

definition hm_remove :: "'k \<Rightarrow> ('k \<times> 'v) list \<Rightarrow> ('k \<times> 'v) list" where
  "hm_remove k m = filter (\<lambda>e. fst e \<noteq> k) m"

definition hm_contains :: "'k \<Rightarrow> ('k \<times> 'v) list \<Rightarrow> bool" where
  "hm_contains k m = list_ex (\<lambda>e. fst e = k) m"

definition mem_new :: mem_store where
  "mem_new = \<lparr>mem_policies = [], mem_relationships = Map.empty, mem_policy_counter = 0\<rparr>"

definition mem_store_policy :: "policy \<Rightarrow> unit mem" where
  "mem_store_policy p = st_modify (\<lambda>m. m\<lparr>mem_policies := hm_insert (pol_id p) p (mem_policies m)\<rparr>)"

record store_policy_options =
  opt_validate :: bool
  opt_enforce_dpi :: bool

definition store_policy_with_options :: "policy \<Rightarrow> store_policy_options \<Rightarrow> unit mem" where
  "store_policy_with_options p options =
     st_bind (if opt_validate options then st_lift (policy_validate p) else st_ret ()) (\<lambda>_.
     st_bind (if opt_enforce_dpi options then st_lift (validate_dpi p) else st_ret ()) (\<lambda>_.
     mem_store_policy p))"

definition mem_get_policy :: "string \<Rightarrow> policy option mem" where
  "mem_get_policy policy_id = st_read (\<lambda>m. Inr (map_of (mem_policies m) policy_id))"

definition mem_list_policies :: "policy list mem" where
  "mem_list_policies = st_read (\<lambda>m. Inr (map snd (mem_policies m)))"

text \<open>\<open>fetch_add\<close> wraps around.\<close>

definition mem_next_policy_counter :: "u64 mem" where
  "mem_next_policy_counter m =
     (Inr (mem_policy_counter m + 1), m\<lparr>mem_policy_counter := mem_policy_counter m + 1\<rparr>)"

definition mem_delete_policy :: "string \<Rightarrow> bool mem" where
  "mem_delete_policy policy_id m =
     (case map_of (mem_policies m) policy_id of
        None \<Rightarrow> (Inr False, m)
      | Some _ \<Rightarrow>
          (Inr True, m\<lparr>mem_policies := hm_remove policy_id (mem_policies m),
                       mem_relationships := (mem_relationships m)(policy_id := None)\<rparr>))"

definition mem_store_relationship :: "(subject \<Rightarrow> u64) \<Rightarrow> string \<Rightarrow> relationship \<Rightarrow> unit mem" where
  "mem_store_relationship finish policy_id rel =
     st_modify (\<lambda>m. m\<lparr>mem_relationships := (mem_relationships m)
       (policy_id \<mapsto> hm_insert (storage_key finish rel) rel
          (case mem_relationships m policy_id of None \<Rightarrow> [] | Some rels \<Rightarrow> rels))\<rparr>)"

definition mem_delete_relationship :: "(subject \<Rightarrow> u64) \<Rightarrow> string \<Rightarrow> relationship \<Rightarrow> bool mem" where
  "mem_delete_relationship finish policy_id rel m =
     (case mem_relationships m policy_id of
        Some rels \<Rightarrow>
          (Inr (hm_contains (storage_key finish rel) rels),
           m\<lparr>mem_relationships := (mem_relationships m)
               (policy_id \<mapsto> hm_remove (storage_key finish rel) rels)\<rparr>)
      | None \<Rightarrow> (Inr False, m))"

definition mem_has_relationship ::
  "(subject \<Rightarrow> u64) \<Rightarrow> string \<Rightarrow> string \<Rightarrow> string \<Rightarrow> string \<Rightarrow> subject \<Rightarrow> bool mem" where
  "mem_has_relationship finish policy_id resource object_id relation subject =
     st_read (\<lambda>m. Inr (case mem_relationships m policy_id of
        Some rels \<Rightarrow>
          hm_contains (storage_key finish (relationship_new resource object_id relation subject)) rels
      | None \<Rightarrow> False))"

definition mem_check_permission_direct ::
  "(subject \<Rightarrow> u64) \<Rightarrow> string \<Rightarrow> string \<Rightarrow> string \<Rightarrow> string \<Rightarrow> did \<Rightarrow> bool mem" where
  "mem_check_permission_direct finish policy_id resource object_id relation subject =
     st_read (\<lambda>m. Inr (
       let direct_key = storage_key finish (with_entity resource object_id relation subject);
           wildcard_key = storage_key finish (relationship_new resource object_id relation Wildcard)
       in case mem_relationships m policy_id of
            Some rels \<Rightarrow>
              hm_contains direct_key rels \<or> hm_contains wildcard_key rels \<or>
              list_ex (\<lambda>(key, rel). starts_with key (relation_prefix resource object_id relation) \<and>
                         is_typed_wildcard (rel_subject rel)) rels
          | None \<Rightarrow> False))"

definition mem_get_relation_subjects ::
  "string \<Rightarrow> string \<Rightarrow> string \<Rightarrow> string \<Rightarrow> subject list mem" where
  "mem_get_relation_subjects policy_id resource object_id relation =
     st_read (\<lambda>m. Inr (case mem_relationships m policy_id of
        Some rels \<Rightarrow>
          map (\<lambda>(_, v). rel_subject v)
            (filter (\<lambda>(k, _). starts_with k (relation_prefix resource object_id relation)) rels)
      | None \<Rightarrow> []))"

definition entity_set_target :: "subject \<Rightarrow> object_ref option" where
  "entity_set_target s = (case s of
     EntitySet resource object_id _ \<Rightarrow> Some \<lparr>ref_resource = resource, ref_object_id = object_id\<rparr>
   | _ \<Rightarrow> None)"

definition mem_get_relation_targets ::
  "string \<Rightarrow> string \<Rightarrow> string \<Rightarrow> string \<Rightarrow> object_ref list mem" where
  "mem_get_relation_targets policy_id resource object_id relation =
     st_read (\<lambda>m. Inr (case mem_relationships m policy_id of
        Some rels \<Rightarrow>
          List.map_filter (\<lambda>(_, v). entity_set_target (rel_subject v))
            (filter (\<lambda>(k, _). starts_with k (relation_prefix resource object_id relation)) rels)
      | None \<Rightarrow> []))"

definition mem_delete_object_relationships :: "string \<Rightarrow> string \<Rightarrow> string \<Rightarrow> unit mem" where
  "mem_delete_object_relationships policy_id resource object_id =
     st_modify (\<lambda>m. case mem_relationships m policy_id of
        Some rels \<Rightarrow>
          m\<lparr>mem_relationships := (mem_relationships m)
              (policy_id \<mapsto> filter (\<lambda>(k, _). \<not> starts_with k (object_prefix resource object_id)) rels)\<rparr>
      | None \<Rightarrow> m)"

definition mem_ops :: "(subject \<Rightarrow> u64) \<Rightarrow> mem_store store_ops" where
  "mem_ops finish = \<lparr>
     check_permission_direct_op = mem_check_permission_direct finish,
     get_relation_subjects_op = mem_get_relation_subjects,
     get_relation_targets_op = mem_get_relation_targets\<rparr>"


section \<open>Keys identify what they are built from\<close>

lemma hex_digit_inj: "a < 16 \<Longrightarrow> b < 16 \<Longrightarrow> hex_digit a = hex_digit b \<Longrightarrow> a = b"
  unfolding hex_digit_def by (simp add: nth_eq_iff_index_eq)

lemma hex_digit_no_slash: "n < 16 \<Longrightarrow> hex_digit n \<noteq> CHR ''/''"
proof -
  assume "n < 16"
  then have "hex_digit n \<in> set ''0123456789abcdef''"
    unfolding hex_digit_def by (intro nth_mem) simp
  then show ?thesis by auto
qed

lemma hex_digits_determine:
  fixes a b :: nat
  assumes "\<And>i. i < n \<Longrightarrow> a div 16 ^ i mod 16 = b div 16 ^ i mod 16"
  shows "a mod 16 ^ n = b mod 16 ^ n"
  using assms
proof (induction n)
  case (Suc n)
  have "x mod 16 ^ Suc n = 16 ^ n * (x div 16 ^ n mod 16) + x mod 16 ^ n" for x :: nat
    using mod_mult2_eq [of x "16 ^ n" 16] by (simp add: mult.commute)
  with Suc show ?case by simp
qed simp

lemma hex16_inj: "hex16 v = hex16 w \<Longrightarrow> v = w"
proof -
  assume eq: "hex16 v = hex16 w"
  have "unat v div 16 ^ i mod 16 = unat w div 16 ^ i mod 16" if "i < 16" for i
  proof -
    have "hex16 v ! (15 - i) = hex16 w ! (15 - i)" using eq by simp
    with that show ?thesis by (auto simp: hex16_def intro: hex_digit_inj)
  qed
  from hex_digits_determine [of 16, OF this] have "unat v mod 2 ^ 64 = unat w mod 2 ^ 64" by simp
  moreover have "unat x < 2 ^ 64" for x :: u64 using unsigned_less [of x, where 'a = nat] by simp
  ultimately show "v = w" by (metis mod_less unsigned_word_eqI)
qed

lemma hash_no_slash [simp]: "CHR ''/'' \<notin> set (storage_hash finish s)"
  using hex_digit_no_slash by (auto simp: storage_hash_def hex16_def) (metis mod_less_divisor zero_less_numeral)

text \<open>The fields \<open>try_new\<close> accepts contain no separator.\<close>

definition slash_free :: "relationship \<Rightarrow> bool" where
  "slash_free rel \<longleftrightarrow>
     CHR ''/'' \<notin> set (rel_resource rel) \<union> set (rel_object_id rel) \<union> set (rel_relation rel)"

lemma validate_field_no_slash: "validate_field f v = Inr u \<Longrightarrow> CHR ''/'' \<notin> set v"
  by (auto simp: validate_field_def FORBIDDEN_CHARS_def find_None_iff split: if_splits option.splits)

lemma try_new_slash_free: "try_new r ob l s = Inr rel \<Longrightarrow> slash_free rel"
  by (auto simp: try_new_def relationship_new_def slash_free_def dest: validate_field_no_slash)

abbreviation rel_node :: "relationship \<Rightarrow> node_id" where
  "rel_node rel \<equiv> (rel_resource rel, rel_object_id rel, rel_relation rel)"

lemma prefix_count: "prefix xs ys \<Longrightarrow> count_list xs c \<le> count_list ys c"
  by (auto simp: prefix_def)

lemma relation_prefix_exact:
  assumes "slash_free rel"
  shows "starts_with (storage_key finish rel) (relation_prefix r ob l) \<longleftrightarrow> rel_node rel = (r, ob, l)"
proof
  assume p: "starts_with (storage_key finish rel) (relation_prefix r ob l)"
  then have p: "prefix (relation_prefix r ob l) (storage_key finish rel)" by (simp add: starts_with_def)
  from prefix_count [OF p, of "CHR ''/''"] assms
  have free: "CHR ''/'' \<notin> set r" "CHR ''/'' \<notin> set ob" "CHR ''/'' \<notin> set l"
    by (auto simp: relation_prefix_def storage_key_def slash_free_def count_list_0_iff)
  from p have "prefix (r @ CHR ''/'' # ob @ CHR ''/'' # l @ CHR ''/'' # [])
     (rel_resource rel @ CHR ''/'' # rel_object_id rel @ CHR ''/'' # rel_relation rel @ CHR ''/'' #
        storage_hash finish (rel_subject rel))"
    by (simp add: relation_prefix_def storage_key_def)
  from prefix_sep_split [OF this] free assms show "rel_node rel = (r, ob, l)"
    by (auto simp: slash_free_def dest!: prefix_sep_split)
next
  assume "rel_node rel = (r, ob, l)"
  then show "starts_with (storage_key finish rel) (relation_prefix r ob l)"
    by (auto simp: starts_with_def relation_prefix_def storage_key_def)
qed

lemma object_prefix_exact:
  assumes "slash_free rel" and "CHR ''/'' \<notin> set r" and "CHR ''/'' \<notin> set ob"
  shows "starts_with (storage_key finish rel) (object_prefix r ob) \<longleftrightarrow>
           rel_resource rel = r \<and> rel_object_id rel = ob"
proof
  assume "starts_with (storage_key finish rel) (object_prefix r ob)"
  then have "prefix (r @ CHR ''/'' # ob @ CHR ''/'' # [])
     (rel_resource rel @ CHR ''/'' # rel_object_id rel @ CHR ''/'' # rel_relation rel @ CHR ''/'' #
        storage_hash finish (rel_subject rel))"
    by (simp add: starts_with_def object_prefix_def storage_key_def)
  from prefix_sep_split [OF this] assms show "rel_resource rel = r \<and> rel_object_id rel = ob"
    by (auto simp: slash_free_def dest!: prefix_sep_split)
qed (auto simp: starts_with_def object_prefix_def storage_key_def)

lemma storage_key_exact:
  assumes "slash_free rel"
  shows "storage_key finish rel' = storage_key finish rel \<longleftrightarrow>
           rel_node rel' = rel_node rel \<and> finish (rel_subject rel') = finish (rel_subject rel)"
proof
  assume eq: "storage_key finish rel' = storage_key finish rel"
  have "starts_with (storage_key finish rel')
      (relation_prefix (rel_resource rel') (rel_object_id rel') (rel_relation rel'))"
    by (auto simp: starts_with_def relation_prefix_def storage_key_def)
  with eq relation_prefix_exact [OF assms] have node: "rel_node rel' = rel_node rel" by auto
  with eq have "hex16 (finish (rel_subject rel')) = hex16 (finish (rel_subject rel))"
    by (simp add: storage_key_def storage_hash_def)
  with node hex16_inj show "rel_node rel' = rel_node rel \<and> finish (rel_subject rel') = finish (rel_subject rel)"
    by blast
qed (simp add: storage_key_def storage_hash_def)


section \<open>The tuples a store holds\<close>

definition mem_rels :: "mem_store \<Rightarrow> string \<Rightarrow> rel_map" where
  "mem_rels m pid = (case mem_relationships m pid of None \<Rightarrow> [] | Some rels \<Rightarrow> rels)"

definition mem_tuples :: "mem_store \<Rightarrow> tuples" where
  "mem_tuples m pid n = rel_subject ` {rel \<in> snd ` set (mem_rels m pid). rel_node rel = n}"

definition mem_wf :: "(subject \<Rightarrow> u64) \<Rightarrow> mem_store \<Rightarrow> bool" where
  "mem_wf finish m \<longleftrightarrow>
     (\<forall>pid. \<forall>e \<in> set (mem_rels m pid). fst e = storage_key finish (snd e) \<and> slash_free (snd e))"

text \<open>No stored subject shares the hash of \<open>s\<close>, other than \<open>s\<close> itself.\<close>

definition hash_unique :: "(subject \<Rightarrow> u64) \<Rightarrow> mem_store \<Rightarrow> subject \<Rightarrow> bool" where
  "hash_unique finish m s \<longleftrightarrow>
     (\<forall>pid. \<forall>e \<in> set (mem_rels m pid).
        finish (rel_subject (snd e)) = finish s \<longrightarrow> rel_subject (snd e) = s)"

lemma mem_tuples_iff:
  "s \<in> mem_tuples m pid n \<longleftrightarrow>
     (\<exists>e \<in> set (mem_rels m pid). rel_node (snd e) = n \<and> rel_subject (snd e) = s)"
  unfolding mem_tuples_def by blast

lemma mem_rels_cases:
  "mem_relationships m pid = None \<Longrightarrow> mem_rels m pid = []"
  "mem_relationships m pid = Some rels \<Longrightarrow> mem_rels m pid = rels"
  by (simp_all add: mem_rels_def)

lemma mem_wfD:
  assumes "mem_wf finish m" and "e \<in> set (mem_rels m pid)"
  shows "fst e = storage_key finish (snd e)" and "slash_free (snd e)"
  using assms by (simp_all add: mem_wf_def)

lemma mem_wf_mono:
  assumes "mem_wf finish m"
    and "\<And>q e. e \<in> set (mem_rels m' q) \<Longrightarrow>
      e \<in> set (mem_rels m q) \<or> fst e = storage_key finish (snd e) \<and> slash_free (snd e)"
  shows "mem_wf finish m'"
  using assms unfolding mem_wf_def by meson

lemma key_match:
  assumes "mem_wf finish m" and "hash_unique finish m s" and e: "e \<in> set (mem_rels m pid)"
  shows "fst e = storage_key finish (relationship_new r ob l s) \<longleftrightarrow>
           rel_node (snd e) = (r, ob, l) \<and> rel_subject (snd e) = s"
proof -
  have "finish s = finish (rel_subject (snd e)) \<longleftrightarrow> rel_subject (snd e) = s"
    using assms(2) e by (metis hash_unique_def)
  moreover have "storage_key finish (relationship_new r ob l s) = storage_key finish (snd e) \<longleftrightarrow>
      (r, ob, l) = rel_node (snd e) \<and> finish s = finish (rel_subject (snd e))"
    using storage_key_exact [OF mem_wfD(2) [OF assms(1) e], of finish "relationship_new r ob l s"]
    by (simp add: relationship_new_def)
  ultimately show ?thesis using mem_wfD(1) [OF assms(1) e] by metis
qed

lemma contains_iff:
  assumes "mem_wf finish m" and "hash_unique finish m s"
  shows "hm_contains (storage_key finish (relationship_new r ob l s)) (mem_rels m pid) \<longleftrightarrow>
           s \<in> mem_tuples m pid (r, ob, l)"
  unfolding hm_contains_def list_ex_iff mem_tuples_iff
  by (rule bex_cong [OF refl]) (rule key_match [OF assms])

lemma prefix_iff:
  assumes "mem_wf finish m" and "e \<in> set (mem_rels m pid)"
  shows "starts_with (fst e) (relation_prefix r ob l) \<longleftrightarrow> rel_node (snd e) = (r, ob, l)"
proof -
  show ?thesis using mem_wfD [OF assms] by (simp add: relation_prefix_exact)
qed

lemma stored_under_prefix:
  assumes "mem_wf finish m"
  shows "set (filter (\<lambda>(k, _). starts_with k (relation_prefix r ob l)) (mem_rels m pid)) =
         {e \<in> set (mem_rels m pid). rel_node (snd e) = (r, ob, l)}"
  using prefix_iff [OF assms] by (force simp: case_prod_beta)

lemma mem_subjects_eq:
  "mem_get_relation_subjects pid r ob l m =
     (Inr (map (\<lambda>(_, v). rel_subject v)
        (filter (\<lambda>(k, _). starts_with k (relation_prefix r ob l)) (mem_rels m pid))), m)"
  by (auto simp: mem_get_relation_subjects_def mem_rels_def split: option.splits)

lemma mem_targets_eq:
  "mem_get_relation_targets pid r ob l m =
     (Inr (List.map_filter (\<lambda>(_, v). entity_set_target (rel_subject v))
        (filter (\<lambda>(k, _). starts_with k (relation_prefix r ob l)) (mem_rels m pid))), m)"
  by (auto simp: mem_get_relation_targets_def mem_rels_def List.map_filter_def split: option.splits)

lemma mem_direct_eq:
  "mem_check_permission_direct finish pid r ob l d m =
     (Inr (hm_contains (storage_key finish (relationship_new r ob l (Entity d))) (mem_rels m pid) \<or>
           hm_contains (storage_key finish (relationship_new r ob l Wildcard)) (mem_rels m pid) \<or>
           list_ex (\<lambda>(key, rel). starts_with key (relation_prefix r ob l) \<and>
                      is_typed_wildcard (rel_subject rel)) (mem_rels m pid)), m)"
  by (auto simp: mem_check_permission_direct_def mem_rels_def with_entity_def Let_def hm_contains_def
           split: option.splits)

lemma typed_wildcard_iff: "is_typed_wildcard s \<longleftrightarrow> (\<exists>x. s = TypedWildcard x)"
  by (cases s) auto

lemma entity_set_target_iff:
  "entity_set_target s = Some t \<longleftrightarrow> (\<exists>l. s = EntitySet (ref_resource t) (ref_object_id t) l)"
  by (cases s; cases t) (auto simp: entity_set_target_def)

lemma mem_direct_exact:
  assumes "mem_wf finish m" and "hash_unique finish m (Entity d)" and "hash_unique finish m Wildcard"
  shows "mem_check_permission_direct finish pid r ob l d m =
           (Inr (direct_grant (mem_tuples m) pid d (r, ob, l)), m)"
proof -
  have "list_ex (\<lambda>(key, rel). starts_with key (relation_prefix r ob l) \<and> is_typed_wildcard (rel_subject rel))
          (mem_rels m pid) \<longleftrightarrow>
        (\<exists>e \<in> set (mem_rels m pid). rel_node (snd e) = (r, ob, l) \<and> is_typed_wildcard (rel_subject (snd e)))"
    using prefix_iff [OF assms(1)] by (auto simp: list_ex_iff case_prod_beta)
  also have "\<dots> \<longleftrightarrow> (\<exists>x. TypedWildcard x \<in> mem_tuples m pid (r, ob, l))"
    unfolding mem_tuples_iff typed_wildcard_iff by blast
  finally show ?thesis using assms by (simp add: mem_direct_eq contains_iff direct_grant_def)
qed

lemma mem_subjects_exact:
  assumes "mem_wf finish m"
  shows "\<exists>ss. mem_get_relation_subjects pid r ob l m = (Inr ss, m) \<and> set ss = mem_tuples m pid (r, ob, l)"
proof -
  let ?ss = "map (\<lambda>(_, v). rel_subject v)
        (filter (\<lambda>(k, _). starts_with k (relation_prefix r ob l)) (mem_rels m pid))"
  have "set ?ss = (\<lambda>(_, v). rel_subject v) ` {e \<in> set (mem_rels m pid). rel_node (snd e) = (r, ob, l)}"
    by (simp only: set_map stored_under_prefix [OF assms])
  also have "\<dots> = mem_tuples m pid (r, ob, l)"
    unfolding set_eq_iff mem_tuples_iff by (auto simp: case_prod_unfold)
  finally show ?thesis by (simp only: mem_subjects_eq) blast
qed

lemma mem_targets_exact:
  assumes "mem_wf finish m"
  shows "\<exists>ts. mem_get_relation_targets pid r ob l m = (Inr ts, m) \<and>
     set ts = {t. \<exists>l'. EntitySet (ref_resource t) (ref_object_id t) l' \<in> mem_tuples m pid (r, ob, l)}"
proof -
  let ?ts = "List.map_filter (\<lambda>(_, v). entity_set_target (rel_subject v))
        (filter (\<lambda>(k, _). starts_with k (relation_prefix r ob l)) (mem_rels m pid))"
  have "set ?ts = {t. \<exists>e \<in> {e \<in> set (mem_rels m pid). rel_node (snd e) = (r, ob, l)}.
      (case e of (_, v) \<Rightarrow> entity_set_target (rel_subject v)) = Some t}"
    by (simp only: set_map_filter stored_under_prefix [OF assms])
  also have "\<dots> = {t. \<exists>l'. EntitySet (ref_resource t) (ref_object_id t) l' \<in> mem_tuples m pid (r, ob, l)}"
    unfolding mem_tuples_iff case_prod_unfold entity_set_target_iff by blast
  finally show ?thesis by (simp only: mem_targets_eq) blast
qed

interpretation mem: zanzibar_reads "mem_ops finish" "\<lambda>s. s = m \<and> mem_wf finish m" "mem_tuples m"
  "\<lambda>d. hash_unique finish m (Entity d) \<and> hash_unique finish m Wildcard"
proof (unfold_locales, goal_cases)
  case (1 d pid r ob l)
  then show ?case by (auto simp: triple_def mem_ops_def mem_direct_exact)
next
  case (2 pid r ob l)
  have "mem_wf finish m \<Longrightarrow> mem_get_relation_subjects pid r ob l m = (x, s') \<Longrightarrow>
          s' = m \<and> (\<forall>ss. x = Inr ss \<longrightarrow> set ss = mem_tuples m pid (r, ob, l))" for x s'
    using mem_subjects_exact [of finish m pid r ob l] by auto
  then show ?case by (auto simp: triple_def mem_ops_def)
next
  case (3 pid r ob l)
  have "mem_wf finish m \<Longrightarrow> mem_get_relation_targets pid r ob l m = (x, s') \<Longrightarrow>
          s' = m \<and> (\<forall>ts. x = Inr ts \<longrightarrow> set ts =
            {t. \<exists>l'. EntitySet (ref_resource t) (ref_object_id t) l' \<in> mem_tuples m pid (r, ob, l)})" for x s'
    using mem_targets_exact [of finish m pid r ob l] by auto
  then show ?case by (auto simp: triple_def mem_ops_def)
qed


section \<open>Writes are insertions and removals of tuples\<close>

lemma store_rels:
  "mem_store_relationship finish pid rel m = (Inr (), m') \<Longrightarrow>
     mem_rels m' q = (if q = pid then hm_insert (storage_key finish rel) rel (mem_rels m q) else mem_rels m q)"
  by (auto simp: mem_store_relationship_def mem_rels_def)

lemma delete_rels:
  "mem_delete_relationship finish pid rel m = (Inr b, m') \<Longrightarrow>
     b = hm_contains (storage_key finish rel) (mem_rels m pid) \<and>
     mem_rels m' q = (if q = pid then hm_remove (storage_key finish rel) (mem_rels m q) else mem_rels m q)"
  by (auto simp: mem_delete_relationship_def mem_rels_def hm_remove_def hm_contains_def split: option.splits)

lemma delete_object_rels:
  "mem_delete_object_relationships pid r ob m = (Inr (), m') \<Longrightarrow>
     mem_rels m' q = (if q = pid
       then filter (\<lambda>e. \<not> starts_with (fst e) (object_prefix r ob)) (mem_rels m q) else mem_rels m q)"
  by (auto simp: mem_delete_object_relationships_def mem_rels_def case_prod_unfold split: option.splits)

lemma delete_policy_rels:
  "mem_delete_policy pid m = (Inr b, m') \<Longrightarrow>
     mem_rels m' q = (if b \<and> q = pid then [] else mem_rels m q)"
  by (auto simp: mem_delete_policy_def mem_rels_def split: option.splits)

lemma rel_new_self: "relationship_new (rel_resource rel) (rel_object_id rel) (rel_relation rel) (rel_subject rel) = rel"
  by (simp add: relationship_new_def)

lemma own_key_match:
  assumes "mem_wf finish m" and "hash_unique finish m (rel_subject rel)" and "e \<in> set (mem_rels m pid)"
  shows "fst e = storage_key finish rel \<longleftrightarrow> rel_node (snd e) = rel_node rel \<and> rel_subject (snd e) = rel_subject rel"
  using key_match [OF assms, of "rel_resource rel" "rel_object_id rel" "rel_relation rel"]
  by (simp add: rel_new_self)

lemma mem_store_relationship_refines:
  assumes wf: "mem_wf finish m" and uniq: "hash_unique finish m (rel_subject rel)" and "slash_free rel"
    and run: "mem_store_relationship finish pid rel m = (Inr (), m')"
  shows "mem_wf finish m'"
    and "mem_tuples m' q n =
      (if q = pid \<and> n = rel_node rel then insert (rel_subject rel) (mem_tuples m q n) else mem_tuples m q n)"
proof -
  note rels = store_rels [OF run] and match = own_key_match [OF wf uniq]
  show "mem_wf finish m'"
    by (rule mem_wf_mono [OF wf]) (use assms(3) in \<open>auto simp: rels hm_insert_def split: if_splits\<close>)
  have "s \<in> mem_tuples m' q n \<longleftrightarrow>
      q = pid \<and> n = rel_node rel \<and> s = rel_subject rel \<or> s \<in> mem_tuples m q n" for s
  proof (cases "q = pid")
    case True
    have "s \<in> mem_tuples m' q n \<longleftrightarrow> rel_node rel = n \<and> rel_subject rel = s \<or>
        (\<exists>e \<in> set (mem_rels m q). fst e \<noteq> storage_key finish rel \<and> rel_node (snd e) = n \<and> rel_subject (snd e) = s)"
    proof -
      have "set (mem_rels m' q) =
          insert (storage_key finish rel, rel) {e \<in> set (mem_rels m q). fst e \<noteq> storage_key finish rel}"
        using True by (simp add: rels hm_insert_def)
      then show ?thesis unfolding mem_tuples_iff by (simp only: bex_simps snd_conv) blast
    qed
    also have "\<dots> \<longleftrightarrow> rel_node rel = n \<and> rel_subject rel = s \<or> s \<in> mem_tuples m q n"
      unfolding mem_tuples_iff using match [of _ q] by metis
    finally show ?thesis using True by metis
  next
    case False
    then show ?thesis by (simp add: mem_tuples_iff rels)
  qed
  then show "mem_tuples m' q n =
      (if q = pid \<and> n = rel_node rel then insert (rel_subject rel) (mem_tuples m q n) else mem_tuples m q n)"
    by (simp add: set_eq_iff) blast
qed

lemma mem_delete_relationship_refines:
  assumes wf: "mem_wf finish m" and uniq: "hash_unique finish m (rel_subject rel)"
    and run: "mem_delete_relationship finish pid rel m = (Inr b, m')"
  shows "mem_wf finish m'"
    and "b \<longleftrightarrow> rel_subject rel \<in> mem_tuples m pid (rel_node rel)"
    and "mem_tuples m' q n =
      (if q = pid \<and> n = rel_node rel then mem_tuples m q n - {rel_subject rel} else mem_tuples m q n)"
proof -
  note rels = delete_rels [OF run] and match = own_key_match [OF wf uniq]
  show "mem_wf finish m'"
    by (rule mem_wf_mono [OF wf]) (auto simp: rels hm_remove_def split: if_splits)
  show "b \<longleftrightarrow> rel_subject rel \<in> mem_tuples m pid (rel_node rel)"
    using rels contains_iff [OF wf uniq, of "rel_resource rel" "rel_object_id rel" "rel_relation rel" pid]
    by (simp add: rel_new_self)
  have "s \<in> mem_tuples m' q n \<longleftrightarrow>
      s \<in> mem_tuples m q n \<and> \<not> (q = pid \<and> n = rel_node rel \<and> s = rel_subject rel)" for s
  proof (cases "q = pid")
    case True
    have "s \<in> mem_tuples m' q n \<longleftrightarrow>
        (\<exists>e \<in> set (mem_rels m q). fst e \<noteq> storage_key finish rel \<and> rel_node (snd e) = n \<and> rel_subject (snd e) = s)"
    proof -
      have "set (mem_rels m' q) = {e \<in> set (mem_rels m q). fst e \<noteq> storage_key finish rel}"
        using True by (simp add: rels hm_remove_def)
      then show ?thesis unfolding mem_tuples_iff by blast
    qed
    also have "\<dots> \<longleftrightarrow> s \<in> mem_tuples m q n \<and> \<not> (n = rel_node rel \<and> s = rel_subject rel)"
      unfolding mem_tuples_iff using match [of _ q] by metis
    finally show ?thesis using True by blast
  next
    case False
    then show ?thesis by (simp add: mem_tuples_iff rels)
  qed
  then show "mem_tuples m' q n =
      (if q = pid \<and> n = rel_node rel then mem_tuples m q n - {rel_subject rel} else mem_tuples m q n)"
    by (simp add: set_eq_iff) blast
qed

lemma mem_delete_object_refines:
  assumes wf: "mem_wf finish m" and free: "CHR ''/'' \<notin> set r" "CHR ''/'' \<notin> set ob"
    and run: "mem_delete_object_relationships pid r ob m = (Inr (), m')"
  shows "mem_wf finish m'"
    and "mem_tuples m' q (r', ob', l) =
      (if q = pid \<and> r' = r \<and> ob' = ob then {} else mem_tuples m q (r', ob', l))"
proof -
  note rels = delete_object_rels [OF run]
  have match: "starts_with (fst e) (object_prefix r ob) \<longleftrightarrow> rel_resource (snd e) = r \<and> rel_object_id (snd e) = ob"
    if "e \<in> set (mem_rels m p)" for e p
    using mem_wfD [OF wf that] by (simp add: object_prefix_exact free)
  show "mem_wf finish m'"
    by (rule mem_wf_mono [OF wf]) (auto simp: rels split: if_splits)
  have "s \<in> mem_tuples m' q (r', ob', l) \<longleftrightarrow>
      s \<in> mem_tuples m q (r', ob', l) \<and> \<not> (q = pid \<and> r' = r \<and> ob' = ob)" for s
  proof (cases "q = pid")
    case True
    have "s \<in> mem_tuples m' q (r', ob', l) \<longleftrightarrow> (\<exists>e \<in> set (mem_rels m q).
        \<not> starts_with (fst e) (object_prefix r ob) \<and> rel_node (snd e) = (r', ob', l) \<and> rel_subject (snd e) = s)"
    proof -
      have "set (mem_rels m' q) = {e \<in> set (mem_rels m q). \<not> starts_with (fst e) (object_prefix r ob)}"
        using True by (simp add: rels)
      then show ?thesis unfolding mem_tuples_iff by blast
    qed
    also have "\<dots> \<longleftrightarrow> s \<in> mem_tuples m q (r', ob', l) \<and> \<not> (r' = r \<and> ob' = ob)"
      unfolding mem_tuples_iff using match [of _ q] by (metis prod.inject)
    finally show ?thesis using True by blast
  next
    case False
    then show ?thesis by (simp add: mem_tuples_iff rels)
  qed
  then show "mem_tuples m' q (r', ob', l) =
      (if q = pid \<and> r' = r \<and> ob' = ob then {} else mem_tuples m q (r', ob', l))"
    by (simp add: set_eq_iff)
qed

section \<open>Sequences of writes\<close>

datatype rel_write =
    WStore string relationship
  | WDelete string relationship
  | WDeleteObject string string string

fun apply_write :: "(subject \<Rightarrow> u64) \<Rightarrow> rel_write \<Rightarrow> mem_store \<Rightarrow> mem_store" where
  "apply_write finish (WStore pid rel) m = snd (mem_store_relationship finish pid rel m)"
| "apply_write finish (WDelete pid rel) m = snd (mem_delete_relationship finish pid rel m)"
| "apply_write finish (WDeleteObject pid r ob) m = snd (mem_delete_object_relationships pid r ob m)"

text \<open>The same write on the set of tuples itself.\<close>

fun abs_write :: "rel_write \<Rightarrow> tuples \<Rightarrow> tuples" where
  "abs_write (WStore pid rel) R =
     (\<lambda>q n. if q = pid \<and> n = rel_node rel then insert (rel_subject rel) (R q n) else R q n)"
| "abs_write (WDelete pid rel) R =
     (\<lambda>q n. if q = pid \<and> n = rel_node rel then R q n - {rel_subject rel} else R q n)"
| "abs_write (WDeleteObject pid r ob) R =
     (\<lambda>q n. if q = pid \<and> fst n = r \<and> fst (snd n) = ob then {} else R q n)"

fun write_slash_free :: "rel_write \<Rightarrow> bool" where
  "write_slash_free (WStore pid rel) = slash_free rel"
| "write_slash_free (WDelete pid rel) = slash_free rel"
| "write_slash_free (WDeleteObject pid r ob) = (CHR ''/'' \<notin> set r \<and> CHR ''/'' \<notin> set ob)"

fun write_subjects :: "rel_write \<Rightarrow> subject set" where
  "write_subjects (WStore pid rel) = {rel_subject rel}"
| "write_subjects (WDelete pid rel) = {rel_subject rel}"
| "write_subjects (WDeleteObject pid r ob) = {}"

definition mem_subjects :: "mem_store \<Rightarrow> subject set" where
  "mem_subjects m = {s. \<exists>pid n. s \<in> mem_tuples m pid n}"

lemma hash_uniqueI:
  assumes "inj_on finish S" and "mem_subjects m \<subseteq> S" and "s \<in> S"
  shows "hash_unique finish m s"
  unfolding hash_unique_def
proof (intro allI ballI impI)
  fix pid e assume e: "e \<in> set (mem_rels m pid)" and eq: "finish (rel_subject (snd e)) = finish s"
  have "rel_subject (snd e) \<in> mem_subjects m"
    unfolding mem_subjects_def mem_tuples_iff using e by blast
  with assms eq show "rel_subject (snd e) = s" by (meson inj_onD subsetD)
qed

lemma apply_write_refines:
  assumes wf: "mem_wf finish m" and inj: "inj_on finish S" and sub: "mem_subjects m \<subseteq> S"
    and w: "write_slash_free w" "write_subjects w \<subseteq> S"
  shows "mem_wf finish (apply_write finish w m)"
    and "mem_tuples (apply_write finish w m) = abs_write w (mem_tuples m)"
    and "mem_subjects (apply_write finish w m) \<subseteq> S"
proof -
  have both: "mem_wf finish (apply_write finish w m) \<and>
    mem_tuples (apply_write finish w m) = abs_write w (mem_tuples m)"
  proof (cases w)
    case (WStore pid rel)
    obtain m' where run: "mem_store_relationship finish pid rel m = (Inr (), m')"
      by (simp add: mem_store_relationship_def)
    have "hash_unique finish m (rel_subject rel)" using hash_uniqueI [OF inj sub] w WStore by simp
    from mem_store_relationship_refines [OF wf this _ run] w run WStore show ?thesis by (simp add: fun_eq_iff)
  next
    case (WDelete pid rel)
    obtain b m' where run: "mem_delete_relationship finish pid rel m = (Inr b, m')"
      by (cases "mem_relationships m pid") (auto simp: mem_delete_relationship_def)
    have "hash_unique finish m (rel_subject rel)" using hash_uniqueI [OF inj sub] w WDelete by simp
    from mem_delete_relationship_refines [OF wf this run] run WDelete show ?thesis by (simp add: fun_eq_iff)
  next
    case (WDeleteObject pid r ob)
    obtain m' where run: "mem_delete_object_relationships pid r ob m = (Inr (), m')"
      by (simp add: mem_delete_object_relationships_def)
    from mem_delete_object_refines [OF wf _ _ run] w run WDeleteObject show ?thesis by (simp add: fun_eq_iff)
  qed
  then show "mem_wf finish (apply_write finish w m)"
    and "mem_tuples (apply_write finish w m) = abs_write w (mem_tuples m)" by simp_all
  have new: "s \<in> abs_write w R q n \<Longrightarrow> s \<in> R q n \<or> s \<in> write_subjects w" for s R q n
    by (cases w) (auto split: if_splits)
  show "mem_subjects (apply_write finish w m) \<subseteq> S"
  proof
    fix s assume "s \<in> mem_subjects (apply_write finish w m)"
    then obtain q n where "s \<in> abs_write w (mem_tuples m) q n"
      using both by (auto simp: mem_subjects_def)
    from new [OF this] sub w(2) show "s \<in> S" unfolding mem_subjects_def by blast
  qed
qed

lemma apply_writes_refine:
  assumes "mem_wf finish m" and "inj_on finish S" and "mem_subjects m \<subseteq> S"
    and "\<forall>w \<in> set ws. write_slash_free w \<and> write_subjects w \<subseteq> S"
  shows "mem_wf finish (fold (apply_write finish) ws m) \<and>
    mem_tuples (fold (apply_write finish) ws m) = fold abs_write ws (mem_tuples m)"
  using assms
proof (induction ws arbitrary: m)
  case (Cons w ws)
  from Cons.prems(4) have w: "write_slash_free w" "write_subjects w \<subseteq> S" by simp_all
  from apply_write_refines [OF Cons.prems(1-3) w] Cons.IH [OF _ Cons.prems(2)] Cons.prems(4)
  show ?case by simp
qed simp

end
