(* ===== verification/Zanzibar_Properties.thy ===== *)
theory Zanzibar_Properties
  imports Zanzibar_Store
begin

text \<open>
  The properties of the \<open>zanzibar\<close> crate over its in-memory store, and a small file-sharing policy on
  which each of them is exercised: files have owners, readers (who may inherit from a parent file) and
  viewers (readers who are not blocked).
\<close>

section \<open>A policy and a store to evaluate\<close>

definition demo_file :: resource_def where
  "demo_file =
     with_relation (with_relation (with_relation (with_relation (with_relation (resource_new ''file'')
       (relation_direct ''owner''))
       (relation_direct ''parent''))
       (relation_direct ''blocked''))
       (relation_computed ''reader''
          (UnionOf [ComputedUserset ''owner'', This, TupleToUserset ''parent'' ''reader''])))
       (relation_computed ''viewer'' (Difference (ComputedUserset ''reader'') (ComputedUserset ''blocked'')))"

definition demo_policy :: policy where
  "demo_policy = with_resource (policy_new ''p'' ''demo'') demo_file"

definition demo_lookup :: lookup_table where
  "demo_lookup = add_policy lookup_new demo_policy"

definition demo_finish :: "subject \<Rightarrow> u64" where
  "demo_finish s = (case s of Entity d \<Rightarrow> of_nat (length (as_str d)) | EntitySet _ _ _ \<Rightarrow> 1000
                    | Wildcard \<Rightarrow> 2000 | TypedWildcard _ \<Rightarrow> 3000)"

definition alice :: did where "alice = Did ''did:key:alice''"
definition bob :: did where "bob = Did ''did:key:bob''"

definition demo_rels :: "relationship list" where
  "demo_rels = [relationship_new ''file'' ''2'' ''parent'' (EntitySet ''file'' ''1'' []),
                relationship_new ''file'' ''2'' ''blocked'' (Entity bob),
                relationship_new ''file'' ''1'' ''owner'' (Entity alice),
                relationship_new ''file'' ''1'' ''reader'' (Entity bob)]"

definition demo_store :: mem_store where
  "demo_store = \<lparr>mem_policies = [(''p'', demo_policy)],
     mem_relationships = [''p'' \<mapsto> map (\<lambda>rel. (storage_key demo_finish rel, rel)) demo_rels],
     mem_policy_counter = 0\<rparr>"

abbreviation demo_engine :: "mem_store engine" where
  "demo_engine \<equiv> \<lparr>eng_ops = mem_ops demo_finish, eng_lookup = demo_lookup\<rparr>"

lemma demo_mem_rels: "mem_rels demo_store q =
    (if q = ''p'' then map (\<lambda>rel. (storage_key demo_finish rel, rel)) demo_rels else [])"
  by (simp add: mem_rels_def demo_store_def)

lemma demo_wf: "mem_wf demo_finish demo_store"
  by (simp add: mem_wf_def demo_mem_rels demo_rels_def slash_free_def relationship_new_def)

lemma demo_hash:
  "hash_unique demo_finish demo_store (Entity alice)"
  "hash_unique demo_finish demo_store (Entity bob)"
  "hash_unique demo_finish demo_store Wildcard"
  by (simp_all add: hash_unique_def demo_mem_rels demo_rels_def relationship_new_def demo_finish_def
        alice_def bob_def)

lemma filter_keyed:
  "\<forall>rel \<in> set rels. slash_free rel \<Longrightarrow>
     filter (\<lambda>(k, _). starts_with k (relation_prefix r ob l)) (map (\<lambda>rel. (storage_key finish rel, rel)) rels) =
     map (\<lambda>rel. (storage_key finish rel, rel)) (filter (\<lambda>rel. rel_node rel = (r, ob, l)) rels)"
  by (induction rels) (auto simp: relation_prefix_exact)

lemma demo_rels_free: "\<forall>rel \<in> set demo_rels. slash_free rel"
  by (simp add: demo_rels_def slash_free_def relationship_new_def)

lemma demo_direct:
  "d \<in> {alice, bob} \<Longrightarrow> mem_check_permission_direct demo_finish ''p'' r ob l d demo_store =
     (Inr (\<exists>rel \<in> set demo_rels. rel_node rel = (r, ob, l) \<and> rel_subject rel = Entity d), demo_store)"
  using mem_direct_exact [OF demo_wf, of d "''p''" r ob l] demo_hash
  by (auto simp: direct_grant_def mem_tuples_iff demo_mem_rels demo_rels_def relationship_new_def)

lemma demo_subjects:
  "mem_get_relation_subjects ''p'' r ob l demo_store =
     (Inr (map rel_subject (filter (\<lambda>rel. rel_node rel = (r, ob, l)) demo_rels)), demo_store)"
  using filter_keyed [OF demo_rels_free] by (simp add: mem_subjects_eq demo_mem_rels comp_def)

lemma demo_targets:
  "mem_get_relation_targets ''p'' r ob l demo_store =
     (Inr (List.map_filter (\<lambda>rel. entity_set_target (rel_subject rel))
        (filter (\<lambda>rel. rel_node rel = (r, ob, l)) demo_rels)), demo_store)"
  using filter_keyed [OF demo_rels_free]
  by (simp add: mem_targets_eq demo_mem_rels List.map_filter_def comp_def filter_map)

lemma demo_expressions:
  "get_expression demo_lookup ''p'' ''file'' ''owner'' = Inr This"
  "get_expression demo_lookup ''p'' ''file'' ''blocked'' = Inr This"
  "get_expression demo_lookup ''p'' ''file'' ''reader'' =
     Inr (UnionOf [ComputedUserset ''owner'', This, TupleToUserset ''parent'' ''reader''])"
  "get_expression demo_lookup ''p'' ''file'' ''viewer'' =
     Inr (Difference (ComputedUserset ''reader'') (ComputedUserset ''blocked''))"
  by (simp_all add: get_expression_def demo_lookup_def demo_policy_def demo_file_def resource_map_of_def
        relation_map_of_def with_resource_def policy_new_def with_relation_def resource_new_def
        relation_direct_def relation_computed_def actor_list_def)

lemmas demo_eval = check_def evaluate_expr_cached_def cached_with_def cache_new_def cache_get_def cache_set_def
  enter_def charge_def on_backend_def this_eval_def computed_eval_def ttu_eval_def difference_eval_def
  Let_def evaluate_expr_inner_numeral MAX_EVALUATION_DEPTH_def MAX_EVALUATION_STEPS_def st_bind_def mem_ops_def
  demo_direct demo_subjects demo_targets demo_expressions demo_rels_def relationship_new_def
  entity_set_target_def List.map_filter_def

lemma demo_run1: "fst (check demo_engine ''p'' ''file'' ''2'' ''viewer'' alice demo_store) = Inr True"
  by (simp add: demo_eval alice_def bob_def cong: st_bind_lazy)

lemma demo_run2: "fst (check demo_engine ''p'' ''file'' ''2'' ''viewer'' bob demo_store) = Inr False"
  by (simp add: demo_eval alice_def bob_def cong: st_bind_lazy)

lemma demo_explain:
  "map_sum id expl_granted (fst (explain demo_engine ''p'' ''file'' ''2'' ''viewer'' alice demo_store)) = Inr True"
  by (simp add: explain_def evaluate_expr_with_trace_numeral trace_difference_def on_cache_def add_step_def
        demo_eval alice_def bob_def cong: st_bind_lazy)


section \<open>Permission checks\<close>

text \<open>C1. Over the in-memory store, whenever \<open>check\<close> returns Ok, the boolean it returns is the answer of
  the specification: \<open>true\<close> exactly when the stored tuples and the policy grant the subject the relation
  on the object. The trail, the memoisation, the taint and the limits change no answer. The store is
  well-formed, and the subject's hash and the wildcard's do not collide with a stored subject's.\<close>

theorem memory_check_correct:
  assumes "mem_wf finish m" and "hash_unique finish m (Entity sbj)" and "hash_unique finish m Wildcard"
    and "fst (check \<lparr>eng_ops = mem_ops finish, eng_lookup = lk\<rparr> pid r ob l sbj m) = Inr b"
  shows "b \<longleftrightarrow> permitted lk (mem_tuples m) pid sbj (r, ob, l)"
  using mem.check_ok [of finish m sbj m lk pid r ob l "Inr b"] assms by (metis prod.collapse)

theorem memory_check_correct_witness:
  "fst (check demo_engine ''p'' ''file'' ''2'' ''viewer'' alice demo_store) = Inr True \<and>
   permitted demo_lookup (mem_tuples demo_store) ''p'' alice (''file'', ''2'', ''viewer'')"
  using memory_check_correct [OF demo_wf demo_hash(1,3) demo_run1] demo_run1 by blast

text \<open>C14. A batch shares one cache and one budget between its requests. Every Ok answer of \<open>check_many\<close>
  is still the answer of the specification for its own request, also after a request that failed.\<close>

theorem memory_check_many_correct:
  assumes "mem_wf finish m" and "hash_unique finish m Wildcard"
    and "\<forall>q \<in> set reqs. hash_unique finish m (Entity (req_subject q))"
    and "fst (check_many \<lparr>eng_ops = mem_ops finish, eng_lookup = lk\<rparr> reqs m) = rs"
  shows "list_all2 (\<lambda>q res. \<forall>b. res = Inr b \<longrightarrow>
           (b \<longleftrightarrow> permitted lk (mem_tuples m) (req_policy_id q) (req_subject q)
                    (req_resource q, req_object_id q, req_relation q))) reqs rs"
proof -
  obtain c where "check_many_loop \<lparr>eng_ops = mem_ops finish, eng_lookup = lk\<rparr> reqs (cache_new m) = (rs, c)"
    using assms(4) by (auto simp: check_many_def split: prod.splits)
  from mem.check_many_loop_ok [OF _ this] assms(1-3) show ?thesis by auto
qed

theorem memory_check_many_correct_witness:
  "list_all2 (\<lambda>q res. \<forall>b. res = Inr b \<longrightarrow>
      (b \<longleftrightarrow> permitted demo_lookup (mem_tuples demo_store) (req_policy_id q) (req_subject q)
               (req_resource q, req_object_id q, req_relation q)))
     [\<lparr>req_policy_id = ''p'', req_resource = ''file'', req_object_id = ''2'', req_relation = ''viewer'',
       req_subject = alice\<rparr>,
      \<lparr>req_policy_id = ''p'', req_resource = ''file'', req_object_id = ''2'', req_relation = ''viewer'',
       req_subject = bob\<rparr>]
     (fst (check_many demo_engine
       [\<lparr>req_policy_id = ''p'', req_resource = ''file'', req_object_id = ''2'', req_relation = ''viewer'',
         req_subject = alice\<rparr>,
        \<lparr>req_policy_id = ''p'', req_resource = ''file'', req_object_id = ''2'', req_relation = ''viewer'',
         req_subject = bob\<rparr>] demo_store))"
  by (rule memory_check_many_correct [OF demo_wf demo_hash(3) _ refl]) (simp add: demo_hash)

text \<open>C15. \<open>explain\<close> is a second evaluator, with a trace and without taint. Whenever both return Ok, the
  decision it reports is the one \<open>check\<close> returns.\<close>

theorem memory_explain_agrees_with_check:
  assumes "mem_wf finish m" and "hash_unique finish m (Entity sbj)" and "hash_unique finish m Wildcard"
    and "fst (explain \<lparr>eng_ops = mem_ops finish, eng_lookup = lk\<rparr> pid r ob l sbj m) = Inr x"
    and "fst (check \<lparr>eng_ops = mem_ops finish, eng_lookup = lk\<rparr> pid r ob l sbj m) = Inr b"
  shows "expl_granted x = b"
  using mem.explain_ok [of finish m sbj m lk pid r ob l x] mem.check_ok [of finish m sbj m lk pid r ob l "Inr b"] assms
  by (metis prod.collapse)

theorem memory_explain_agrees_with_check_witness:
  "\<exists>x. fst (explain demo_engine ''p'' ''file'' ''2'' ''viewer'' alice demo_store) = Inr x \<and>
       fst (check demo_engine ''p'' ''file'' ''2'' ''viewer'' alice demo_store) = Inr (expl_granted x)"
proof -
  obtain x where x: "fst (explain demo_engine ''p'' ''file'' ''2'' ''viewer'' alice demo_store) = Inr x"
    using demo_explain by (cases "fst (explain demo_engine ''p'' ''file'' ''2'' ''viewer'' alice demo_store)") auto
  with memory_explain_agrees_with_check [OF demo_wf demo_hash(1,3) x demo_run1] demo_run1 show ?thesis by simp
qed

text \<open>C35. Limits. A batch never spends more than \<open>MAX_EVALUATION_STEPS\<close> in total, returns one result per
  request, and over the in-memory store (whose reads cannot fail) every error in it is a step or depth
  limit, an indeterminate exclusion, or a policy, resource or relation the lookup table does not have.\<close>

theorem memory_check_many_limits:
  "case check_many_loop \<lparr>eng_ops = mem_ops finish, eng_lookup = lk\<rparr> reqs (cache_new m) of (rs, c) \<Rightarrow>
     budget_steps c \<le> MAX_EVALUATION_STEPS \<and> length rs = length reqs \<and>
     list_all (\<lambda>res. case res of Inr _ \<Rightarrow> True | Inl e \<Rightarrow> eval_error lk (\<lambda>_. False) e) rs"
proof -
  have "store_errors (mem_ops finish) (\<lambda>_. False)"
    by (simp add: store_errors_def mem_ops_def mem_direct_eq mem_subjects_eq mem_targets_eq)
  moreover have "within_budget (cache_new m)" by (simp add: within_budget_def cache_new_def)
  ultimately show ?thesis
    using check_many_loop_safe [of "\<lparr>eng_ops = mem_ops finish, eng_lookup = lk\<rparr>" _ "cache_new m" reqs]
    by (auto simp: within_budget_def list_all_iff split: prod.splits sum.splits)
qed


section \<open>The store\<close>

text \<open>C16. Any sequence of \<open>store_relationship\<close>, \<open>delete_relationship\<close> and \<open>delete_object_relationships\<close>
  calls on the in-memory store keeps it well-formed and has exactly the effect of the corresponding
  insertions and removals on the set of tuples, provided the fields contain no separator (which
  \<open>Relationship::try_new\<close> enforces) and the hash separates the subjects involved.\<close>

theorem memory_writes_refine_tuple_set:
  assumes "mem_wf finish m" and "inj_on finish S" and "mem_subjects m \<subseteq> S"
    and "\<forall>w \<in> set ws. write_slash_free w \<and> write_subjects w \<subseteq> S"
  shows "mem_wf finish (fold (apply_write finish) ws m) \<and>
    mem_tuples (fold (apply_write finish) ws m) = fold abs_write ws (mem_tuples m)"
  using assms by (rule apply_writes_refine)

lemma demo_tuples: "mem_tuples demo_store q n =
    (if q = ''p'' then set (map rel_subject (filter (\<lambda>rel. rel_node rel = n) demo_rels)) else {})"
  by (auto simp: mem_tuples_def demo_mem_rels image_comp comp_def)

theorem memory_writes_refine_tuple_set_witness:
  "let ws = [WStore ''p'' (relationship_new ''file'' ''3'' ''owner'' (Entity bob)),
             WDelete ''p'' (relationship_new ''file'' ''2'' ''blocked'' (Entity bob)),
             WDeleteObject ''p'' ''file'' ''1''];
       m = fold (apply_write demo_finish) ws demo_store
   in mem_tuples m ''p'' (''file'', ''3'', ''owner'') = {Entity bob} \<and>
      mem_tuples m ''p'' (''file'', ''2'', ''blocked'') = {} \<and>
      mem_tuples m ''p'' (''file'', ''1'', ''owner'') = {}"
proof -
  let ?S = "{Entity alice, Entity bob, EntitySet ''file'' ''1'' []}"
  have "inj_on demo_finish ?S" by (simp add: demo_finish_def alice_def bob_def)
  moreover have "mem_subjects demo_store \<subseteq> ?S"
  proof
    fix s assume "s \<in> mem_subjects demo_store"
    then obtain q n where "s \<in> mem_tuples demo_store q n" unfolding mem_subjects_def by blast
    then have "s \<in> rel_subject ` set demo_rels" unfolding demo_tuples by (auto split: if_splits)
    then show "s \<in> ?S" by (auto simp: demo_rels_def relationship_new_def)
  qed
  ultimately show ?thesis
    using memory_writes_refine_tuple_set [OF demo_wf, of ?S
      "[WStore ''p'' (relationship_new ''file'' ''3'' ''owner'' (Entity bob)),
        WDelete ''p'' (relationship_new ''file'' ''2'' ''blocked'' (Entity bob)),
        WDeleteObject ''p'' ''file'' ''1'']"]
    by (simp add: Let_def slash_free_def relationship_new_def demo_tuples demo_rels_def)
qed

end
