(* ===== verification/Expression_Parser.thy ===== *)
theory Expression_Parser
  imports Zanzibar_Types
begin

text \<open>
  The parser of relation expressions (\<open>zanzibar/src/expression/parser.rs\<close>), for ASCII input: \<open>trim\<close>
  removes ASCII white space. Its operators have equal precedence and associate to the left, which it
  achieves by splitting at the rightmost operator outside parentheses. It is shown to invert the
  printer of \<open>expression/mod.rs\<close> on expressions in the shape the parser produces.
\<close>

section \<open>The parser\<close>

definition is_space :: "char \<Rightarrow> bool" where
  "is_space b = (b \<in> {CHR 0x20, CHR 0x09, CHR 0x0A, CHR 0x0B, CHR 0x0C, CHR 0x0D})"

definition trim :: "string \<Rightarrow> string" where
  "trim s = rev (dropWhile is_space (rev (dropWhile is_space s)))"

text \<open>The loop of \<open>is_fully_parenthesized\<close>: false when the depth returns to zero before the end.\<close>

fun fully_parenthesized_loop :: "int \<Rightarrow> string \<Rightarrow> bool" where
  "fully_parenthesized_loop depth [] = True"
| "fully_parenthesized_loop depth (c # cs) =
     (if c = CHR ''('' then fully_parenthesized_loop (depth + 1) cs
      else if c = CHR '')'' then
        (if depth - 1 = 0 \<and> cs \<noteq> [] then False else fully_parenthesized_loop (depth - 1) cs)
      else fully_parenthesized_loop depth cs)"

definition is_fully_parenthesized :: "string \<Rightarrow> bool" where
  "is_fully_parenthesized s =
     (s \<noteq> [] \<and> hd s = CHR ''('' \<and> last s = CHR '')'' \<and> fully_parenthesized_loop 0 s)"

text \<open>The loop of \<open>find_rightmost_operator\<close>, at index \<open>i\<close> with the best match so far.\<close>

fun operator_loop :: "int \<Rightarrow> nat \<Rightarrow> (nat \<times> char) option \<Rightarrow> string \<Rightarrow> (nat \<times> char) option" where
  "operator_loop depth i rightmost [] = rightmost"
| "operator_loop depth i rightmost (c # cs) =
     (if c = CHR ''('' then operator_loop (depth + 1) (i + 1) rightmost cs
      else if c = CHR '')'' then operator_loop (depth - 1) (i + 1) rightmost cs
      else if (c = CHR ''+'' \<or> c = CHR ''&'') \<and> depth = 0
        then operator_loop depth (i + 1) (Some (i, c)) cs
      else if c = CHR ''-'' \<and> depth = 0 then
        (if cs \<noteq> [] \<and> hd cs = CHR ''>'' then operator_loop depth (i + 1) rightmost cs
         else operator_loop depth (i + 1) (Some (i, CHR ''-'')) cs)
      else operator_loop depth (i + 1) rightmost cs)"

definition find_rightmost_operator :: "string \<Rightarrow> (nat \<times> char) option" where
  "find_rightmost_operator s = operator_loop 0 0 None s"

fun find_invalid :: "string \<Rightarrow> char option" where
  "find_invalid [] = None"
| "find_invalid (c # cs) =
     (if \<not> is_ascii_alphanumeric c \<and> c \<noteq> CHR ''_'' then Some c else find_invalid cs)"

definition validate_identifier :: "string \<Rightarrow> zerror + unit" where
  "validate_identifier s =
     (if s = [] then Inl (InvalidExpression ''empty identifier'')
      else if \<not> is_ascii_alphabetic (hd s) \<and> hd s \<noteq> CHR ''_''
        then Inl (InvalidExpression (''identifier must start with letter or underscore: '' @ quote s))
      else case find_invalid s of
        Some c \<Rightarrow> Inl (InvalidExpression (''invalid character '' @ quote [c] @ '' in identifier: '' @ quote s))
      | None \<Rightarrow> Inr ())"

text \<open>\<open>input.find("->")\<close>.\<close>

fun find_arrow :: "string \<Rightarrow> nat option" where
  "find_arrow (c # d # cs) =
     (if c = CHR ''-'' \<and> d = CHR ''>'' then Some 0 else map_option Suc (find_arrow (d # cs)))"
| "find_arrow _ = None"

definition parse_term :: "string \<Rightarrow> zerror + relation_expression" where
  "parse_term input0 =
     (let input = trim input0 in
      if input = ''_this'' then Inr This
      else case find_arrow input of
        Some arrow_pos \<Rightarrow>
          let tuple_relation = trim (take arrow_pos input);
              computed_relation = trim (drop (arrow_pos + 2) input)
          in if tuple_relation = [] then
               Inl (InvalidExpression ''empty tuple relation in TupleToUserset'')
             else if computed_relation = [] then
               Inl (InvalidExpression ''empty computed relation in TupleToUserset'')
             else
               res_bind (validate_identifier tuple_relation) (\<lambda>_.
               res_bind (validate_identifier computed_relation) (\<lambda>_.
               Inr (TupleToUserset tuple_relation computed_relation)))
      | None \<Rightarrow>
          res_bind (validate_identifier input) (\<lambda>_. Inr (ComputedUserset input)))"

definition union_operands :: "relation_expression \<Rightarrow> relation_expression list" where
  "union_operands e = (case e of UnionOf es \<Rightarrow> es | _ \<Rightarrow> [e])"

definition merge_union :: "relation_expression \<Rightarrow> relation_expression \<Rightarrow> relation_expression" where
  "merge_union left right = UnionOf (union_operands left @ union_operands right)"

definition intersection_operands :: "relation_expression \<Rightarrow> relation_expression list" where
  "intersection_operands e = (case e of IntersectionOf es \<Rightarrow> es | _ \<Rightarrow> [e])"

definition merge_intersection :: "relation_expression \<Rightarrow> relation_expression \<Rightarrow> relation_expression" where
  "merge_intersection left right = IntersectionOf (intersection_operands left @ intersection_operands right)"

primrec parse_bounded :: "nat \<Rightarrow> string \<Rightarrow> zerror + relation_expression" where
  "parse_bounded 0 input0 = Inl (InvalidExpression ''expression exceeds nesting limit of 128'')"
| "parse_bounded (Suc remaining) input0 =
     (let input = trim input0 in
      if input = [] then Inl (InvalidExpression ''empty expression'')
      else if is_fully_parenthesized input then parse_bounded remaining (butlast (tl input))
      else case find_rightmost_operator input of
        Some (pos, op) \<Rightarrow>
          res_bind (parse_bounded remaining (take pos input)) (\<lambda>left.
          res_bind (parse_bounded remaining (drop (pos + 1) input)) (\<lambda>right.
          Inr (if op = CHR ''+'' then merge_union left right
               else if op = CHR ''&'' then merge_intersection left right
               else Difference left right)))
      | None \<Rightarrow> parse_term input)"

lemma parse_bounded_numeral:
  "parse_bounded (numeral n) input0 =
     (let input = trim input0 in
      if input = [] then Inl (InvalidExpression ''empty expression'')
      else if is_fully_parenthesized input then parse_bounded (pred_numeral n) (butlast (tl input))
      else case find_rightmost_operator input of
        Some (pos, op) \<Rightarrow>
          res_bind (parse_bounded (pred_numeral n) (take pos input)) (\<lambda>left.
          res_bind (parse_bounded (pred_numeral n) (drop (pos + 1) input)) (\<lambda>right.
          Inr (if op = CHR ''+'' then merge_union left right
               else if op = CHR ''&'' then merge_intersection left right
               else Difference left right)))
      | None \<Rightarrow> parse_term input)"
  by (simp only: numeral_eq_Suc parse_bounded.simps)

definition parse :: "string \<Rightarrow> zerror + relation_expression" where
  "parse input = parse_bounded 128 input"


section \<open>Printed expressions\<close>

text \<open>What the parser can produce: identifiers it accepts, operand lists of at least two, and no union
  directly inside a union or intersection directly inside an intersection.\<close>

definition is_identifier :: "string \<Rightarrow> bool" where
  "is_identifier s \<longleftrightarrow> validate_identifier s = Inr () \<and> s \<noteq> ''_this''"

fun canonical :: "relation_expression \<Rightarrow> bool" where
  "canonical This = True"
| "canonical (ComputedUserset r) = is_identifier r"
| "canonical (TupleToUserset t r) = (validate_identifier t = Inr () \<and> validate_identifier r = Inr ())"
| "canonical (UnionOf es) = (2 \<le> length es \<and> (\<forall>e \<in> set es. canonical e \<and> union_operands e = [e]))"
| "canonical (IntersectionOf es) =
     (2 \<le> length es \<and> (\<forall>e \<in> set es. canonical e \<and> intersection_operands e = [e]))"
| "canonical (Difference b s) = (canonical b \<and> canonical s)"

text \<open>The nesting the parser needs for a printed expression: an operand list of length \<open>n\<close> is split
  \<open>n - 1\<close> times from the right.\<close>

fun nesting :: "relation_expression \<Rightarrow> nat" where
  "nesting (UnionOf es) = length es + Max (insert 0 (nesting ` set es))"
| "nesting (IntersectionOf es) = length es + Max (insert 0 (nesting ` set es))"
| "nesting (Difference b s) = 2 + max (nesting b) (nesting s)"
| "nesting _ = 1"

text \<open>A string is neutral from depth \<open>k\<close> when scanning it at any such depth finds no operator and
  comes back to the same depth.\<close>

definition neutral :: "int \<Rightarrow> string \<Rightarrow> bool" where
  "neutral k s \<longleftrightarrow> (\<forall>d i acc rest. k \<le> d \<longrightarrow>
     operator_loop d i acc (s @ rest) = operator_loop d (i + length s) acc rest \<and>
     (1 \<le> d \<longrightarrow> fully_parenthesized_loop d (s @ rest) = fully_parenthesized_loop d rest))"

lemma neutral_append: "neutral k s \<Longrightarrow> neutral k t \<Longrightarrow> neutral k (s @ t)"
  by (simp add: neutral_def add.assoc)

lemma neutral_mono: "neutral k s \<Longrightarrow> k \<le> l \<Longrightarrow> neutral l s"
  by (simp add: neutral_def)

lemma neutral_Nil: "neutral k []"
  by (simp add: neutral_def)

lemma neutral_inside: "c \<noteq> CHR ''('' \<Longrightarrow> c \<noteq> CHR '')'' \<Longrightarrow> neutral 1 [c]"
  by (auto simp: neutral_def)

lemma neutral_plain:
  "\<forall>c \<in> set s. c \<notin> {CHR ''('', CHR '')'', CHR ''+'', CHR ''&'', CHR ''-''} \<Longrightarrow> neutral k s"
proof (induction s)
  case (Cons c s)
  have "neutral k [c]" using Cons.prems by (auto simp: neutral_def)
  with Cons neutral_append [of k "[c]" s] show ?case by simp
qed (rule neutral_Nil)

lemma neutral_arrow: "neutral k ''->''"
  by (auto simp: neutral_def)

lemma neutral_parens: "neutral 1 s \<Longrightarrow> neutral 0 (''('' @ s @ '')'')"
  by (auto simp: neutral_def algebra_simps)


section \<open>Atoms\<close>

lemma find_invalid_None: "find_invalid s = None \<longleftrightarrow> (\<forall>c \<in> set s. is_ascii_alphanumeric c \<or> c = CHR ''_'')"
  by (induction s) auto

lemma validate_identifier_iff:
  "validate_identifier s = Inr u \<longleftrightarrow> s \<noteq> [] \<and> (is_ascii_alphabetic (hd s) \<or> hd s = CHR ''_'') \<and>
     (\<forall>c \<in> set s. is_ascii_alphanumeric c \<or> c = CHR ''_'')"
  by (auto simp: validate_identifier_def find_invalid_None [symmetric] split: option.splits)

definition ident_char :: "char \<Rightarrow> bool" where
  "ident_char c \<longleftrightarrow> is_ascii_alphanumeric c \<or> c = CHR ''_''"

lemma ident_char_not:
  "ident_char c \<Longrightarrow> c \<notin> {CHR ''('', CHR '')'', CHR ''+'', CHR ''&'', CHR ''-'', CHR ''>''} \<and> \<not> is_space c"
  by (auto simp: ident_char_def is_ascii_alphanumeric_def is_ascii_alphabetic_def is_ascii_digit_def
        byte_between_def is_space_def)

lemma identD:
  assumes "validate_identifier s = Inr ()"
  shows "s \<noteq> []" "\<forall>c \<in> set s. ident_char c" "neutral k s" "CHR ''-'' \<notin> set s"
    "hd s \<noteq> CHR ''(''" "\<not> is_space (hd s)" "\<not> is_space (last s)"
proof -
  show s: "s \<noteq> []" and all: "\<forall>c \<in> set s. ident_char c"
    using assms by (auto simp: validate_identifier_iff ident_char_def)
  show "neutral k s" by (rule neutral_plain) (use all ident_char_not in blast)
  show "CHR ''-'' \<notin> set s" using all ident_char_not by blast
  show "hd s \<noteq> CHR ''(''" "\<not> is_space (hd s)" "\<not> is_space (last s)"
    using ident_char_not s all hd_in_set last_in_set by blast+
qed

definition edges_ok :: "string \<Rightarrow> bool" where
  "edges_ok s \<longleftrightarrow> s \<noteq> [] \<and> \<not> is_space (hd s) \<and> \<not> is_space (last s)"

lemma trim_id: "edges_ok s \<Longrightarrow> trim s = s"
proof -
  assume s: "edges_ok s"
  then have "dropWhile is_space s = s" by (cases s) (auto simp: edges_ok_def)
  moreover from s have "dropWhile is_space (rev s) = rev s"
    by (cases s rule: rev_cases) (auto simp: edges_ok_def)
  ultimately show ?thesis by (simp add: trim_def)
qed

lemma trim_space_right: "edges_ok s \<Longrightarrow> trim (s @ '' '') = s"
proof -
  assume s: "edges_ok s"
  then have "dropWhile is_space (s @ '' '') = s @ '' ''" by (cases s) (auto simp: edges_ok_def)
  moreover from s have "dropWhile is_space (rev s) = rev s"
    by (cases s rule: rev_cases) (auto simp: edges_ok_def)
  ultimately show ?thesis by (simp add: trim_def is_space_def)
qed

lemma trim_space_left: "trim (CHR '' '' # s) = trim s"
  by (simp add: trim_def is_space_def)

lemma edges_append: "edges_ok s \<Longrightarrow> edges_ok t \<Longrightarrow> edges_ok (s @ u @ t)"
  by (auto simp: edges_ok_def)

lemma find_arrow_none: "CHR ''-'' \<notin> set s \<Longrightarrow> find_arrow s = None"
  by (induction s rule: find_arrow.induct) auto

lemma find_arrow_some: "CHR ''-'' \<notin> set s \<Longrightarrow> find_arrow (s @ ''->'' @ t) = Some (length s)"
proof (induction s)
  case (Cons c s)
  then show ?case by (cases s) auto
qed simp

lemma printed_atom:
  assumes "\<not> is_fully_parenthesized s" and "edges_ok s" and "neutral 0 s" and "trim input = s"
  shows "parse_bounded (Suc k) input = parse_term s"
proof -
  have "find_rightmost_operator s = None"
    using assms(3) unfolding find_rightmost_operator_def neutral_def
    by (metis append_Nil2 operator_loop.simps(1) order_refl)
  with assms show ?thesis by (simp add: edges_ok_def)
qed

text \<open>A string that does not open with a parenthesis, or closes the first one early, is not fully
  parenthesized.\<close>

lemma not_fully_parenthesized_hd: "hd s \<noteq> CHR ''('' \<Longrightarrow> \<not> is_fully_parenthesized s"
  by (simp add: is_fully_parenthesized_def)

lemma fully_parenthesized_wrap:
  "neutral 1 s \<Longrightarrow> is_fully_parenthesized (''('' @ s @ '')'')"
  by (simp add: is_fully_parenthesized_def neutral_def)

lemma not_fully_parenthesized_early:
  "neutral 1 s \<Longrightarrow> rest \<noteq> [] \<Longrightarrow> \<not> is_fully_parenthesized ((''('' @ s @ '')'') @ rest)"
  by (simp add: is_fully_parenthesized_def neutral_def)

lemma parse_term_this: "parse_term ''_this'' = Inr This"
  by (simp add: parse_term_def trim_def is_space_def)

lemma ident_edges: "validate_identifier s = Inr () \<Longrightarrow> edges_ok s"
  using identD(1,6,7) by (simp add: edges_ok_def)

lemma parse_term_identifier: "is_identifier r \<Longrightarrow> parse_term r = Inr (ComputedUserset r)"
  unfolding is_identifier_def parse_term_def Let_def
  by (simp only: trim_id [OF ident_edges] find_arrow_none [OF identD(4)]) simp

lemma parse_term_arrow:
  assumes t: "validate_identifier t = Inr ()" and r: "validate_identifier r = Inr ()"
  shows "parse_term (t @ ''->'' @ r) = Inr (TupleToUserset t r)"
proof -
  have e: "edges_ok t" "edges_ok r" using ident_edges [OF t] ident_edges [OF r] by simp_all
  then have trim: "trim (t @ ''->'' @ r) = t @ ''->'' @ r" by (intro trim_id edges_append)
  have "CHR ''-'' \<in> set (t @ ''->'' @ r)" and "CHR ''-'' \<notin> set ''_this''" by simp_all
  then have other: "t @ ''->'' @ r \<noteq> ''_this''" by metis
  have arrow: "find_arrow (t @ ''->'' @ r) = Some (length t)"
    by (rule find_arrow_some) (rule identD(4) [OF t])
  have parts: "trim (take (length t) (t @ ''->'' @ r)) = t" "trim (drop (length t + 2) (t @ ''->'' @ r)) = r"
    using trim_id [OF e(1)] trim_id [OF e(2)] by simp_all
  show ?thesis
    unfolding parse_term_def Let_def trim
    by (simp only: other if_False arrow option.case parts identD(1) [OF t] identD(1) [OF r] t r res_bind_simps)
qed


section \<open>Round trip\<close>

text \<open>A printed expression is neutral, and compound ones are exactly one pair of parentheses.\<close>

definition wrapped :: "string \<Rightarrow> bool" where
  "wrapped s \<longleftrightarrow> (\<exists>body. s = ''('' @ body @ '')'' \<and> neutral 1 body)"

definition printed :: "string \<Rightarrow> bool" where
  "printed s \<longleftrightarrow> edges_ok s \<and> neutral 0 s \<and> (hd s \<noteq> CHR ''('' \<or> wrapped s)"

lemma printed_wrapped: "wrapped s \<Longrightarrow> printed s"
  unfolding printed_def wrapped_def using neutral_parens
  by (auto simp: edges_ok_def is_space_def)

lemma printed_neutral: "printed s \<Longrightarrow> neutral 1 s"
  unfolding printed_def using neutral_mono [of 0 s 1] by simp

lemma join_Cons: "ps \<noteq> [] \<Longrightarrow> join sep (p # ps) = p @ sep @ join sep ps"
  by (cases ps) (simp_all add: join_def)

lemma join_single: "join sep [p] = p"
  by (simp add: join_def)

lemma join_snoc: "ps \<noteq> [] \<Longrightarrow> join sep (ps @ [p]) = join sep ps @ sep @ p"
  by (cases ps) (simp_all add: join_def)

lemma neutral_join:
  "\<forall>p \<in> set ps. neutral 1 p \<Longrightarrow> neutral 1 sep \<Longrightarrow> neutral 1 (join sep ps)"
proof (induction ps)
  case (Cons p ps)
  then show ?case
    by (cases "ps = []") (auto simp: join_single join_Cons intro!: neutral_append)
qed (simp add: join_def neutral_Nil)

lemma neutral_sep: "c \<notin> {CHR ''('', CHR '')''} \<Longrightarrow> neutral 1 [CHR '' '', c, CHR '' '']"
  using neutral_append [OF neutral_inside [of "CHR '' ''"]
      neutral_append [OF neutral_inside [of c] neutral_inside [of "CHR '' ''"]]] by simp

lemma printed_expression: "canonical e \<Longrightarrow> printed (expression_to_string e)"
proof (induction e)
  case This
  have "neutral 0 ''_this''" by (rule neutral_plain) simp
  then show ?case by (simp add: printed_def edges_ok_def is_space_def)
next
  case (ComputedUserset r)
  then have "validate_identifier r = Inr ()" by (simp add: is_identifier_def)
  then show ?case using identD(3,5) ident_edges by (simp add: printed_def)
next
  case (TupleToUserset t r)
  then have i: "validate_identifier t = Inr ()" "validate_identifier r = Inr ()" by simp_all
  have "neutral 0 (t @ ''->'' @ r)"
    by (intro neutral_append neutral_arrow identD(3) i)
  moreover have "edges_ok (t @ ''->'' @ r)" by (intro edges_append ident_edges i)
  moreover have "hd (t @ ''->'' @ r) \<noteq> CHR ''(''" using identD(1,5) [OF i(1)] by simp
  ultimately show ?case by (simp add: printed_def)
next
  case (UnionOf es)
  have "neutral 1 (join '' + '' (map expression_to_string es))"
    using UnionOf by (intro neutral_join neutral_sep) (auto intro: printed_neutral)
  then show ?case by (intro printed_wrapped) (auto simp: wrapped_def)
next
  case (IntersectionOf es)
  have "neutral 1 (join '' & '' (map expression_to_string es))"
    using IntersectionOf by (intro neutral_join neutral_sep) (auto intro: printed_neutral)
  then show ?case by (intro printed_wrapped) (auto simp: wrapped_def)
next
  case (Difference b s)
  have "neutral 1 (expression_to_string b @ '' - '' @ expression_to_string s)"
    using Difference by (intro neutral_append neutral_sep) (auto intro: printed_neutral)
  then show ?case by (intro printed_wrapped) (auto simp: wrapped_def)
qed

lemma printed_prefix_not_parenthesized:
  "printed s \<Longrightarrow> rest \<noteq> [] \<Longrightarrow> \<not> is_fully_parenthesized (s @ rest)"
  unfolding printed_def wrapped_def
  using not_fully_parenthesized_early not_fully_parenthesized_hd
  by (metis edges_ok_def hd_append2)

text \<open>One split: the parser finds the last operator between two printed operands.\<close>

lemma parse_split:
  assumes op: "op \<in> {CHR ''+'', CHR ''&'', CHR ''-''}"
    and scan: "\<And>acc i rest. \<exists>acc'. operator_loop 0 i acc (l @ rest) = operator_loop 0 (i + length l) acc' rest"
    and edges: "edges_ok l" "printed r" and open_: "\<not> is_fully_parenthesized (l @ [CHR '' '', op, CHR '' ''] @ r)"
    and input: "trim input = l @ [CHR '' '', op, CHR '' ''] @ r"
  shows "parse_bounded (Suc k) input =
     res_bind (parse_bounded k (l @ '' '')) (\<lambda>left. res_bind (parse_bounded k (CHR '' '' # r)) (\<lambda>right.
       Inr (if op = CHR ''+'' then merge_union left right
            else if op = CHR ''&'' then merge_intersection left right else Difference left right)))"
proof -
  let ?s = "l @ [CHR '' '', op, CHR '' ''] @ r"
  have r: "operator_loop 0 i acc r = acc" for i acc
    using edges(2) unfolding printed_def neutral_def by (metis append_Nil2 operator_loop.simps(1) order_refl)
  obtain acc' where "operator_loop 0 0 None ?s = operator_loop 0 (length l) acc' ([CHR '' '', op, CHR '' ''] @ r)"
    using scan [of 0 None "[CHR '' '', op, CHR '' ''] @ r"] by auto
  also have "\<dots> = Some (length l + 1, op)" using op r by auto
  finally have "find_rightmost_operator ?s = Some (length l + 1, op)"
    by (simp add: find_rightmost_operator_def)
  moreover have "take (length l + 1) ?s = l @ '' ''" "drop (length l + 1 + 1) ?s = CHR '' '' # r" by simp_all
  moreover have "?s \<noteq> []" by simp
  ultimately show ?thesis
    unfolding parse_bounded.simps Let_def input using open_
    by (simp only: if_False option.case prod.case)
qed

lemma scan_printed: "printed l \<Longrightarrow> \<exists>acc'. operator_loop 0 i acc (l @ rest) = operator_loop 0 (i + length l) acc' rest"
  unfolding printed_def neutral_def by blast

lemma scan_join:
  assumes "\<forall>p \<in> set ps. printed p" and "op \<in> {CHR ''+'', CHR ''&''}"
  shows "\<exists>acc'. operator_loop 0 i acc (join [CHR '' '', op, CHR '' ''] ps @ rest) =
           operator_loop 0 (i + length (join [CHR '' '', op, CHR '' ''] ps)) acc' rest"
  using assms(1)
proof (induction ps arbitrary: i acc)
  case (Cons p ps)
  let ?sep = "[CHR '' '', op, CHR '' '']"
  show ?case
  proof (cases "ps = []")
    case True
    with Cons.prems show ?thesis using scan_printed by (simp add: join_single)
  next
    case False
    obtain acc1 where 1: "operator_loop 0 i acc (p @ ?sep @ join ?sep ps @ rest) =
        operator_loop 0 (i + length p) acc1 (?sep @ join ?sep ps @ rest)"
      using Cons.prems scan_printed by (metis list.set_intros(1))
    have 2: "operator_loop 0 (i + length p) acc1 (?sep @ join ?sep ps @ rest) =
        operator_loop 0 (Suc (Suc (Suc (i + length p)))) (Some (Suc (i + length p), op)) (join ?sep ps @ rest)"
      using assms(2) by auto
    obtain acc2 where 3: "operator_loop 0 (Suc (Suc (Suc (i + length p)))) (Some (Suc (i + length p), op))
          (join ?sep ps @ rest) =
        operator_loop 0 (Suc (Suc (Suc (i + length p))) + length (join ?sep ps)) acc2 rest"
      using Cons.IH [of "Suc (Suc (Suc (i + length p)))" "Some (Suc (i + length p), op)"] Cons.prems by auto
    have len: "i + length (join ?sep (p # ps)) = Suc (Suc (Suc (i + length p))) + length (join ?sep ps)"
      and eq: "join ?sep (p # ps) @ rest = p @ ?sep @ join ?sep ps @ rest"
      using False by (simp_all add: join_Cons)
    show ?thesis by (intro exI [of _ acc2]) (simp only: eq len 1 2 3)
  qed
qed (auto simp: join_def)

lemma edges_join: "ps \<noteq> [] \<Longrightarrow> \<forall>p \<in> set ps. printed p \<Longrightarrow> edges_ok (join sep ps)"
proof (induction ps)
  case (Cons p ps)
  then show ?case
    by (cases "ps = []") (auto simp: join_single join_Cons printed_def intro: edges_append)
qed simp

text \<open>The operand chain of a union (\<open>+\<close>) or an intersection (\<open>&\<close>).\<close>

definition op_operands :: "char \<Rightarrow> relation_expression \<Rightarrow> relation_expression list" where
  "op_operands op e = (if op = CHR ''+'' then union_operands e else intersection_operands e)"

definition op_node :: "char \<Rightarrow> relation_expression list \<Rightarrow> relation_expression" where
  "op_node op es = (if op = CHR ''+'' then UnionOf es else IntersectionOf es)"

lemma merge_op:
  "op \<in> {CHR ''+'', CHR ''&''} \<Longrightarrow>
     (if op = CHR ''+'' then merge_union left right
      else if op = CHR ''&'' then merge_intersection left right else Difference left right) =
     op_node op (op_operands op left @ op_operands op right)"
  by (auto simp: merge_union_def merge_intersection_def op_node_def op_operands_def)

lemma op_operands_node: "op \<in> {CHR ''+'', CHR ''&''} \<Longrightarrow> op_operands op (op_node op es) = es"
  by (auto simp: op_operands_def op_node_def union_operands_def intersection_operands_def)

definition chain_result :: "char \<Rightarrow> relation_expression list \<Rightarrow> relation_expression" where
  "chain_result op es = (case es of [e] \<Rightarrow> e | _ \<Rightarrow> op_node op es)"

lemma parse_chain:
  assumes op: "op \<in> {CHR ''+'', CHR ''&''}"
    and es: "es \<noteq> []" "\<forall>e \<in> set es. canonical e \<and> op_operands op e = [e]"
    and IH: "\<And>e k input. e \<in> set es \<Longrightarrow> M \<le> k \<Longrightarrow> trim input = expression_to_string e \<Longrightarrow>
      parse_bounded k input = Inr e"
    and "M + length es \<le> Suc k" "0 < M"
    and "trim input = join [CHR '' '', op, CHR '' ''] (map expression_to_string es)"
  shows "parse_bounded k input = Inr (chain_result op es)"
  using es IH assms(5,7)
proof (induction es arbitrary: k input rule: rev_nonempty_induct)
  case (single e)
  then show ?case by (simp add: join_single chain_result_def)
next
  case (snoc e es)
  let ?sep = "[CHR '' '', op, CHR '' '']"
  let ?l = "join ?sep (map expression_to_string es)" and ?r = "expression_to_string e"
  have printed: "\<forall>p \<in> set (map expression_to_string es). printed p" "printed ?r"
    using snoc.prems(1) by (auto intro: printed_expression)
  obtain k' where k: "k = Suc k'" using snoc.prems(3) snoc.hyps \<open>0 < M\<close> by (cases k) auto
  have input: "trim input = ?l @ ?sep @ ?r" using snoc by (simp add: join_snoc)
  have edges: "edges_ok ?l" using printed(1) snoc.hyps by (intro edges_join) auto
  have open_: "\<not> is_fully_parenthesized (?l @ ?sep @ ?r)"
  proof -
    obtain p ps where ps: "map expression_to_string es = p # ps" using snoc.hyps by (cases es) auto
    then have "\<exists>rest. rest \<noteq> [] \<and> ?l @ ?sep @ ?r = p @ rest"
      by (cases "ps = []") (auto simp: join_single join_Cons)
    with printed_prefix_not_parenthesized printed(1) ps show ?thesis by (metis list.set_intros(1))
  qed
  have left: "parse_bounded k' (?l @ '' '') = Inr (chain_result op es)"
    using snoc.prems k edges by (intro snoc.IH) (auto simp: trim_space_right)
  have "M \<le> k'" using snoc.prems(3) k snoc.hyps by (cases es) auto
  then have right: "parse_bounded k' (CHR '' '' # ?r) = Inr e"
    using printed(2) by (intro snoc.prems(2)) (auto simp: trim_space_left trim_id printed_def)
  have "op_operands op (chain_result op es) = es"
    using snoc.prems(1) op by (auto simp: chain_result_def op_operands_node split: list.splits)
  moreover have "op_operands op e = [e]" using snoc.prems(1) by simp
  moreover have "chain_result op (es @ [e]) = op_node op (es @ [e])"
    using snoc.hyps by (cases es) (auto simp: chain_result_def split: list.splits)
  ultimately show ?case
    using parse_split [OF _ scan_join [OF printed(1) op] edges printed(2) open_ input, of k'] op left right
    unfolding k by (auto simp: merge_op)
qed

lemma nesting_pos: "canonical e \<Longrightarrow> 0 < nesting e"
  by (cases e) auto

lemma unwrap:
  assumes "neutral 1 body" and "trim input = ''('' @ body @ '')''"
  shows "parse_bounded (Suc k) input = parse_bounded k body"
  using fully_parenthesized_wrap [OF assms(1)] assms(2) by simp

lemma parse_operands:
  assumes op: "op \<in> {CHR ''+'', CHR ''&''}"
    and es: "2 \<le> length es" "\<forall>e \<in> set es. canonical e \<and> op_operands op e = [e]"
    and IH: "\<And>e k input. e \<in> set es \<Longrightarrow> nesting e \<le> k \<Longrightarrow> trim input = expression_to_string e \<Longrightarrow>
      parse_bounded k input = Inr e"
    and n: "length es + Max (insert 0 (nesting ` set es)) \<le> n"
    and input: "trim input = ''('' @ join [CHR '' '', op, CHR '' ''] (map expression_to_string es) @ '')''"
  shows "parse_bounded n input = Inr (op_node op es)"
proof -
  let ?M = "Max (insert 0 (nesting ` set es))" and ?body = "join [CHR '' '', op, CHR '' ''] (map expression_to_string es)"
  have le: "nesting e \<le> ?M" if "e \<in> set es" for e
    using that by (intro Max_ge) auto
  obtain e where e: "e \<in> set es" using es(1) by (cases es) auto
  with es(2) have "0 < nesting e" by (intro nesting_pos) simp
  with le [OF e] have M: "0 < ?M" by linarith
  obtain k where k: "n = Suc k" using n es(1) by (cases n) auto
  have printed: "\<forall>p \<in> set (map expression_to_string es). printed p"
    using es(2) by (auto intro: printed_expression)
  then have "neutral 1 ?body"
    using op by (intro neutral_join neutral_sep) (auto intro: printed_neutral)
  then have "parse_bounded n input = parse_bounded k ?body"
    unfolding k using input by (rule unwrap)
  also have "\<dots> = Inr (chain_result op es)"
  proof (rule parse_chain [OF op _ es(2) _ _ M])
    show "trim ?body = ?body" using printed es(1) by (intro trim_id edges_join) auto
    show "parse_bounded k' input' = Inr e'"
      if "e' \<in> set es" "?M \<le> k'" "trim input' = expression_to_string e'" for e' k' input'
      using that le [OF that(1)] by (intro IH) auto
  qed (use es(1) n k in auto)
  also have "chain_result op es = op_node op es"
    using es(1) by (auto simp: chain_result_def split: list.splits)
  finally show ?thesis .
qed

lemma parse_printed:
  "canonical e \<Longrightarrow> nesting e \<le> n \<Longrightarrow> trim input = expression_to_string e \<Longrightarrow> parse_bounded n input = Inr e"
proof (induction e arbitrary: n input)
  case This
  then obtain k where "n = Suc k" by (cases n) auto
  moreover have "printed ''_this''" using printed_expression [of This] by simp
  then have "parse_bounded (Suc k) input = parse_term ''_this''"
    using This by (intro printed_atom) (auto simp: printed_def is_fully_parenthesized_def)
  ultimately show ?case by (simp only: parse_term_this)
next
  case (ComputedUserset r)
  then obtain k where k: "n = Suc k" by (cases n) auto
  from ComputedUserset.prems(1) have r: "validate_identifier r = Inr ()" by (simp add: is_identifier_def)
  have "parse_bounded (Suc k) input = parse_term r"
    using ComputedUserset.prems(3) identD(3,5) [OF r] ident_edges [OF r]
    by (intro printed_atom not_fully_parenthesized_hd) simp_all
  then show ?case using ComputedUserset.prems(1) k by (simp only: parse_term_identifier canonical.simps)
next
  case (TupleToUserset t r)
  then obtain k where k: "n = Suc k" by (cases n) auto
  have p: "printed (t @ ''->'' @ r)" using printed_expression [OF TupleToUserset.prems(1)] by simp
  have t: "validate_identifier t = Inr ()" and r: "validate_identifier r = Inr ()"
    using TupleToUserset.prems(1) by simp_all
  have "parse_bounded (Suc k) input = parse_term (t @ ''->'' @ r)"
    using TupleToUserset.prems(3) p identD(1,5) [OF t]
    by (intro printed_atom not_fully_parenthesized_hd) (simp_all add: printed_def)
  then show ?case using parse_term_arrow [OF t r] k by simp
next
  case (UnionOf es)
  have "parse_bounded n input = Inr (op_node (CHR ''+'') es)"
    by (rule parse_operands) (use UnionOf in \<open>auto simp: op_operands_def\<close>)
  then show ?case by (simp add: op_node_def)
next
  case (IntersectionOf es)
  have "parse_bounded n input = Inr (op_node (CHR ''&'') es)"
    by (rule parse_operands) (use IntersectionOf in \<open>auto simp: op_operands_def\<close>)
  then show ?case by (simp add: op_node_def)
next
  case (Difference b s)
  let ?l = "expression_to_string b" and ?r = "expression_to_string s"
  let ?body = "?l @ '' - '' @ ?r"
  have p: "printed ?l" "printed ?r" using Difference.prems(1) by (auto intro: printed_expression)
  obtain k where k: "n = Suc (Suc k)" using Difference.prems(2) by (cases n; cases "n - 1") auto
  have "neutral 1 ?body" by (intro neutral_append neutral_sep printed_neutral p) auto
  then have "parse_bounded n input = parse_bounded (Suc k) ?body"
    unfolding k using Difference.prems(3) by (intro unwrap) simp_all
  also have "\<dots> = res_bind (parse_bounded k (?l @ '' '')) (\<lambda>left. res_bind (parse_bounded k (CHR '' '' # ?r))
      (\<lambda>right. Inr (Difference left right)))"
  proof -
    have e: "edges_ok ?l" "edges_ok ?r" using p by (simp_all add: printed_def)
    have t: "trim ?body = ?l @ [CHR '' '', CHR ''-'', CHR '' ''] @ ?r"
      using trim_id [OF edges_append [OF e, of "'' - ''"]] by simp
    have o: "\<not> is_fully_parenthesized (?l @ [CHR '' '', CHR ''-'', CHR '' ''] @ ?r)"
      by (rule printed_prefix_not_parenthesized [OF p(1)]) simp
    from parse_split [OF _ scan_printed [OF p(1)] e(1) p(2) o t, of k] show ?thesis
      by (simp del: parse_bounded.simps)
  qed
  also have "\<dots> = Inr (Difference b s)"
  proof -
    have "parse_bounded k (?l @ '' '') = Inr b" "parse_bounded k (CHR '' '' # ?r) = Inr s"
      using Difference p k by (auto simp: printed_def trim_space_right trim_space_left trim_id)
    then show ?thesis by simp
  qed
  finally show ?case .
qed


section \<open>What the parser returns\<close>

lemma union_operands_canonical:
  "canonical e \<Longrightarrow> 1 \<le> length (union_operands e) \<and> (\<forall>x \<in> set (union_operands e). canonical x \<and> union_operands x = [x])"
  by (cases e) (auto simp: union_operands_def)

lemma intersection_operands_canonical:
  "canonical e \<Longrightarrow> 1 \<le> length (intersection_operands e) \<and>
     (\<forall>x \<in> set (intersection_operands e). canonical x \<and> intersection_operands x = [x])"
  by (cases e) (auto simp: intersection_operands_def)

lemma merge_canonical:
  assumes "canonical left" and "canonical right"
  shows "canonical (merge_union left right)" and "canonical (merge_intersection left right)"
proof -
  note u = assms [THEN union_operands_canonical] and i = assms [THEN intersection_operands_canonical]
  show "canonical (merge_union left right)"
    unfolding merge_union_def canonical.simps length_append set_append
    by (intro conjI) (use u in linarith, use u in blast)
  show "canonical (merge_intersection left right)"
    unfolding merge_intersection_def canonical.simps length_append set_append
    by (intro conjI) (use i in linarith, use i in blast)
qed

lemma parse_term_canonical: "parse_term s = Inr e \<Longrightarrow> canonical e"
  by (auto simp: parse_term_def Let_def is_identifier_def split: if_splits option.splits)

lemma parse_bounded_canonical: "parse_bounded n s = Inr e \<Longrightarrow> canonical e"
proof (induction n arbitrary: s e)
  case (Suc n)
  then show ?case
    by (auto simp: Let_def merge_canonical parse_term_canonical split: if_splits option.splits)
qed simp


section \<open>Properties\<close>

text \<open>C20. Printing a canonical expression and parsing the text gives the expression back, for every
  expression within the parser's nesting limit of 128.\<close>

theorem parse_print_round_trip:
  assumes "canonical e" and "nesting e \<le> 128"
  shows "parse (expression_to_string e) = Inr e"
  unfolding parse_def
proof (rule parse_printed [OF assms])
  show "trim (expression_to_string e) = expression_to_string e"
    using printed_expression [OF assms(1)] by (simp add: printed_def trim_id)
qed

theorem parse_print_round_trip_witness:
  "parse ''((reader & parent->viewer) - (blocked + _this))'' =
     Inr (Difference (IntersectionOf [ComputedUserset ''reader'', TupleToUserset ''parent'' ''viewer''])
            (UnionOf [ComputedUserset ''blocked'', This]))"
proof -
  let ?e = "Difference (IntersectionOf [ComputedUserset ''reader'', TupleToUserset ''parent'' ''viewer''])
            (UnionOf [ComputedUserset ''blocked'', This])"
  have "canonical ?e"
    by (simp add: is_identifier_def validate_identifier_iff is_ascii_alphanumeric_def is_ascii_alphabetic_def
        is_ascii_digit_def byte_between_def union_operands_def intersection_operands_def)
  moreover have "nesting ?e \<le> 128" by simp
  ultimately show ?thesis
    using parse_print_round_trip [of ?e] by (simp add: join_def)
qed

text \<open>C21. Whatever text the parser accepts, the expression it returns is canonical: the identifiers are
  well-formed, unions and intersections have at least two operands and are flattened.\<close>

theorem parse_returns_canonical:
  assumes "parse s = Inr e"
  shows "canonical e"
  using assms unfolding parse_def by (rule parse_bounded_canonical)

theorem parse_returns_canonical_witness:
  "canonical (UnionOf [ComputedUserset ''owner'', ComputedUserset ''reader'', This])"
proof (rule parse_returns_canonical)
  show "parse '' owner + (reader + _this) '' = Inr (UnionOf [ComputedUserset ''owner'', ComputedUserset ''reader'', This])"
    by (simp add: parse_def parse_bounded_numeral trim_def is_space_def is_fully_parenthesized_def
        find_rightmost_operator_def parse_term_def validate_identifier_def is_ascii_alphanumeric_def
        is_ascii_alphabetic_def is_ascii_digit_def byte_between_def merge_union_def union_operands_def)
qed

end
