(* ===== verification/Policy_Validation.thy ===== *)
theory Policy_Validation
  imports Permission_Correctness
begin

text \<open>
  What the two validations of \<open>types/policy.rs\<close> guarantee about the permissions a policy grants:
  \<open>validate\<close> leaves no dangling reference in an expression, and \<open>validate_dpi\<close> is meant to ensure that
  the owner of an object always has access. The second guarantee holds for expressions built from
  relations, unions and intersections; it fails for differences, which is shown on a policy.
\<close>

text \<open>The relations an expression needs on its own resource.\<close>

fun mentions :: "relation_expression \<Rightarrow> string set" where
  "mentions This = {}"
| "mentions (ComputedUserset r) = {r}"
| "mentions (TupleToUserset t r) = {t}"
| "mentions (UnionOf es) = (\<Union>e \<in> set es. mentions e)"
| "mentions (IntersectionOf es) = (\<Union>e \<in> set es. mentions e)"
| "mentions (Difference b s) = mentions b \<union> mentions s"

lemma validate_expression_mentions:
  "validate_expression p r e = Inr () \<longleftrightarrow> (\<forall>l \<in> mentions e. get_relation p r l \<noteq> None)"
  by (induction e) auto

text \<open>C36. In a validated policy with distinct names, every relation an expression refers to on its own
  resource (through a computed userset or as the tuple relation of a tuple-to-userset) is in the engine's
  lookup table, so evaluating the expression never fails there with a missing relation.\<close>

theorem validated_policy_has_no_dangling_reference:
  assumes "policy_validate p = Inr ()" and "distinct_names p"
    and "r \<in> set (pol_resources p @ actor_list p)" and "rel \<in> set (resd_relations r)"
    and "l \<in> mentions (reld_expression rel)"
  shows "\<exists>e. get_expression (add_policy t p) (pol_id p) (resd_name r) l = Inr e"
proof -
  have "validate_expression p (resd_name r) (reld_expression rel) = Inr ()"
    using assms(1,3,4) by (simp add: policy_validate_def)
  with assms(5) obtain d where "get_relation p (resd_name r) l = Some d"
    by (auto simp: validate_expression_mentions)
  then show ?thesis using get_expression_relation [OF assms(2)] by blast
qed

definition dpi_demo :: policy where
  "dpi_demo = with_resource (policy_new ''d'' ''dpi'')
     (with_relation (with_relation (with_relation (resource_new ''doc'')
        (relation_direct ''owner'')) (relation_direct ''guest''))
        (relation_computed ''reader'' (UnionOf [ComputedUserset ''owner'', ComputedUserset ''guest''])))"

lemmas dpi_demo_simps = dpi_demo_def with_resource_def policy_new_def with_relation_def resource_new_def
  relation_direct_def relation_computed_def actor_list_def

lemma dpi_demo_ok: "policy_validate dpi_demo = Inr ()" "distinct_names dpi_demo" "validate_dpi dpi_demo = Inr ()"
  by (simp_all add: policy_validate_def distinct_names_def validate_dpi_def validate_dpi_relation_def
      get_relation_def get_resource_def resource_get_relation_def dpi_demo_simps)

theorem validated_policy_has_no_dangling_reference_witness:
  "\<exists>e. get_expression (add_policy lookup_new dpi_demo) ''d'' ''doc'' ''guest'' = Inr e"
  using validated_policy_has_no_dangling_reference [OF dpi_demo_ok(1,2),
      of "hd (pol_resources dpi_demo)" "last (resd_relations (hd (pol_resources dpi_demo)))" "''guest''" lookup_new]
  by (simp add: dpi_demo_simps)


section \<open>Owners keep access\<close>

fun monotone_local :: "relation_expression \<Rightarrow> bool" where
  "monotone_local This = True"
| "monotone_local (ComputedUserset r) = True"
| "monotone_local (TupleToUserset t r) = False"
| "monotone_local (UnionOf es) = (\<forall>e \<in> set es. monotone_local e)"
| "monotone_local (IntersectionOf es) = (\<forall>e \<in> set es. monotone_local e)"
| "monotone_local (Difference b s) = False"

lemma includes_owner_grants:
  assumes "get_expression lk pid r ''owner'' = Inr eo" and "granted lk R pid sbj (r, ob, ''owner'') eo"
    and "expression_includes_owner e" and "monotone_local e"
  shows "granted lk R pid sbj (r, ob, l) e"
  using assms(3,4)
proof (induction e)
  case (ComputedUserset c)
  with assms(1,2) show ?case by (auto intro: g_computed)
next
  case (UnionOf es)
  then show ?case by (auto simp: list_ex_iff intro: g_union)
next
  case (IntersectionOf es)
  then show ?case by (auto simp: list_all_iff intro: g_intersection)
qed auto

text \<open>C37. For a policy that passes \<open>validate_dpi\<close>, an owner of an object has every permission of its
  resource whose expression is built from relations by unions and intersections: whoever the tuples make
  owner is granted the permission.\<close>

theorem dpi_owner_has_access:
  assumes "validate_dpi p = Inr ()" and "distinct_names p"
    and "r \<in> set (pol_resources p)" and "rel \<in> set (resd_relations r)"
    and "\<not> is_this (reld_expression rel)" and "monotone_local (reld_expression rel)"
    and "reld_name rel \<noteq> ''owner''"
    and "permitted (add_policy t p) R (pol_id p) sbj (resd_name r, ob, ''owner'')"
  shows "granted (add_policy t p) R (pol_id p) sbj (resd_name r, ob, reld_name rel) (reld_expression rel)"
proof -
  have "validate_dpi_relation r rel = Inr ()"
    using assms(1,3,4) by (auto simp: validate_dpi_def split: if_splits)
  with assms(5,7) have "expression_includes_owner (reld_expression rel)"
    by (auto simp: validate_dpi_relation_def split: if_splits)
  with assms(6,8) show ?thesis
    by (auto simp: permitted_def node_expression_def intro: includes_owner_grants)
qed

theorem dpi_owner_has_access_witness:
  "granted (add_policy lookup_new dpi_demo)
     (\<lambda>pid n. if n = (''doc'', ''1'', ''owner'') then {Entity (Did ''did:key:o'')} else {})
     ''d'' (Did ''did:key:o'') (''doc'', ''1'', ''reader'') (UnionOf [ComputedUserset ''owner'', ComputedUserset ''guest''])"
proof -
  let ?R = "\<lambda>pid n. if n = (''doc'', ''1'', ''owner'') then {Entity (Did ''did:key:o'')} else {}"
  have "get_expression (add_policy lookup_new dpi_demo) ''d'' ''doc'' ''owner'' = Inr This"
    by (simp add: get_expression_def resource_map_of_def relation_map_of_def dpi_demo_simps)
  then have "permitted (add_policy lookup_new dpi_demo) ?R (pol_id dpi_demo) (Did ''did:key:o'')
      (resd_name (hd (pol_resources dpi_demo)), ''1'', ''owner'')"
    by (auto simp: permitted_def node_expression_def dpi_demo_simps direct_grant_def intro: g_direct)
  from dpi_owner_has_access [OF dpi_demo_ok(3,2), of "hd (pol_resources dpi_demo)"
      "last (resd_relations (hd (pol_resources dpi_demo)))", OF _ _ _ _ _ this]
  show ?thesis by (simp add: dpi_demo_simps)
qed

text \<open>The check on differences is too weak for that guarantee: \<open>expression_includes_owner\<close> accepts a
  difference when only the subtracted side names the owner. The policy below, whose \<open>reader\<close> is
  \<open>guest - owner\<close>, passes both validations, and an owner who is also a guest is provably denied.\<close>

definition dpi_gap :: policy where
  "dpi_gap = with_resource (policy_new ''g'' ''gap'')
     (with_relation (with_relation (with_relation (resource_new ''doc'')
        (relation_direct ''owner'')) (relation_direct ''guest''))
        (relation_computed ''reader'' (Difference (ComputedUserset ''guest'') (ComputedUserset ''owner''))))"

lemmas dpi_gap_simps = dpi_gap_def with_resource_def policy_new_def with_relation_def resource_new_def
  relation_direct_def relation_computed_def actor_list_def

lemma dpi_gap_expressions:
  "get_expression (add_policy lookup_new dpi_gap) ''g'' ''doc'' ''owner'' = Inr This"
  "get_expression (add_policy lookup_new dpi_gap) ''g'' ''doc'' ''reader'' =
     Inr (Difference (ComputedUserset ''guest'') (ComputedUserset ''owner''))"
  by (simp_all add: get_expression_def resource_map_of_def relation_map_of_def dpi_gap_simps)

text \<open>C38. A policy that passes validation and the DPI check denies \<open>reader\<close> to the owner of a document,
  although the owner holds every direct relation on it: \<open>expression_includes_owner\<close> counts the subtracted
  side of a difference as including the owner.\<close>

theorem dpi_accepts_policy_that_denies_owner:
  "policy_validate dpi_gap = Inr () \<and> validate_dpi dpi_gap = Inr () \<and>
   permitted (add_policy lookup_new dpi_gap) (\<lambda>pid n. {Entity d}) ''g'' d (''doc'', ob, ''owner'') \<and>
   \<not> permitted (add_policy lookup_new dpi_gap) (\<lambda>pid n. {Entity d}) ''g'' d (''doc'', ob, ''reader'')"
proof (intro conjI)
  let ?lk = "add_policy lookup_new dpi_gap" and ?R = "\<lambda>pid n. {Entity d}"
  show "policy_validate dpi_gap = Inr ()" "validate_dpi dpi_gap = Inr ()"
    by (simp_all add: policy_validate_def validate_dpi_def validate_dpi_relation_def get_relation_def
        get_resource_def resource_get_relation_def dpi_gap_simps)
  have owner: "granted ?lk ?R ''g'' d (''doc'', ob, ''owner'') This"
    by (intro g_direct) (simp add: direct_grant_def)
  then show "permitted ?lk ?R ''g'' d (''doc'', ob, ''owner'')"
    using dpi_gap_expressions(1) by (auto simp: permitted_def node_expression_def)
  have "granted ?lk ?R ''g'' d (''doc'', ob, ''reader'') (ComputedUserset ''owner'')"
    using dpi_gap_expressions(1) owner by (rule g_computed)
  then have "refuted ?lk ?R ''g'' d (''doc'', ob, ''reader'')
      (Difference (ComputedUserset ''guest'') (ComputedUserset ''owner''))"
    by (rule r_difference_subtract)
  then show "\<not> permitted ?lk ?R ''g'' d (''doc'', ob, ''reader'')"
    using dpi_gap_expressions(2) granted_refuted_exclusive(2)
    by (auto simp: permitted_def node_expression_def)
qed

end
