(* ===== verification/Machine_Int.thy ===== *)
theory Machine_Int
  imports Prelude
begin

text \<open>
  What the modules use of \<open>u64\<close>: checked and saturating addition, and the big-endian encoding that
  counters, identifiers and deadlines have inside storage keys. The encoding has eight bytes, decodes
  to the number, and orders keys the way the numbers are ordered.
\<close>

section \<open>Arithmetic\<close>

definition checked_add :: "u64 \<Rightarrow> u64 \<Rightarrow> u64 option" where
  "checked_add x y = (if unat x + unat y < 2 ^ 64 then Some (x + y) else None)"

definition saturating_add :: "u64 \<Rightarrow> u64 \<Rightarrow> u64" where
  "saturating_add x y = (if unat x + unat y < 2 ^ 64 then x + y else - 1)"

definition checked_sub :: "u64 \<Rightarrow> u64 \<Rightarrow> u64 option" where
  "checked_sub x y = (if y \<le> x then Some (x - y) else None)"

lemma u64_bound: "unat (x :: u64) < 2 ^ 64"
  using unsigned_less [of x, where 'a = nat] by simp

lemma checked_add_Some: "checked_add x y = Some z \<longleftrightarrow> unat z = unat x + unat y"
proof
  assume "checked_add x y = Some z"
  then show "unat z = unat x + unat y"
    by (auto simp: checked_add_def unat_word_ariths split: if_splits)
next
  assume *: "unat z = unat x + unat y"
  then have "unat z = unat (x + y)" using u64_bound [of z] by (simp add: unat_word_ariths)
  then have "z = x + y" by (rule unsigned_word_eqI)
  with * u64_bound [of z] show "checked_add x y = Some z" by (simp add: checked_add_def)
qed

lemma checked_add_None: "checked_add x y = None \<longleftrightarrow> 2 ^ 64 \<le> unat x + unat y"
  by (auto simp: checked_add_def)

lemma saturating_add_unat: "unat (saturating_add x y) = min (unat x + unat y) (2 ^ 64 - 1)"
  by (auto simp: saturating_add_def unat_word_ariths unsigned_minus_1_eq_mask mask_eq_exp_minus_1)


section \<open>Big-endian bytes\<close>

fun be_nat :: "nat \<Rightarrow> nat \<Rightarrow> bytes" where
  "be_nat 0 x = []"
| "be_nat (Suc n) x = char_of (x div 256 ^ n) # be_nat n (x mod 256 ^ n)"

fun nat_be :: "bytes \<Rightarrow> nat" where
  "nat_be [] = 0"
| "nat_be (c # cs) = of_char c * 256 ^ length cs + nat_be cs"

definition to_be_bytes :: "u64 \<Rightarrow> bytes" where
  "to_be_bytes x = be_nat 8 (unat x)"

text \<open>\<open>bytes.try_into().map(u64::from_be_bytes)\<close>, which fails unless there are eight bytes.\<close>

definition from_be_bytes :: "bytes \<Rightarrow> u64 option" where
  "from_be_bytes bs = (if length bs = 8 then Some (of_nat (nat_be bs)) else None)"

lemma be_nat_length [simp]: "length (be_nat n x) = n"
  by (induction n arbitrary: x) auto

lemma to_be_bytes_length [simp]: "length (to_be_bytes x) = 8"
  by (simp add: to_be_bytes_def)

lemma nat_be_bound: "nat_be bs < 256 ^ length bs"
proof (induction bs)
  case (Cons c cs)
  have "(of_char c :: nat) \<le> 255"
    using nat_of_char_less_256 [of c] by linarith
  then have "of_char c * 256 ^ length cs \<le> 255 * (256 :: nat) ^ length cs" by (rule mult_le_mono1)
  moreover have "256 ^ length (c # cs) = 255 * (256 :: nat) ^ length cs + 256 ^ length cs" by simp
  ultimately show ?case using Cons unfolding nat_be.simps by linarith
qed simp

lemma nat_be_be_nat [simp]: "x < 256 ^ n \<Longrightarrow> nat_be (be_nat n x) = x"
proof (induction n arbitrary: x)
  case (Suc n)
  then have "x div 256 ^ n < 256"
    by (simp add: less_mult_imp_div_less mult.commute)
  then have "of_char (char_of (x div 256 ^ n) :: char) = x div 256 ^ n"
    by (simp add: of_char_of)
  with Suc.IH [of "x mod 256 ^ n"] show ?case by (simp only: be_nat.simps nat_be.simps) (simp add: div_mult_mod_eq)
qed simp

lemma be_nat_nat_be [simp]: "be_nat (length bs) (nat_be bs) = bs"
proof (induction bs)
  case (Cons c cs)
  then show ?case using nat_be_bound [of cs] by simp
qed simp

lemma less_div_mod: "x < y \<longleftrightarrow> x div b < y div b \<or> x div b = y div b \<and> x mod b < y mod (b :: nat)"
proof -
  have "x div b < y div b \<Longrightarrow> x < y" by (meson div_le_mono linorder_not_le)
  moreover have "y div b < x div b \<Longrightarrow> \<not> x < y" by (meson div_le_mono less_imp_le linorder_not_le)
  moreover have "x div b = y div b \<Longrightarrow> x < y \<longleftrightarrow> x mod b < y mod b"
    using mult_div_mod_eq [of b x] mult_div_mod_eq [of b y] by (metis nat_add_left_cancel_less)
  ultimately show ?thesis by linarith
qed

lemma be_nat_less:
  "x < 256 ^ n \<Longrightarrow> y < 256 ^ n \<Longrightarrow> be_nat n x < be_nat n y \<longleftrightarrow> x < y"
proof (induction n arbitrary: x y)
  case (Suc n)
  let ?b = "256 ^ n :: nat"
  have d: "x div ?b < 256" "y div ?b < 256"
    using Suc.prems by (simp_all add: less_mult_imp_div_less mult.commute)
  have IH: "be_nat n (x mod ?b) < be_nat n (y mod ?b) \<longleftrightarrow> x mod ?b < y mod ?b"
    by (rule Suc.IH) simp_all
  have hi: "char_of (x div ?b) < (char_of (y div ?b) :: char) \<longleftrightarrow> x div ?b < y div ?b"
    "char_of (x div ?b) = (char_of (y div ?b) :: char) \<longleftrightarrow> x div ?b = y div ?b"
    using d by (simp_all add: less_char_def char_of_eq_iff take_bit_nat_eq_self)
  have "x < y \<longleftrightarrow> x div ?b < y div ?b \<or> x div ?b = y div ?b \<and> x mod ?b < y mod ?b"
    by (rule less_div_mod)
  with IH hi show ?case by auto
qed simp

lemma from_to_be_bytes [simp]: "from_be_bytes (to_be_bytes x) = Some x"
  using u64_bound [of x] by (simp add: from_be_bytes_def to_be_bytes_def)

lemma to_from_be_bytes: "from_be_bytes bs = Some x \<Longrightarrow> to_be_bytes x = bs"
proof -
  assume "from_be_bytes bs = Some x"
  then have l: "length bs = 8" and x: "x = of_nat (nat_be bs)"
    by (auto simp: from_be_bytes_def split: if_splits)
  have "nat_be bs < 2 ^ 64" using nat_be_bound [of bs] l by simp
  then have "unat x = nat_be bs" by (simp add: x unsigned_of_nat take_bit_nat_eq_self)
  then show ?thesis using be_nat_nat_be [of bs] l by (simp add: to_be_bytes_def)
qed

lemma to_be_bytes_inj [simp]: "to_be_bytes x = to_be_bytes y \<longleftrightarrow> x = y"
  by (metis from_to_be_bytes option.inject)

lemma to_be_bytes_less [simp]: "to_be_bytes x < to_be_bytes y \<longleftrightarrow> x < y"
  using u64_bound [of x] u64_bound [of y] by (simp add: to_be_bytes_def be_nat_less word_less_nat_alt)

lemma to_be_bytes_le [simp]: "to_be_bytes x \<le> to_be_bytes y \<longleftrightarrow> x \<le> y"
  by (meson linorder_not_le to_be_bytes_less)

end
