(* ===== verification/Acp_Policy.thy ===== *)
theory Acp_Policy
  imports Expression_Parser Policy_Validation Machine_Int
begin

text \<open>
  Policy definitions of the \<open>acp\<close> crate: its errors (\<open>error.rs\<close>), the parsed form of a definition, the
  schema checks and the construction of the engine's policy (\<open>policy_yaml/mod.rs\<close>,
  \<open>policy_yaml/schema.rs\<close>), and the expression checks of \<open>policy_yaml/validate.rs\<close>.

  \<open>serde\<close> fills a \<open>ParsedPolicy\<close> from text; SHA-256 is a parameter. Text is ASCII, as in
  \<open>Expression_Parser\<close>.
\<close>

section \<open>Errors of the crate\<close>

datatype core_error =
    CoreJson string
  | CorePermissionDenied string
  | CoreDocumentNotRegistered string
  | CoreDocumentAlreadyRegistered string
  | CoreInvalidRelation string
  | CoreUnsupportedSubject string
  | CoreNotOwner string
  | CoreNotManager string
  | CoreInvalidPolicy string
  | CoreStorage string
  | CoreStorageRead string string
  | CoreStorageWrite string string
  | CoreStorageTransaction string string
  | CoreStorageIteration string string
  | CoreSerialization string
  | CorePolicyNotFound string
  | CoreRelationNotFound string string
  | CoreCycleDetected string
  | CoreInvalidExpression string
  | CoreResourceNotFound string
  | CoreInvalidEntitySetReference string string
  | CoreSubjectRestrictionViolation string
  | CoreDpiMissingOwner string
  | CoreDpiExpressionMissingOwner string string
  | CoreDpiDisallowedOperation string string string

fun core_error_to_string :: "core_error \<Rightarrow> string" where
  "core_error_to_string (CoreJson e) = ''serialization error: '' @ e"
| "core_error_to_string (CorePermissionDenied e) = ''permission denied: '' @ e"
| "core_error_to_string (CoreDocumentNotRegistered e) = ''document not registered: '' @ e"
| "core_error_to_string (CoreDocumentAlreadyRegistered e) = ''document already registered: '' @ e"
| "core_error_to_string (CoreInvalidRelation e) = ''invalid relation: '' @ e"
| "core_error_to_string (CoreUnsupportedSubject e) = ''unsupported subject for this backend: '' @ e"
| "core_error_to_string (CoreNotOwner operation) =
     ''UNAUTHORIZED: not document owner, cannot '' @ operation"
| "core_error_to_string (CoreNotManager operation) =
     ''cannot '' @ operation @ '': actor is not a manager of relation''"
| "core_error_to_string (CoreInvalidPolicy e) = ''invalid policy: '' @ e"
| "core_error_to_string (CoreStorage e) = ''storage error: '' @ e"
| "core_error_to_string (CoreStorageRead operation details) =
     ''storage read error: '' @ operation @ '' - '' @ details"
| "core_error_to_string (CoreStorageWrite operation details) =
     ''storage write error: '' @ operation @ '' - '' @ details"
| "core_error_to_string (CoreStorageTransaction operation details) =
     ''storage transaction error: '' @ operation @ '' - '' @ details"
| "core_error_to_string (CoreStorageIteration operation details) =
     ''storage iteration error: '' @ operation @ '' - '' @ details"
| "core_error_to_string (CoreSerialization e) = ''serialization error: '' @ e"
| "core_error_to_string (CorePolicyNotFound e) = ''policy not found: '' @ e"
| "core_error_to_string (CoreRelationNotFound resource relation) =
     ''relation not found: '' @ relation @ '' in resource '' @ resource"
| "core_error_to_string (CoreCycleDetected e) = ''cycle detected in permission evaluation: '' @ e"
| "core_error_to_string (CoreInvalidExpression e) = ''invalid expression: '' @ e"
| "core_error_to_string (CoreResourceNotFound e) = ''resource not found: '' @ e"
| "core_error_to_string (CoreInvalidEntitySetReference resource relation) =
     zerror_to_string (InvalidEntitySetReference resource relation)"
| "core_error_to_string (CoreSubjectRestrictionViolation m) = ''subject restriction violated: '' @ m"
| "core_error_to_string (CoreDpiMissingOwner resource) = zerror_to_string (DpiMissingOwner resource)"
| "core_error_to_string (CoreDpiExpressionMissingOwner resource relation) =
     zerror_to_string (DpiExpressionMissingOwner resource relation)"
| "core_error_to_string (CoreDpiDisallowedOperation resource relation operation) =
     zerror_to_string (DpiDisallowedOperation resource relation operation)"

text \<open>\<open>From<zanzibar::error::Error>\<close>, with its catch-all arm.\<close>

fun core_error_from :: "zerror \<Rightarrow> core_error" where
  "core_error_from (PolicyNotFound s) = CorePolicyNotFound s"
| "core_error_from (RelationNotFound resource relation) = CoreRelationNotFound resource relation"
| "core_error_from (ResourceNotFound s) = CoreResourceNotFound s"
| "core_error_from (InvalidExpression s) = CoreInvalidExpression s"
| "core_error_from (InvalidPolicy s) = CoreInvalidPolicy s"
| "core_error_from (Serialization s) = CoreSerialization s"
| "core_error_from (InvalidDid s) = CoreStorage (''invalid DID: '' @ s)"
| "core_error_from (InvalidEntitySetReference resource relation) =
     CoreInvalidEntitySetReference resource relation"
| "core_error_from (SubjectRestrictionViolation m) = CoreSubjectRestrictionViolation m"
| "core_error_from (DpiMissingOwner resource) = CoreDpiMissingOwner resource"
| "core_error_from (DpiExpressionMissingOwner resource relation) =
     CoreDpiExpressionMissingOwner resource relation"
| "core_error_from (DpiDisallowedOperation resource relation operation) =
     CoreDpiDisallowedOperation resource relation operation"
| "core_error_from (InvalidRelationshipField field reason) =
     CoreStorage (''invalid relationship field '' @ quote field @ '': '' @ reason)"
| "core_error_from e = CoreStorage (zerror_to_string e)"


section \<open>Parsed definitions\<close>

record parsed_relation =
  prel_name :: string
  prel_doc :: string
  prel_types :: "string list"
  prel_manages :: "string list"

record parsed_permission =
  pperm_name :: string
  pperm_doc :: string
  pperm_expr :: string

record parsed_resource =
  pres_name :: string
  pres_description :: string
  pres_permissions :: "parsed_permission list"
  pres_relations :: "parsed_relation list"

record policy_actor =
  pact_relations :: "parsed_relation list"

record parsed_policy =
  pp_name :: string
  pp_description :: string
  pp_spec :: policy_specification
  pp_meta :: "(string \<times> string) list"
  pp_actor :: policy_actor
  pp_resources :: "parsed_resource list"

definition find_resource :: "parsed_policy \<Rightarrow> string \<Rightarrow> parsed_resource option" where
  "find_resource p name = List.find (\<lambda>r. pres_name r = name) (pp_resources p)"

definition pres_has_permission :: "parsed_resource \<Rightarrow> string \<Rightarrow> bool" where
  "pres_has_permission r name = list_ex (\<lambda>p. pperm_name p = name) (pres_permissions r)"

definition pres_has_relation :: "parsed_resource \<Rightarrow> string \<Rightarrow> bool" where
  "pres_has_relation r name = list_ex (\<lambda>rel. prel_name rel = name) (pres_relations r)"

definition pres_managers :: "parsed_resource \<Rightarrow> string \<Rightarrow> string list" where
  "pres_managers r relation =
     map prel_name (filter (\<lambda>rel. list_ex (\<lambda>m. m = relation) (prel_manages rel)) (pres_relations r))"

fun to_ascii_lowercase :: "string \<Rightarrow> string" where
  "to_ascii_lowercase [] = []"
| "to_ascii_lowercase (c # cs) =
     (if byte_between (CHR ''A'') (CHR ''Z'') c then char_of (of_char c + 32 :: nat) else c)
       # to_ascii_lowercase cs"

definition deserialize_specification :: "string \<Rightarrow> string + policy_specification" where
  "deserialize_specification v =
     (let w = to_ascii_lowercase v in
      if w = [] \<or> w = ''none'' then Inr NoSpec
      else if w = ''defra'' then Inr Defra
      else Inl (''unknown policy specification '' @ quote v))"


section \<open>Identifiers of policies\<close>

definition hash_policy_fields :: "(bytes \<Rightarrow> bytes) \<Rightarrow> parsed_policy \<Rightarrow> bytes" where
  "hash_policy_fields sha p =
     sha (pp_name p @
       concat (map (\<lambda>resource.
         pres_name resource
         @ concat (map prel_name (sort_key prel_name (pres_relations resource)))
         @ concat (map (\<lambda>perm. pperm_name perm @ pperm_expr perm)
             (sort_key pperm_name (pres_permissions resource))))
         (sort_key pres_name (pp_resources p))))"

text \<open>\<open>format!("{:02x}", b)\<close> for every byte.\<close>

definition hex_lower :: "bytes \<Rightarrow> string" where
  "hex_lower bs =
     concat (map (\<lambda>b. [''0123456789abcdef'' ! (of_char b div 16), ''0123456789abcdef'' ! (of_char b mod 16)]) bs)"

lemma hex_digits:
  "distinct ''0123456789abcdef''" "length ''0123456789abcdef'' = 16" "list_all is_lower_hex ''0123456789abcdef''"
  by (simp_all add: is_lower_hex_def is_ascii_digit_def byte_between_def)

lemma byte_nibbles: "(of_char (b :: char) :: nat) div 16 < 16" "(of_char b :: nat) mod 16 < 16"
  using nat_of_char_less_256 [of b] less_mult_imp_div_less [of "of_char b" 16 16] by simp_all

lemma hex_lower_Cons:
  "hex_lower (b # bs) = ''0123456789abcdef'' ! (of_char b div 16) # ''0123456789abcdef'' ! (of_char b mod 16) # hex_lower bs"
  by (simp add: hex_lower_def)

lemma hex_lower_digits: "list_all is_lower_hex (hex_lower bs)"
proof (induction bs)
  case (Cons b bs)
  have "is_lower_hex (''0123456789abcdef'' ! n)" if "n < 16" for n
    using hex_digits(3) that unfolding list_all_length hex_digits(2) by blast
  with byte_nibbles [of b] Cons show ?case by (simp only: hex_lower_Cons list.pred_inject)
qed (simp add: hex_lower_def)

lemma hex_lower_no_slash: "CHR ''/'' \<notin> set (hex_lower bs)"
  using hex_lower_digits [of bs] by (auto simp: list_all_iff is_lower_hex_def is_ascii_digit_def byte_between_def)

lemma hex_lower_inj: "inj hex_lower"
proof (rule injI)
  fix a b assume "hex_lower a = hex_lower b"
  then show "a = b"
  proof (induction a arbitrary: b)
    case Nil
    then show ?case by (cases b) (simp_all add: hex_lower_def)
  next
    case (Cons x a)
    then obtain y b' where b: "b = y # b'" by (cases b) (simp_all add: hex_lower_def)
    with Cons.prems have eq: "''0123456789abcdef'' ! (of_char x div 16) = ''0123456789abcdef'' ! (of_char y div 16)"
      "''0123456789abcdef'' ! (of_char x mod 16) = ''0123456789abcdef'' ! (of_char y mod 16)" "hex_lower a = hex_lower b'"
      unfolding b hex_lower_Cons by blast+
    then have "(of_char x :: nat) div 16 = of_char y div 16" "(of_char x :: nat) mod 16 = of_char y mod 16"
      using nth_eq_iff_index_eq [OF hex_digits(1), unfolded hex_digits(2)] byte_nibbles [of x] byte_nibbles [of y]
      by blast+
    then have "(of_char x :: nat) = of_char y" by (metis div_mult_mod_eq)
    then have "x = y" by simp
    with Cons.IH [OF eq(3)] b show ?case by simp
  qed
qed

definition generate_policy_id :: "(bytes \<Rightarrow> bytes) \<Rightarrow> parsed_policy \<Rightarrow> u64 \<Rightarrow> string" where
  "generate_policy_id sha p counter =
     hex_lower (sha (hash_policy_fields sha p @ show_nat (unat counter)))"


section \<open>Schema\<close>

definition schema_identifier :: "string \<Rightarrow> core_error + unit" where
  "schema_identifier name =
     (if length name > 128
        \<or> \<not> (case name of [] \<Rightarrow> False | c # _ \<Rightarrow> is_ascii_alphabetic c \<or> c = CHR ''_'')
        \<or> \<not> list_all (\<lambda>c. is_ascii_alphanumeric c \<or> c = CHR ''_'') (tl name)
      then Inl (CoreInvalidPolicy (''invalid policy identifier '' @ quote name))
      else Inr ())"

fun relation_names_loop ::
  "bool \<Rightarrow> string set \<Rightarrow> parsed_relation list \<Rightarrow> core_error + string set" where
  "relation_names_loop with_owner names [] =
     Inr (if with_owner then insert ''owner'' names else names)"
| "relation_names_loop with_owner names (relation # rest) =
     res_bind (schema_identifier (prel_name relation)) (\<lambda>_.
     if prel_name relation \<in> names
     then Inl (CoreInvalidPolicy (''duplicate relation '' @ quote (prel_name relation)))
     else if prel_name relation = ''owner''
       \<and> (\<not> with_owner \<or> prel_types relation \<noteq> [] \<or> prel_manages relation \<noteq> [])
     then Inl (CoreInvalidPolicy ''the owner relation cannot be customized'')
     else relation_names_loop with_owner (insert (prel_name relation) names) rest)"

definition relation_names :: "parsed_relation list \<Rightarrow> bool \<Rightarrow> core_error + string set" where
  "relation_names relations with_owner = relation_names_loop with_owner {} relations"

fun permission_names_loop :: "string set \<Rightarrow> parsed_permission list \<Rightarrow> core_error + string set" where
  "permission_names_loop names [] = Inr names"
| "permission_names_loop names (permission # rest) =
     res_bind (schema_identifier (pperm_name permission)) (\<lambda>_.
     if pperm_name permission \<in> names
     then Inl (CoreInvalidPolicy (''duplicate or reserved relation '' @ quote (pperm_name permission)))
     else permission_names_loop (insert (pperm_name permission) names) rest)"

fun resource_names_loop ::
  "(string \<rightharpoonup> string set) \<Rightarrow> parsed_resource list \<Rightarrow> core_error + (string \<rightharpoonup> string set)" where
  "resource_names_loop names [] = Inr names"
| "resource_names_loop names (resource # rest) =
     res_bind (schema_identifier (pres_name resource)) (\<lambda>_.
     if pres_name resource = ''actor'' \<or> names (pres_name resource) \<noteq> None
     then Inl (CoreInvalidPolicy (''duplicate or reserved resource '' @ quote (pres_name resource)))
     else
       res_bind (relation_names (pres_relations resource) True) (\<lambda>relations.
       res_bind (permission_names_loop relations (pres_permissions resource)) (\<lambda>relations'.
       resource_names_loop (names(pres_name resource \<mapsto> relations')) rest)))"

text \<open>\<open>str::split_once("->")\<close>.\<close>

fun split_arrow :: "string \<Rightarrow> (string \<times> string) option" where
  "split_arrow (c # d # cs) =
     (if c = CHR ''-'' \<and> d = CHR ''>'' then Some ([], cs)
      else map_option (\<lambda>(l, r). (c # l, r)) (split_arrow (d # cs)))"
| "split_arrow _ = None"

definition validate_references ::
  "parsed_relation list \<Rightarrow> (string \<rightharpoonup> string set) \<Rightarrow> core_error + unit" where
  "validate_references relations resources =
     check_all (\<lambda>relation.
       res_bind
         (check_all (\<lambda>managed.
            if managed = ''owner'' \<or> \<not> list_ex (\<lambda>r. prel_name r = managed) relations
            then Inl (CoreInvalidPolicy (''invalid managed relation '' @ quote managed)) else Inr ())
            (prel_manages relation)) (\<lambda>_.
       check_all (\<lambda>subject_type.
         let t = trim subject_type;
             (resource, rel) = (case split_arrow t of Some pr \<Rightarrow> pr | None \<Rightarrow> (t, []));
             valid = (case resources resource of
                        None \<Rightarrow> False | Some names \<Rightarrow> rel = [] \<or> rel \<in> names)
         in if \<not> valid then Inl (CoreInvalidPolicy (''unknown subject type '' @ quote t)) else Inr ())
         (prel_types relation)))
       relations"

definition schema_validate :: "parsed_policy \<Rightarrow> core_error + unit" where
  "schema_validate p =
     (if trim (pp_name p) = [] \<or> length (pp_name p) > 256
      then Inl (CoreInvalidPolicy
             (''policy name must contain 1'' @ [CHR 0xE2, CHR 0x80, CHR 0x93] @ ''256 bytes''))
      else
        res_bind (resource_names_loop Map.empty (pp_resources p)) (\<lambda>names.
        res_bind (relation_names (pact_relations (pp_actor p)) False) (\<lambda>actor.
        let names' = names(''actor'' \<mapsto> actor) in
        res_bind (check_all (\<lambda>resource. validate_references (pres_relations resource) names')
                    (pp_resources p)) (\<lambda>_.
        validate_references (pact_relations (pp_actor p)) names'))))"


section \<open>Building a policy\<close>

definition subject_restriction_of :: "string \<Rightarrow> core_error + subject_restriction" where
  "subject_restriction_of declared =
     (let ty = trim declared in
      if ty = ''actor'' then Inr RActor
      else case split_arrow ty of
        Some (resource, relation) \<Rightarrow>
          if resource = [] \<or> relation = []
          then Inl (CoreInvalidRelation (''invalid relation type '' @ quote ty @ '': expected ''
                 @ quote ''actor'' @ '', '' @ quote ''resource'' @ '', or '' @ quote ''resource->relation''))
          else Inr (REntitySet resource relation)
      | None \<Rightarrow>
          if ty = [] then Inl (CoreInvalidRelation ''empty relation type'')
          else Inr (REntitySet ty []))"

definition build_subject_restriction :: "string list \<Rightarrow> core_error + subject_restriction option" where
  "build_subject_restriction types =
     res_bind (map_res subject_restriction_of types) (\<lambda>restrictions.
     Inr (case restrictions of
            [] \<Rightarrow> None
          | [r] \<Rightarrow> Some r
          | _ \<Rightarrow> Some (RAnyOf restrictions)))"

definition build_relation :: "parsed_relation \<Rightarrow> core_error + relation_def" where
  "build_relation parsed =
     res_bind (build_subject_restriction (prel_types parsed)) (\<lambda>restriction.
     Inr ((relation_direct (prel_name parsed))
            \<lparr>reld_description := prel_doc parsed, reld_manages := prel_manages parsed,
             reld_restriction := restriction\<rparr>))"

definition build_permission :: "policy_specification \<Rightarrow> parsed_permission \<Rightarrow> core_error + relation_def" where
  "build_permission spec perm =
     res_bind
       (if pperm_expr perm = [] then Inr (ComputedUserset ''owner'')
        else res_bind (map_err core_error_from (parse (pperm_expr perm))) (\<lambda>user_expr.
               Inr (UnionOf [ComputedUserset ''owner'', user_expr]))) (\<lambda>expression.
     let expression' =
           (if spec = Defra \<and> pperm_name perm = ''read''
            then UnionOf [expression, ComputedUserset ''write''] else expression)
     in Inr ((relation_computed (pperm_name perm) expression')\<lparr>reld_description := pperm_doc perm\<rparr>))"

definition build_resource :: "policy_specification \<Rightarrow> parsed_resource \<Rightarrow> core_error + resource_def" where
  "build_resource spec res =
     res_bind (case List.find (\<lambda>relation. prel_name relation = ''owner'') (pres_relations res) of
                 Some owner \<Rightarrow> build_relation owner
               | None \<Rightarrow> Inr (relation_direct ''owner'')) (\<lambda>owner.
     res_bind (map_res build_relation
                 (filter (\<lambda>rel. prel_name rel \<noteq> ''owner'') (pres_relations res))) (\<lambda>relations.
     res_bind (map_res (build_permission spec) (pres_permissions res)) (\<lambda>permissions.
     Inr \<lparr>resd_name = pres_name res, resd_description = pres_description res,
          resd_relations = owner # relations @ permissions\<rparr>)))"

definition defra_check :: "parsed_policy \<Rightarrow> core_error + unit" where
  "defra_check parsed =
     (if pp_spec parsed = Defra then
        check_all (\<lambda>resource.
          check_all (\<lambda>permission.
            if \<not> pres_has_permission resource permission
            then Inl (CoreInvalidPolicy (''Defra specification requires permission '' @ quote permission
                   @ '' on resource '' @ quote (pres_name resource)))
            else Inr ()) [''read'', ''write''])
          (pp_resources parsed)
      else Inr ())"

definition build_policy :: "(bytes \<Rightarrow> bytes) \<Rightarrow> parsed_policy \<Rightarrow> u64 \<Rightarrow> core_error + policy" where
  "build_policy sha parsed counter =
     res_bind (schema_validate parsed) (\<lambda>_.
     res_bind (defra_check parsed) (\<lambda>_.
     let i = generate_policy_id sha parsed counter in
     res_bind (map_res (build_resource (pp_spec parsed)) (pp_resources parsed)) (\<lambda>resources.
     res_bind (map_res build_relation (pact_relations (pp_actor parsed))) (\<lambda>actor_relations.
     let p = \<lparr>pol_id = i, pol_name = pp_name parsed, pol_description = pp_description parsed,
              pol_actor = Some \<lparr>resd_name = ''actor'', resd_description = [],
                                resd_relations = actor_relations\<rparr>,
              pol_resources = resources, pol_attributes = pp_meta parsed,
              pol_specification = pp_spec parsed\<rparr>
     in res_bind (map_err (\<lambda>e. CoreInvalidPolicy (zerror_to_string e)) (policy_validate p)) (\<lambda>_.
        Inr p)))))"


section \<open>Expression checks\<close>

datatype expr_token = TIdentifier string | TOperator | TTupleToUserset | TParen

function tokenize_expression :: "string \<Rightarrow> string + expr_token list" where
  "tokenize_expression [] = Inr []"
| "tokenize_expression (c # cs) =
     (if c \<in> {CHR 0x20, CHR 0x09, CHR 0x0A, CHR 0x0D} then tokenize_expression cs
      else if c = CHR ''-'' \<and> cs \<noteq> [] \<and> hd cs = CHR ''>''
        then res_bind (tokenize_expression (tl cs)) (\<lambda>ts. Inr (TTupleToUserset # ts))
      else if c \<in> {CHR ''+'', CHR ''-'', CHR ''&''}
        then res_bind (tokenize_expression cs) (\<lambda>ts. Inr (TOperator # ts))
      else if c \<in> {CHR ''('', CHR '')''}
        then res_bind (tokenize_expression cs) (\<lambda>ts. Inr (TParen # ts))
      else if is_ascii_alphabetic c \<or> c = CHR ''_'' then
        (let word = (\<lambda>d. is_ascii_alphanumeric d \<or> d = CHR ''_'') in
         res_bind (tokenize_expression (dropWhile word cs)) (\<lambda>ts.
           Inr (TIdentifier (c # takeWhile word cs) # ts)))
      else Inl ''token recognition error'')"
  by pat_completeness auto
termination
  by (relation "measure length") (auto simp: le_imp_less_Suc length_dropWhile_le)

fun check_tokens ::
  "parsed_policy \<Rightarrow> parsed_resource \<Rightarrow> bool \<Rightarrow> expr_token list \<Rightarrow> string + unit" where
  "check_tokens policy resource skip [] = Inr ()"
| "check_tokens policy resource skip (TIdentifier name # ts) =
     (if skip then check_tokens policy resource False ts
      else if name = ''owner'' then Inl (''permission cannot reference `owner` relation'')
      else if \<not> pres_has_relation resource name \<and> \<not> pres_has_permission resource name then
        (if list_ex (\<lambda>r. pres_name r \<noteq> pres_name resource
                      \<and> (pres_has_relation r name \<or> pres_has_permission r name)) (pp_resources policy)
         then Inl ''resource does not have relation''
         else Inl ''BAD_INPUT'')
      else check_tokens policy resource False ts)"
| "check_tokens policy resource skip (TTupleToUserset # ts) = check_tokens policy resource True ts"
| "check_tokens policy resource skip (TOperator # ts) = check_tokens policy resource skip ts"
| "check_tokens policy resource skip (TParen # ts) = check_tokens policy resource skip ts"

definition reserved_owner_message :: "string \<Rightarrow> string" where
  "reserved_owner_message resource =
     ''invalid resource: '' @ [CHR 0x27] @ ''owner` is a reserved relation name: rename '' @ quote ''owner''
       @ '' to a different name; attrs={\"resource\":\"'' @ resource
       @ ''\",\"transformer\":\"Discretionary transformer\"}; kind=BAD_INPUT''"

definition validate_policy_expressions :: "parsed_policy \<Rightarrow> string + unit" where
  "validate_policy_expressions policy =
     check_all (\<lambda>resource.
       res_bind (check_all (\<lambda>relation.
           if prel_name relation = ''owner'' then Inl (reserved_owner_message (pres_name resource))
           else Inr ()) (pres_relations resource)) (\<lambda>_.
       check_all (\<lambda>permission.
         if pperm_expr permission = [] then Inr ()
         else res_bind (tokenize_expression (pperm_expr permission)) (\<lambda>tokens.
                check_tokens policy resource False tokens))
         (pres_permissions resource)))
       (pp_resources policy)"


section \<open>What the schema guarantees\<close>

lemma relation_names_loop_ok:
  "relation_names_loop with_owner names rels = Inr ns \<Longrightarrow>
     distinct (map prel_name rels) \<and> set (map prel_name rels) \<inter> names = {} \<and>
     ns = names \<union> set (map prel_name rels) \<union> (if with_owner then {''owner''} else {})"
proof (induction rels arbitrary: names)
  case (Cons rel rels)
  then have "relation_names_loop with_owner (insert (prel_name rel) names) rels = Inr ns"
    and "prel_name rel \<notin> names"
    by (auto split: if_splits)
  with Cons.IH [of "insert (prel_name rel) names"] show ?case by auto
qed (auto split: if_splits)

lemma permission_names_loop_ok:
  "permission_names_loop names perms = Inr ns \<Longrightarrow>
     distinct (map pperm_name perms) \<and> set (map pperm_name perms) \<inter> names = {}"
proof (induction perms arbitrary: names)
  case (Cons perm perms)
  then have "permission_names_loop (insert (pperm_name perm) names) perms = Inr ns"
    and "pperm_name perm \<notin> names"
    by (auto split: if_splits)
  with Cons.IH [of "insert (pperm_name perm) names"] show ?case by auto
qed auto

text \<open>The relation names a resource will have: \<open>owner\<close> first, then the others, then the permissions.\<close>

definition built_names :: "parsed_resource \<Rightarrow> string list" where
  "built_names res =
     ''owner'' # filter (\<lambda>l. l \<noteq> ''owner'') (map prel_name (pres_relations res))
       @ map pperm_name (pres_permissions res)"

lemma resource_names_ok:
  assumes "relation_names (pres_relations res) True = Inr ns"
    and "permission_names_loop ns (pres_permissions res) = Inr ns'"
  shows "distinct (built_names res)"
  using relation_names_loop_ok [OF assms(1) [unfolded relation_names_def]]
    permission_names_loop_ok [OF assms(2)]
  by (auto simp: built_names_def)

lemma resource_names_loop_ok:
  "resource_names_loop names rs = Inr names' \<Longrightarrow>
     distinct (map pres_name rs) \<and> set (map pres_name rs) \<inter> dom names = {} \<and>
     ''actor'' \<notin> set (map pres_name rs) \<and> (\<forall>res \<in> set rs. distinct (built_names res))"
proof (induction rs arbitrary: names)
  case (Cons res rs)
  from Cons.prems obtain ns ns' where r: "relation_names (pres_relations res) True = Inr ns"
      "permission_names_loop ns (pres_permissions res) = Inr ns'"
    and fresh: "pres_name res \<noteq> ''actor''" "pres_name res \<notin> dom names"
    and rest: "resource_names_loop (names(pres_name res \<mapsto> ns')) rs = Inr names'"
    by (auto simp del: fun_upd_apply split: if_splits)
  from Cons.IH [OF rest] fresh resource_names_ok [OF r] show ?case by auto
qed auto

lemma build_relation_ok:
  "build_relation x = Inr y \<Longrightarrow> reld_name y = prel_name x \<and> reld_expression y = This"
  by (auto simp: build_relation_def relation_direct_def)

text \<open>The expression of a permission, with the part the policy's author wrote.\<close>

definition permission_expression ::
  "policy_specification \<Rightarrow> string \<Rightarrow> relation_expression \<Rightarrow> relation_expression" where
  "permission_expression spec name e =
     (if spec = Defra \<and> name = ''read'' then UnionOf [e, ComputedUserset ''write''] else e)"

lemma build_permission_ok:
  assumes "build_permission spec perm = Inr y"
  shows "reld_name y = pperm_name perm \<and>
    (\<exists>e. (e = ComputedUserset ''owner'' \<or> (\<exists>u. e = UnionOf [ComputedUserset ''owner'', u])) \<and>
         reld_expression y = permission_expression spec (pperm_name perm) e)"
  using assms
  by (auto simp: build_permission_def relation_computed_def permission_expression_def Let_def
      split: if_splits)

lemma build_resource_ok:
  assumes "build_resource spec res = Inr r"
  shows "resd_name r = pres_name res" and "map reld_name (resd_relations r) = built_names res"
    and "\<exists>o' rels. resd_relations r = o' # rels \<and> reld_name o' = ''owner'' \<and> reld_expression o' = This"
    and "rel \<in> set (resd_relations r) \<Longrightarrow>
      reld_expression rel = This \<or>
      (\<exists>perm \<in> set (pres_permissions res). build_permission spec perm = Inr rel)"
proof -
  obtain ow rels perms where
    ow: "(case List.find (\<lambda>relation. prel_name relation = ''owner'') (pres_relations res) of
                 Some owner \<Rightarrow> build_relation owner
               | None \<Rightarrow> Inr (relation_direct ''owner'')) = Inr ow"
    and rels: "map_res build_relation (filter (\<lambda>rel. prel_name rel \<noteq> ''owner'') (pres_relations res)) = Inr rels"
    and perms: "map_res (build_permission spec) (pres_permissions res) = Inr perms"
    and r: "r = \<lparr>resd_name = pres_name res, resd_description = pres_description res,
          resd_relations = ow # rels @ perms\<rparr>"
    using assms by (auto simp: build_resource_def)
  have ow': "reld_name ow = ''owner'' \<and> reld_expression ow = This"
    using ow by (auto simp: find_Some_iff relation_direct_def dest!: build_relation_ok split: option.splits)
  show "resd_name r = pres_name res" by (simp add: r)
  have "map reld_name rels = map prel_name (filter (\<lambda>rel. prel_name rel \<noteq> ''owner'') (pres_relations res))"
    using rels by (auto simp: map_res_ok intro!: list_all2_map_eq dest: build_relation_ok)
  moreover have "map reld_name perms = map pperm_name (pres_permissions res)"
    using perms by (auto simp: map_res_ok intro!: list_all2_map_eq dest: build_permission_ok)
  ultimately show "map reld_name (resd_relations r) = built_names res"
    using ow' by (simp add: r built_names_def filter_map comp_def)
  show "\<exists>o' rels. resd_relations r = o' # rels \<and> reld_name o' = ''owner'' \<and> reld_expression o' = This"
    using ow' by (simp add: r)
  show "reld_expression rel = This \<or>
      (\<exists>perm \<in> set (pres_permissions res). build_permission spec perm = Inr rel)"
    if "rel \<in> set (resd_relations r)"
  proof -
    have "rel = ow \<or> rel \<in> set rels \<or> rel \<in> set perms" using that by (auto simp: r)
    then show ?thesis
    proof (elim disjE)
      assume "rel \<in> set rels"
      with rels show ?thesis by (auto simp: map_res_ok dest: list_all2_in_right build_relation_ok)
    next
      assume "rel \<in> set perms"
      with perms show ?thesis by (auto simp: map_res_ok dest: list_all2_in_right)
    qed (use ow' in simp)
  qed
qed

lemma build_policy_parts:
  assumes "build_policy sha parsed counter = Inr p"
  shows "list_all2 (\<lambda>res r. build_resource (pp_spec parsed) res = Inr r) (pp_resources parsed) (pol_resources p)"
    and "\<exists>rels. pol_actor p = Some \<lparr>resd_name = ''actor'', resd_description = [], resd_relations = rels\<rparr> \<and>
           list_all2 (\<lambda>x y. build_relation x = Inr y) (pact_relations (pp_actor parsed)) rels"
    and "schema_validate parsed = Inr ()" and "defra_check parsed = Inr ()"
    and "policy_validate p = Inr ()" and "pol_id p = generate_policy_id sha parsed counter"
  using assms by (auto simp: build_policy_def map_res_ok Let_def)

lemma built_resource:
  assumes "build_policy sha parsed counter = Inr p" and "r \<in> set (pol_resources p)"
  shows "\<exists>res \<in> set (pp_resources parsed). build_resource (pp_spec parsed) res = Inr r"
  using build_policy_parts(1) [OF assms(1)] assms(2) by (rule list_all2_in_right)

lemma build_policy_distinct_names:
  assumes "build_policy sha parsed counter = Inr p"
  shows "distinct_names p"
proof -
  from build_policy_parts(3) [OF assms] obtain names actor where
    names: "resource_names_loop Map.empty (pp_resources parsed) = Inr names"
    and actor: "relation_names (pact_relations (pp_actor parsed)) False = Inr actor"
    by (auto simp: schema_validate_def Let_def split: if_splits)
  obtain rels where a: "pol_actor p = Some \<lparr>resd_name = ''actor'', resd_description = [], resd_relations = rels\<rparr>"
    and rels: "list_all2 (\<lambda>x y. build_relation x = Inr y) (pact_relations (pp_actor parsed)) rels"
    using build_policy_parts(2) [OF assms] by blast
  have rn: "map reld_name rels = map prel_name (pact_relations (pp_actor parsed))"
    using rels by (rule list_all2_map_eq) (simp add: build_relation_ok)
  have n: "map resd_name (pol_resources p) = map pres_name (pp_resources parsed)"
    using build_policy_parts(1) [OF assms] by (rule list_all2_map_eq) (simp add: build_resource_ok(1))
  note ok = resource_names_loop_ok [OF names]
  have "distinct (map resd_name (pol_resources p @ actor_list p))"
    using ok n by (simp add: actor_list_def a flip: set_map)
  moreover have "distinct (map reld_name (resd_relations r))" if r: "r \<in> set (pol_resources p)" for r
  proof -
    from built_resource [OF assms r] obtain res where "res \<in> set (pp_resources parsed)"
      "build_resource (pp_spec parsed) res = Inr r" by blast
    with ok build_resource_ok(2) [of "pp_spec parsed" res r] show ?thesis by simp
  qed
  moreover have "distinct (map reld_name rels)"
    using relation_names_loop_ok [OF actor [unfolded relation_names_def]] rn by simp
  ultimately show ?thesis by (auto simp: distinct_names_def actor_list_def a)
qed

lemma nothing_disallowed: "find_disallowed_operation e = None"
proof (induction e)
  case (UnionOf es)
  then have "find_map find_disallowed_operation es = None" by (induction es) auto
  then show ?case by simp
next
  case (IntersectionOf es)
  then have "find_map find_disallowed_operation es = None" by (induction es) auto
  then show ?case by simp
qed auto

lemma permission_includes_owner:
  "e = ComputedUserset ''owner'' \<or> (\<exists>u. e = UnionOf [ComputedUserset ''owner'', u]) \<Longrightarrow>
     expression_includes_owner (permission_expression spec name e)"
  by (auto simp: permission_expression_def)

lemma built_relation_dpi:
  assumes "build_resource spec res = Inr r" and "rel \<in> set (resd_relations r)"
  shows "validate_dpi_relation r rel = Inr ()"
  using build_resource_ok(4) [OF assms]
  by (auto simp: validate_dpi_relation_def nothing_disallowed permission_includes_owner
      dest!: build_permission_ok)

lemma build_policy_dpi:
  assumes "build_policy sha parsed counter = Inr p"
  shows "validate_dpi p = Inr ()"
  unfolding validate_dpi_def check_all_ok
proof
  fix r assume "r \<in> set (pol_resources p)"
  from built_resource [OF assms this] obtain res where res: "build_resource (pp_spec parsed) res = Inr r"
    by blast
  have "resource_get_relation r ''owner'' \<noteq> None"
    using build_resource_ok(3) [OF res] by (auto simp: resource_get_relation_def)
  then show "(if resource_get_relation r ''owner'' = None then Inl (DpiMissingOwner (resd_name r))
         else check_all (validate_dpi_relation r) (resd_relations r)) = Inr ()"
    using built_relation_dpi [OF res] by simp
qed


section \<open>What a built policy grants\<close>

lemma built_permission_expression:
  assumes "build_policy sha parsed counter = Inr p"
    and "res \<in> set (pp_resources parsed)" and "perm \<in> set (pres_permissions res)"
  shows "\<exists>e. (e = ComputedUserset ''owner'' \<or> (\<exists>u. e = UnionOf [ComputedUserset ''owner'', u])) \<and>
    get_expression (add_policy t p) (pol_id p) (pres_name res) (pperm_name perm) =
      Inr (permission_expression (pp_spec parsed) (pperm_name perm) e)"
proof -
  obtain r where r: "r \<in> set (pol_resources p)" and res: "build_resource (pp_spec parsed) res = Inr r"
    using list_all2_in_left [OF build_policy_parts(1) [OF assms(1)] assms(2)] by blast
  obtain perms where "map_res (build_permission (pp_spec parsed)) (pres_permissions res) = Inr perms"
    and "set perms \<subseteq> set (resd_relations r)"
    using res by (auto simp: build_resource_def subset_iff)
  then obtain rel where rel: "rel \<in> set (resd_relations r)" and b: "build_permission (pp_spec parsed) perm = Inr rel"
    using list_all2_in_left [of _ _ perms, OF _ assms(3)] by (fastforce simp: map_res_ok)
  note dn = build_policy_distinct_names [OF assms(1)]
  have "get_resource p (resd_name r) = Some r"
    unfolding get_resource_find by (rule find_distinct) (use dn r in \<open>auto simp: distinct_names_def\<close>)
  moreover have "resource_get_relation r (reld_name rel) = Some rel"
    unfolding resource_get_relation_def
    by (rule find_distinct) (use dn r rel in \<open>auto simp: distinct_names_def\<close>)
  ultimately have "get_relation p (pres_name res) (pperm_name perm) = Some rel"
    using build_resource_ok(1) [OF res] build_permission_ok [OF b] by (simp add: get_relation_def)
  then show ?thesis
    using build_permission_ok [OF b] get_expression_relation [OF dn] by blast
qed

lemma owner_expression:
  assumes "build_policy sha parsed counter = Inr p" and "res \<in> set (pp_resources parsed)"
  shows "get_expression (add_policy t p) (pol_id p) (pres_name res) ''owner'' = Inr This"
proof -
  obtain r where r: "r \<in> set (pol_resources p)" and res: "build_resource (pp_spec parsed) res = Inr r"
    using list_all2_in_left [OF build_policy_parts(1) [OF assms(1)] assms(2)] by blast
  note dn = build_policy_distinct_names [OF assms(1)]
  have "get_resource p (resd_name r) = Some r"
    unfolding get_resource_find by (rule find_distinct) (use dn r in \<open>auto simp: distinct_names_def\<close>)
  moreover obtain ow where "resource_get_relation r ''owner'' = Some ow" "reld_expression ow = This"
    using build_resource_ok(3) [OF res] by (auto simp: resource_get_relation_def)
  ultimately have "get_relation p (pres_name res) ''owner'' = Some ow"
    using build_resource_ok(1) [OF res] by (simp add: get_relation_def)
  then show ?thesis using \<open>reld_expression ow = This\<close> get_expression_relation [OF dn] by blast
qed

lemma owner_grants_permission:
  assumes "e = ComputedUserset ''owner'' \<or> (\<exists>u. e = UnionOf [ComputedUserset ''owner'', u])"
    and "granted lk R pid sbj n (ComputedUserset ''owner'')"
  shows "granted lk R pid sbj n (permission_expression spec name e)"
proof -
  have "granted lk R pid sbj n (UnionOf [ComputedUserset ''owner'', u])" for u
    by (rule g_union [OF _ assms(2)]) simp
  with assms have "granted lk R pid sbj n e" by (elim disjE exE) simp_all
  then have "granted lk R pid sbj n (UnionOf [e, ComputedUserset ''write''])"
    by (rule g_union [rotated]) simp
  with \<open>granted lk R pid sbj n e\<close> show ?thesis by (simp add: permission_expression_def)
qed


text \<open>A definition on which the theorems below are exercised.\<close>

definition parsed_demo :: parsed_policy where
  "parsed_demo = \<lparr>pp_name = ''demo'', pp_description = [], pp_spec = Defra, pp_meta = [],
     pp_actor = \<lparr>pact_relations = []\<rparr>,
     pp_resources = [\<lparr>pres_name = ''file'', pres_description = [],
       pres_permissions = [\<lparr>pperm_name = ''read'', pperm_doc = [], pperm_expr = ''reader - blocked''\<rparr>,
                           \<lparr>pperm_name = ''write'', pperm_doc = [], pperm_expr = []\<rparr>],
       pres_relations = [\<lparr>prel_name = ''reader'', prel_doc = [], prel_types = [''actor''], prel_manages = []\<rparr>,
                         \<lparr>prel_name = ''blocked'', prel_doc = [], prel_types = [], prel_manages = [''reader'']\<rparr>]\<rparr>]\<rparr>"

definition built_demo :: policy where
  "built_demo = (case build_policy (\<lambda>_. ''k'') parsed_demo 1 of Inr p \<Rightarrow> p | Inl _ \<Rightarrow> policy_new [] [])"

lemmas text_simps = trim_def is_space_def is_ascii_alphanumeric_def is_ascii_alphabetic_def
  is_ascii_digit_def byte_between_def

lemma demo_expression:
  "parse ''reader - blocked'' = Inr (Difference (ComputedUserset ''reader'') (ComputedUserset ''blocked''))"
  by (simp add: parse_def parse_bounded_numeral is_fully_parenthesized_def find_rightmost_operator_def
      parse_term_def validate_identifier_def text_simps)

lemma demo_schema: "schema_validate parsed_demo = Inr ()"
  by (simp add: schema_validate_def parsed_demo_def schema_identifier_def relation_names_def
      validate_references_def Let_def text_simps)

lemma demo_build: "build_policy (\<lambda>_. ''k'') parsed_demo 1 = Inr built_demo"
proof -
  have "is_ok (build_policy (\<lambda>_. ''k'') parsed_demo 1)"
    unfolding build_policy_def demo_schema
    by (simp add: parsed_demo_def defra_check_def pres_has_permission_def build_resource_def
        build_relation_def build_subject_restriction_def subject_restriction_of_def build_permission_def
        demo_expression policy_validate_def relation_direct_def relation_computed_def get_relation_def
        get_resource_def resource_get_relation_def actor_list_def Let_def text_simps)
  then show ?thesis by (auto simp: built_demo_def is_ok_iff)
qed

lemma demo_built_id: "pol_id built_demo = ''6b''"
  using build_policy_parts(6) [OF demo_build] by (simp add: generate_policy_id_def hex_lower_def)

text \<open>C18. Every policy that \<open>build_policy\<close> accepts has distinct resource names and distinct relation names
  within each resource (so that the lookup table and the policy agree), passes \<open>Policy::validate\<close> and
  passes the DPI check.\<close>

theorem built_policy_is_well_formed:
  assumes "build_policy sha parsed counter = Inr p"
  shows "distinct_names p \<and> policy_validate p = Inr () \<and> validate_dpi p = Inr ()"
  using build_policy_distinct_names [OF assms] build_policy_parts(5) [OF assms] build_policy_dpi [OF assms]
  by simp

text \<open>C4. Whatever expression the author of a policy gives to a permission, the owner of an object has it:
  an actor stored under \<open>owner\<close> is permitted every permission of the object's resource.\<close>

theorem built_policy_owner_has_every_permission:
  assumes "build_policy sha parsed counter = Inr p"
    and "res \<in> set (pp_resources parsed)" and "perm \<in> set (pres_permissions res)"
    and "Entity d \<in> R (pol_id p) (pres_name res, ob, ''owner'')"
  shows "permitted (add_policy t p) R (pol_id p) d (pres_name res, ob, pperm_name perm)"
proof -
  obtain e where e: "e = ComputedUserset ''owner'' \<or> (\<exists>u. e = UnionOf [ComputedUserset ''owner'', u])"
    and get: "get_expression (add_policy t p) (pol_id p) (pres_name res) (pperm_name perm) =
      Inr (permission_expression (pp_spec parsed) (pperm_name perm) e)"
    using built_permission_expression [OF assms(1-3)] by blast
  have "granted (add_policy t p) R (pol_id p) d (pres_name res, ob, ''owner'') This"
    using assms(4) by (auto simp: direct_grant_def intro: g_direct)
  from g_computed [OF owner_expression [OF assms(1,2)] this]
  have "granted (add_policy t p) R (pol_id p) d (pres_name res, ob, pperm_name perm)
      (permission_expression (pp_spec parsed) (pperm_name perm) e)"
    by (rule owner_grants_permission [OF e])
  with get show ?thesis by (simp add: permitted_def node_expression_def)
qed

text \<open>C19. In a policy with the Defra specification, write access implies read access on every object.\<close>

theorem defra_write_implies_read:
  assumes "build_policy sha parsed counter = Inr p" and "pp_spec parsed = Defra"
    and "res \<in> set (pp_resources parsed)"
    and "permitted (add_policy t p) R (pol_id p) d (pres_name res, ob, ''write'')"
  shows "permitted (add_policy t p) R (pol_id p) d (pres_name res, ob, ''read'')"
proof -
  have "pres_has_permission res ''read''"
    using build_policy_parts(4) [OF assms(1)] assms(2,3) by (auto simp: defra_check_def split: if_splits)
  then obtain perm where perm: "perm \<in> set (pres_permissions res)" "pperm_name perm = ''read''"
    by (auto simp: pres_has_permission_def list_ex_iff)
  from built_permission_expression [OF assms(1,3) perm(1), of t] perm(2) assms(2) obtain e where
    "get_expression (add_policy t p) (pol_id p) (pres_name res) ''read'' =
      Inr (UnionOf [e, ComputedUserset ''write''])"
    by (auto simp: permission_expression_def)
  moreover obtain ew where "get_expression (add_policy t p) (pol_id p) (pres_name res) ''write'' = Inr ew"
      "granted (add_policy t p) R (pol_id p) d (pres_name res, ob, ''write'') ew"
    using assms(4) by (auto simp: permitted_def node_expression_def)
  then have "granted (add_policy t p) R (pol_id p) d (pres_name res, ob, ''read'') (ComputedUserset ''write'')"
    by (rule g_computed)
  then have "granted (add_policy t p) R (pol_id p) d (pres_name res, ob, ''read'')
      (UnionOf [e, ComputedUserset ''write''])"
    by (rule g_union [rotated]) simp
  ultimately show ?thesis by (simp add: permitted_def node_expression_def)
qed

theorem built_policy_is_well_formed_witness:
  "distinct_names built_demo \<and> policy_validate built_demo = Inr () \<and> validate_dpi built_demo = Inr ()"
  by (rule built_policy_is_well_formed [OF demo_build])

theorem built_policy_owner_has_every_permission_witness:
  "permitted (add_policy lookup_new built_demo)
     (\<lambda>_ n. if n = (''file'', ''1'', ''owner'') then {Entity (Did ''did:key:o'')} else {}) ''6b''
     (Did ''did:key:o'') (''file'', ''1'', ''read'')"
  using built_policy_owner_has_every_permission [OF demo_build, of "hd (pp_resources parsed_demo)"
      "hd (pres_permissions (hd (pp_resources parsed_demo)))" "Did ''did:key:o''"
      "\<lambda>_ n. if n = (''file'', ''1'', ''owner'') then {Entity (Did ''did:key:o'')} else {}" "''1''"]
  by (simp add: parsed_demo_def demo_built_id)

theorem defra_write_implies_read_witness:
  "permitted (add_policy lookup_new built_demo) (\<lambda>_ _. {Wildcard}) ''6b'' (Did ''did:key:o'')
     (''file'', ''1'', ''read'')"
proof -
  let ?res = "hd (pp_resources parsed_demo)"
  have "get_expression (add_policy lookup_new built_demo) (pol_id built_demo) (pres_name ?res) ''owner'' = Inr This"
    by (rule owner_expression [OF demo_build]) (simp add: parsed_demo_def)
  moreover have "granted (add_policy lookup_new built_demo) (\<lambda>_ _. {Wildcard}) (pol_id built_demo)
      (Did ''did:key:o'') (pres_name ?res, ''1'', ''owner'') This"
    by (auto simp: direct_grant_def intro: g_direct)
  ultimately have owner: "granted (add_policy lookup_new built_demo) (\<lambda>_ _. {Wildcard}) (pol_id built_demo)
      (Did ''did:key:o'') (pres_name ?res, ''1'', ''write'') (ComputedUserset ''owner'')"
    by (rule g_computed)
  obtain e where "e = ComputedUserset ''owner'' \<or> (\<exists>u. e = UnionOf [ComputedUserset ''owner'', u])"
    "get_expression (add_policy lookup_new built_demo) (pol_id built_demo) (pres_name ?res) ''write'' =
       Inr (permission_expression Defra ''write'' e)"
    using built_permission_expression [OF demo_build, of ?res "last (pres_permissions ?res)" lookup_new]
    by (auto simp: parsed_demo_def)
  then have "permitted (add_policy lookup_new built_demo) (\<lambda>_ _. {Wildcard}) (pol_id built_demo)
      (Did ''did:key:o'') (pres_name ?res, ''1'', ''write'')"
    using owner_grants_permission [OF _ owner] by (auto simp: permitted_def node_expression_def)
  from defra_write_implies_read [OF demo_build _ _ this] show ?thesis
    by (simp add: parsed_demo_def demo_built_id)
qed

end
