(* ===== verification/Policy_Yaml.thy ===== *)
theory Policy_Yaml
  imports Acp_Policy
begin

text \<open>
  Reading a policy definition from YAML: the budgeted visitor of \<open>acp/src/policy_yaml/bounded_yaml.rs\<close>
  and the functions of \<open>parse.rs\<close>. The YAML scanner and the derived \<open>Deserialize\<close> instances are
  library code: \<open>policy_libs\<close> holds the sequence of visits the scanner makes for a text, aliases
  expanded, as a tree, the conversion of a value to a definition, and the equality of values by which
  \<open>Mapping::contains_key\<close> finds a key. That equality is the library's, not that of the data structure: for
  instance it does not depend on the order of the entries of a mapping. Nothing is assumed about it.

  The visitor charges every value it keeps. What it accepts fits the two budgets, has no repeated key,
  and is exactly the value the scanner described; what it refuses breaks one of these.
\<close>

section \<open>Values and visits\<close>

datatype yaml_number = PosInt u64 | NegInt int | Float string

datatype yaml_value =
    YNull
  | YBool bool
  | YNumber yaml_number
  | YString string
  | YSequence "yaml_value list"
  | YMapping "(yaml_value \<times> yaml_value) list"
  | YTagged string yaml_value

text \<open>One constructor per method of the visitor; \<open>InError\<close> is an error of the scanner.\<close>

datatype yaml_input =
    InError string
  | InUnit
  | InNone
  | InSome yaml_input
  | InBool bool
  | InNumber yaml_number
  | InString string
  | InSeq "yaml_input list"
  | InMap "yaml_entry list"
  | InEnum string yaml_input
  and yaml_entry = InEntry yaml_input yaml_input

record policy_libs =
  yaml_document :: "string \<Rightarrow> yaml_input"
  yaml_value_eq :: "yaml_value \<Rightarrow> yaml_value \<Rightarrow> bool"
  yaml_from_value :: "yaml_value \<Rightarrow> string + parsed_policy"
  json_parsed_policy :: "string \<Rightarrow> string + parsed_policy"


section \<open>The budgeted visitor\<close>

record budget =
  bud_nodes :: nat
  bud_bytes :: nat

definition budget_bytes :: "nat \<Rightarrow> (budget, string, unit) stm" where
  "budget_bytes amount b =
     (if amount \<le> bud_bytes b then (Inr (), b\<lparr>bud_bytes := bud_bytes b - amount\<rparr>)
      else (Inl ''policy YAML expansion exceeds byte limit'', b))"

definition budget_node :: "(budget, string, unit) stm" where
  "budget_node b =
     (if 1 \<le> bud_nodes b then (Inr (), b\<lparr>bud_nodes := bud_nodes b - 1\<rparr>)
      else (Inl ''policy YAML expansion exceeds node limit'', b))"

definition duplicate_key_message :: "yaml_value \<Rightarrow> string" where
  "duplicate_key_message key =
     (case key of
        YString k \<Rightarrow> ''duplicate entry with key '' @ [CHR 0x22] @ k @ [CHR 0x22]
      | _ \<Rightarrow> ''duplicate entry with non-string key'')"

fun bounded_value :: "(yaml_value \<Rightarrow> yaml_value \<Rightarrow> bool) \<Rightarrow> yaml_input \<Rightarrow> (budget, string, yaml_value) stm"
  and bounded_seq :: "(yaml_value \<Rightarrow> yaml_value \<Rightarrow> bool) \<Rightarrow> yaml_input list \<Rightarrow> (budget, string, yaml_value list) stm"
  and bounded_map :: "(yaml_value \<Rightarrow> yaml_value \<Rightarrow> bool) \<Rightarrow> (yaml_value \<times> yaml_value) list \<Rightarrow> yaml_entry list \<Rightarrow>
        (budget, string, (yaml_value \<times> yaml_value) list) stm" where
  "bounded_value same (InError e) = st_bind budget_node (\<lambda>_. st_fail e)"
| "bounded_value same InUnit = st_bind budget_node (\<lambda>_. st_ret YNull)"
| "bounded_value same InNone = st_bind budget_node (\<lambda>_. st_ret YNull)"
| "bounded_value same (InSome t) = st_bind budget_node (\<lambda>_. bounded_value same t)"
| "bounded_value same (InBool v) = st_bind budget_node (\<lambda>_. st_ret (YBool v))"
| "bounded_value same (InNumber v) = st_bind budget_node (\<lambda>_. st_ret (YNumber v))"
| "bounded_value same (InString v) = st_bind budget_node (\<lambda>_.
     st_bind (budget_bytes (length v)) (\<lambda>_. st_ret (YString v)))"
| "bounded_value same (InSeq ts) = st_bind budget_node (\<lambda>_.
     st_bind (bounded_seq same ts) (\<lambda>vs. st_ret (YSequence vs)))"
| "bounded_value same (InMap ts) = st_bind budget_node (\<lambda>_.
     st_bind (bounded_map same [] ts) (\<lambda>vs. st_ret (YMapping vs)))"
| "bounded_value same (InEnum tag t) = st_bind budget_node (\<lambda>_.
     if tag = [] then st_fail ''empty YAML tag is not allowed''
     else st_bind (budget_bytes (length tag)) (\<lambda>_.
          st_bind (bounded_value same t) (\<lambda>v. st_ret (YTagged tag v))))"
| "bounded_seq same [] = st_ret []"
| "bounded_seq same (t # ts) = st_bind (bounded_value same t) (\<lambda>v.
     st_bind (bounded_seq same ts) (\<lambda>vs. st_ret (v # vs)))"
| "bounded_map same seen [] = st_ret []"
| "bounded_map same seen (InEntry k t # ts) = st_bind (bounded_value same k) (\<lambda>key.
     if list_ex (\<lambda>e. same (fst e) key) seen then st_fail (duplicate_key_message key)
     else st_bind (bounded_value same t) (\<lambda>v.
          st_bind (bounded_map same (seen @ [(key, v)]) ts) (\<lambda>vs. st_ret ((key, v) # vs))))"

definition bounded_parse :: "policy_libs \<Rightarrow> string \<Rightarrow> string + yaml_value" where
  "bounded_parse plibs input =
     (if length input > 64 * 1024 then Inl ''policy definition exceeds 64 KiB''
      else fst (bounded_value (yaml_value_eq plibs) (yaml_document plibs input)
                  \<lparr>bud_nodes = 64 * 1024, bud_bytes = 1024 * 1024\<rparr>))"

definition parse_policy_yaml :: "policy_libs \<Rightarrow> string \<Rightarrow> string + parsed_policy" where
  "parse_policy_yaml plibs yaml =
     (if length yaml > 64 * 1024 then Inl ''policy definition exceeds 64 KiB''
      else res_bind (map_err (\<lambda>e. ''invalid policy YAML: '' @ e) (bounded_parse plibs yaml)) (\<lambda>v.
           map_err (\<lambda>e. ''invalid policy YAML: '' @ e) (yaml_from_value plibs v)))"


section \<open>Repeated keys in the text\<close>

fun lines_loop :: "string \<Rightarrow> string \<Rightarrow> string list" where
  "lines_loop cur [] = (if cur = [] then [] else [rev cur])"
| "lines_loop cur (c # cs) =
     (if c = CHR 0x0A
      then rev (if cur \<noteq> [] \<and> hd cur = CHR 0x0D then tl cur else cur) # lines_loop [] cs
      else lines_loop (c # cur) cs)"

definition text_lines :: "string \<Rightarrow> string list" where
  "text_lines s = lines_loop [] s"

definition trim_start :: "string \<Rightarrow> string" where
  "trim_start s = dropWhile is_space s"

definition extract_yaml_map_key :: "string \<Rightarrow> string option" where
  "extract_yaml_map_key trimmed =
     (if CHR '':'' \<in> set trimmed
      then (let key = trim (takeWhile (\<lambda>c. c \<noteq> CHR '':'') trimmed) in
            if key \<noteq> [] \<and> CHR '' '' \<notin> set key then Some key else None)
      else None)"

text \<open>The stack has its top first.\<close>

fun scan_lines :: "(nat \<times> string list) list \<Rightarrow> string list \<Rightarrow> string + unit" where
  "scan_lines stack [] = Inr ()"
| "scan_lines stack (line # rest) =
     (let trimmed = trim line;
          indent = length line - length (trim_start line) in
      if trimmed = [] \<or> starts_with trimmed ''#'' then scan_lines stack rest
      else if starts_with trimmed ''-''
      then scan_lines (dropWhile (\<lambda>e. fst e \<ge> indent) stack) rest
      else
        (case extract_yaml_map_key trimmed of
           None \<Rightarrow> scan_lines stack rest
         | Some key \<Rightarrow>
             (case dropWhile (\<lambda>e. fst e > indent) stack of
                (level, ks) # below \<Rightarrow>
                  if level = indent
                  then if key \<in> set ks
                       then Inl (''key '' @ [CHR 0x22] @ key @ [CHR 0x22] @ '' already set in map'')
                       else scan_lines ((level, ks @ [key]) # below) rest
                  else scan_lines ((indent, [key]) # (level, ks) # below) rest
              | [] \<Rightarrow> scan_lines [(indent, [key])] rest)))"

definition scan_raw_yaml_for_duplicates :: "string \<Rightarrow> string + unit" where
  "scan_raw_yaml_for_duplicates yaml_text = scan_lines [] (text_lines yaml_text)"

text \<open>\<open>str::find\<close>: the rest of a text from the first occurrence of a pattern.\<close>

fun find_from :: "string \<Rightarrow> string \<Rightarrow> string option" where
  "find_from p s =
     (if prefix p s then Some s
      else case s of [] \<Rightarrow> None | c # cs \<Rightarrow> find_from p cs)"

definition check_duplicate_yaml_keys :: "policy_libs \<Rightarrow> string \<Rightarrow> string + unit" where
  "check_duplicate_yaml_keys plibs yaml_text =
     (case bounded_parse plibs yaml_text of
        Inr _ \<Rightarrow> scan_raw_yaml_for_duplicates yaml_text
      | Inl err_msg \<Rightarrow>
          (case find_from ''duplicate entry with key'' err_msg of
             None \<Rightarrow> Inr ()
           | Some after \<Rightarrow>
               (case find_from [CHR 0x22] after of
                  None \<Rightarrow> Inl err_msg
                | Some q1 \<Rightarrow>
                    if CHR 0x22 \<in> set (tl q1)
                    then Inl (''key '' @ [CHR 0x22] @ takeWhile (\<lambda>c. c \<noteq> CHR 0x22) (tl q1) @ [CHR 0x22]
                                @ '' already set in map'')
                    else Inl err_msg)))"


section \<open>What the visitor accepts\<close>

text \<open>The value a tree of visits stands for, without budgets, and the cost of the tree. No entry of a mapping has
  a key equal to an earlier one, in the sense of the library.\<close>

definition distinct_keys :: "(yaml_value \<Rightarrow> yaml_value \<Rightarrow> bool) \<Rightarrow> (yaml_value \<times> yaml_value) list \<Rightarrow> bool" where
  "distinct_keys same es \<longleftrightarrow> sorted_wrt (\<lambda>e e'. \<not> same (fst e) (fst e')) es"

fun yaml_meaning :: "(yaml_value \<Rightarrow> yaml_value \<Rightarrow> bool) \<Rightarrow> yaml_input \<Rightarrow> yaml_value option"
  and yaml_meanings :: "(yaml_value \<Rightarrow> yaml_value \<Rightarrow> bool) \<Rightarrow> yaml_input list \<Rightarrow> yaml_value list option"
  and yaml_entries :: "(yaml_value \<Rightarrow> yaml_value \<Rightarrow> bool) \<Rightarrow> yaml_entry list \<Rightarrow> (yaml_value \<times> yaml_value) list option" where
  "yaml_meaning same (InError e) = None"
| "yaml_meaning same InUnit = Some YNull"
| "yaml_meaning same InNone = Some YNull"
| "yaml_meaning same (InSome t) = yaml_meaning same t"
| "yaml_meaning same (InBool v) = Some (YBool v)"
| "yaml_meaning same (InNumber v) = Some (YNumber v)"
| "yaml_meaning same (InString v) = Some (YString v)"
| "yaml_meaning same (InSeq ts) = map_option YSequence (yaml_meanings same ts)"
| "yaml_meaning same (InMap ts) =
     Option.bind (yaml_entries same ts) (\<lambda>es. if distinct_keys same es then Some (YMapping es) else None)"
| "yaml_meaning same (InEnum tag t) = (if tag = [] then None else map_option (YTagged tag) (yaml_meaning same t))"
| "yaml_meanings same [] = Some []"
| "yaml_meanings same (t # ts) =
     Option.bind (yaml_meaning same t) (\<lambda>v. map_option ((#) v) (yaml_meanings same ts))"
| "yaml_entries same [] = Some []"
| "yaml_entries same (InEntry k t # ts) =
     Option.bind (yaml_meaning same k) (\<lambda>key. Option.bind (yaml_meaning same t) (\<lambda>v.
       map_option ((#) (key, v)) (yaml_entries same ts)))"

text \<open>What a tree costs: every visited value is a node, strings and tags are charged by length.\<close>

fun in_nodes :: "yaml_input \<Rightarrow> nat"
  and in_nodes_seq :: "yaml_input list \<Rightarrow> nat"
  and in_nodes_map :: "yaml_entry list \<Rightarrow> nat" where
  "in_nodes (InSome t) = Suc (in_nodes t)"
| "in_nodes (InSeq ts) = Suc (in_nodes_seq ts)"
| "in_nodes (InMap es) = Suc (in_nodes_map es)"
| "in_nodes (InEnum tag t) = Suc (in_nodes t)"
| "in_nodes _ = 1"
| "in_nodes_seq [] = 0"
| "in_nodes_seq (t # ts) = in_nodes t + in_nodes_seq ts"
| "in_nodes_map [] = 0"
| "in_nodes_map (InEntry k t # ts) = in_nodes k + in_nodes t + in_nodes_map ts"

fun in_bytes :: "yaml_input \<Rightarrow> nat"
  and in_bytes_seq :: "yaml_input list \<Rightarrow> nat"
  and in_bytes_map :: "yaml_entry list \<Rightarrow> nat" where
  "in_bytes (InSome t) = in_bytes t"
| "in_bytes (InString s) = length s"
| "in_bytes (InSeq ts) = in_bytes_seq ts"
| "in_bytes (InMap es) = in_bytes_map es"
| "in_bytes (InEnum tag t) = length tag + in_bytes t"
| "in_bytes _ = 0"
| "in_bytes_seq [] = 0"
| "in_bytes_seq (t # ts) = in_bytes t + in_bytes_seq ts"
| "in_bytes_map [] = 0"
| "in_bytes_map (InEntry k t # ts) = in_bytes k + in_bytes t + in_bytes_map ts"

definition spend :: "nat \<Rightarrow> nat \<Rightarrow> budget \<Rightarrow> budget" where
  "spend nodes byts b = b\<lparr>bud_nodes := bud_nodes b - nodes, bud_bytes := bud_bytes b - byts\<rparr>"

definition affords :: "budget \<Rightarrow> nat \<Rightarrow> nat \<Rightarrow> bool" where
  "affords b nodes byts \<longleftrightarrow> nodes \<le> bud_nodes b \<and> byts \<le> bud_bytes b"

lemmas budget_defs = spend_def affords_def

lemma budget_node_ok [simp]:
  "budget_node b = (Inr u, b') \<longleftrightarrow> affords b 1 0 \<and> b' = spend 1 0 b"
  by (auto simp: budget_node_def budget_defs)

lemma budget_bytes_ok [simp]:
  "budget_bytes n b = (Inr u, b') \<longleftrightarrow> affords b 0 n \<and> b' = spend 0 n b"
  by (auto simp: budget_bytes_def budget_defs)

lemma spend_spend [simp]: "spend n' m' (spend n m b) = spend (n + n') (m + m') b"
  by (simp add: spend_def)

lemma affords_spend [simp]:
  "affords b n m \<and> affords (spend n m b) n' m' \<longleftrightarrow> affords b (n + n') (m + m')"
  by (auto simp: budget_defs)

text \<open>The visitor succeeds exactly on the trees that mean a value and that the budget affords.\<close>

lemma bounded_exact:
  "bounded_value same t b = (Inr v, b') \<longleftrightarrow>
     yaml_meaning same t = Some v \<and> affords b (in_nodes t) (in_bytes t) \<and> b' = spend (in_nodes t) (in_bytes t) b"
  "bounded_seq same ts b = (Inr vs, b') \<longleftrightarrow>
     yaml_meanings same ts = Some vs \<and> affords b (in_nodes_seq ts) (in_bytes_seq ts) \<and>
     b' = spend (in_nodes_seq ts) (in_bytes_seq ts) b"
  "bounded_map same seen es b = (Inr kvs, b') \<longleftrightarrow>
     yaml_entries same es = Some kvs \<and> distinct_keys same kvs \<and>
     (\<forall>s \<in> set seen. \<forall>e \<in> set kvs. \<not> same (fst s) (fst e)) \<and>
     affords b (in_nodes_map es) (in_bytes_map es) \<and> b' = spend (in_nodes_map es) (in_bytes_map es) b"
proof (induction same t and same ts and same seen es arbitrary: b v b' and b vs b' and b kvs b'
    rule: bounded_value_bounded_seq_bounded_map.induct)
  case (14 same seen k t ts)
  show ?case
  proof
    assume "bounded_map same seen (InEntry k t # ts) b = (Inr kvs, b')"
    then obtain key b1 v b2 kvs' where
      k: "bounded_value same k b = (Inr key, b1)" and new: "\<not> list_ex (\<lambda>e. same (fst e) key) seen"
      and v: "bounded_value same t b1 = (Inr v, b2)"
      and rest: "bounded_map same (seen @ [(key, v)]) ts b2 = (Inr kvs', b')" and kvs: "kvs = (key, v) # kvs'"
      by (auto simp: result_simps split: if_splits)
    from 14(1) k 14(2) [OF new] v 14(3) [OF new] rest new kvs
    show "yaml_entries same (InEntry k t # ts) = Some kvs \<and> distinct_keys same kvs \<and>
     (\<forall>s \<in> set seen. \<forall>e \<in> set kvs. \<not> same (fst s) (fst e)) \<and>
     affords b (in_nodes_map (InEntry k t # ts)) (in_bytes_map (InEntry k t # ts)) \<and>
      b' = spend (in_nodes_map (InEntry k t # ts)) (in_bytes_map (InEntry k t # ts)) b"
      by (auto simp: budget_defs distinct_keys_def list_ex_iff)
  next
    assume a: "yaml_entries same (InEntry k t # ts) = Some kvs \<and> distinct_keys same kvs \<and>
     (\<forall>s \<in> set seen. \<forall>e \<in> set kvs. \<not> same (fst s) (fst e)) \<and>
     affords b (in_nodes_map (InEntry k t # ts)) (in_bytes_map (InEntry k t # ts)) \<and>
      b' = spend (in_nodes_map (InEntry k t # ts)) (in_bytes_map (InEntry k t # ts)) b"
    then obtain key v kvs' where y: "yaml_meaning same k = Some key" "yaml_meaning same t = Some v"
      "yaml_entries same ts = Some kvs'" and kvs: "kvs = (key, v) # kvs'"
      by (auto simp: bind_eq_Some_conv)
    with a have new: "\<not> list_ex (\<lambda>e. same (fst e) key) seen" by (auto simp: list_ex_iff)
    let ?b1 = "spend (in_nodes k) (in_bytes k) b" and ?b2 = "spend (in_nodes k + in_nodes t) (in_bytes k + in_bytes t) b"
    have "bounded_value same k b = (Inr key, ?b1)" using 14(1) y a by (auto simp: affords_def)
    moreover have "bounded_value same t ?b1 = (Inr v, ?b2)" using 14(2) [OF new] y a by (auto simp: budget_defs)
    moreover have "bounded_map same (seen @ [(key, v)]) ts ?b2 = (Inr kvs', b')"
      using 14(3) [OF new] y a kvs by (auto simp: budget_defs distinct_keys_def)
    ultimately show "bounded_map same seen (InEntry k t # ts) b = (Inr kvs, b')"
      using new kvs by (simp add: result_simps)
  qed
qed (auto simp: result_simps budget_defs distinct_keys_def bind_eq_Some_conv split: if_splits; fastforce)+

fun yaml_nodes :: "yaml_value \<Rightarrow> nat" where
  "yaml_nodes (YSequence vs) = Suc (sum_list (map yaml_nodes vs))"
| "yaml_nodes (YMapping es) = Suc (sum_list (map (\<lambda>(k, v). yaml_nodes k + yaml_nodes v) es))"
| "yaml_nodes (YTagged tag v) = Suc (yaml_nodes v)"
| "yaml_nodes _ = 1"

fun yaml_bytes :: "yaml_value \<Rightarrow> nat" where
  "yaml_bytes (YString s) = length s"
| "yaml_bytes (YSequence vs) = sum_list (map yaml_bytes vs)"
| "yaml_bytes (YMapping es) = sum_list (map (\<lambda>(k, v). yaml_bytes k + yaml_bytes v) es)"
| "yaml_bytes (YTagged tag v) = length tag + yaml_bytes v"
| "yaml_bytes _ = 0"

lemma meaning_costs:
  "yaml_meaning same t = Some v \<Longrightarrow> yaml_nodes v \<le> in_nodes t \<and> yaml_bytes v = in_bytes t"
  "yaml_meanings same ts = Some vs \<Longrightarrow>
     sum_list (map yaml_nodes vs) \<le> in_nodes_seq ts \<and> sum_list (map yaml_bytes vs) = in_bytes_seq ts"
  "yaml_entries same es = Some kvs \<Longrightarrow>
     sum_list (map (\<lambda>(k, v). yaml_nodes k + yaml_nodes v) kvs) \<le> in_nodes_map es \<and>
     sum_list (map (\<lambda>(k, v). yaml_bytes k + yaml_bytes v) kvs) = in_bytes_map es"
  by (induction same t and same ts and same es arbitrary: v and vs and kvs rule: yaml_meaning_yaml_meanings_yaml_entries.induct)
    (auto simp: bind_eq_Some_conv split: if_splits; fastforce)+


section \<open>Property\<close>

text \<open>C34. The budgeted YAML reader is exact. It accepts a definition, with value \<open>v\<close>, precisely when
  the text is at most 64 KiB, the scanner reports no error, no mapping has a key that equals an earlier one
  under the equality of the YAML library, no tag is empty, \<open>v\<close> is the value the scanner describes, and the expansion has at most 65536 nodes and 1 MiB of text;
  the value kept is then within the same limits.\<close>

theorem bounded_yaml_accepts_exactly:
  "bounded_parse plibs input = Inr v \<longleftrightarrow>
     length input \<le> 64 * 1024 \<and> yaml_meaning (yaml_value_eq plibs) (yaml_document plibs input) = Some v \<and>
     in_nodes (yaml_document plibs input) \<le> 64 * 1024 \<and> in_bytes (yaml_document plibs input) \<le> 1024 * 1024 \<and>
     yaml_nodes v \<le> 64 * 1024 \<and> yaml_bytes v \<le> 1024 * 1024"
proof -
  let ?t = "yaml_document plibs input" and ?b = "\<lparr>bud_nodes = 64 * 1024, bud_bytes = 1024 * 1024\<rparr>"
  have "fst (bounded_value (yaml_value_eq plibs) ?t ?b) = Inr v \<longleftrightarrow> (\<exists>b'. bounded_value (yaml_value_eq plibs) ?t ?b = (Inr v, b'))"
    by (metis fst_conv prod.collapse)
  also have "\<dots> \<longleftrightarrow> yaml_meaning (yaml_value_eq plibs) ?t = Some v \<and> affords ?b (in_nodes ?t) (in_bytes ?t)"
    unfolding bounded_exact(1) by blast
  finally show ?thesis
    using meaning_costs(1) [of "yaml_value_eq plibs" ?t v] by (auto simp: bounded_parse_def affords_def)
qed

end
