(* ===== verification/Module_Kv.thy ===== *)
theory Module_Kv
  imports Prelude
begin

text \<open>
  The key-value store every module keeps its state in: \<open>crates/vera-modules/src/kv_store.rs\<close>, and the
  execution contexts of \<open>types.rs\<close>.

  \<open>OrdMap<Vec<u8>, Bytes>\<close> is the list of its entries in key order without duplicate keys, which is
  what its iterators run through; \<open>kv_wf\<close> states it and every operation keeps it. The \<open>dirty\<close> hash set
  is a list without duplicates, whose order is not relied on.
\<close>

section \<open>Ordered maps\<close>

type_synonym 'v ordmap = "(bytes \<times> 'v) list"

definition ord_wf :: "'v ordmap \<Rightarrow> bool" where
  "ord_wf m = (sorted_wrt (<) (map fst m))"

fun ord_insert :: "bytes \<Rightarrow> 'v \<Rightarrow> 'v ordmap \<Rightarrow> 'v ordmap" where
  "ord_insert k v [] = [(k, v)]"
| "ord_insert k v ((k', v') # m) =
     (if k < k' then (k, v) # (k', v') # m
      else if k = k' then (k, v) # m
      else (k', v') # ord_insert k v m)"

definition ord_remove :: "bytes \<Rightarrow> 'v ordmap \<Rightarrow> 'v ordmap" where
  "ord_remove k m = filter (\<lambda>e. fst e \<noteq> k) m"

text \<open>\<open>range(from..)\<close>: the entries from a key on.\<close>

definition ord_range_from :: "bytes \<Rightarrow> 'v ordmap \<Rightarrow> 'v ordmap" where
  "ord_range_from from m = dropWhile (\<lambda>e. fst e < from) m"

text \<open>The keys on which two maps differ, in order: what \<open>OrdMap::diff\<close> enumerates.\<close>

fun ord_diff :: "'v ordmap \<Rightarrow> 'v ordmap \<Rightarrow> (bytes \<times> 'v option) list" where
  "ord_diff [] new = map (\<lambda>(k, v). (k, Some v)) new"
| "ord_diff old [] = map (\<lambda>(k, v). (k, None)) old"
| "ord_diff ((k, v) # old) ((k', v') # new) =
     (if k < k' then (k, None) # ord_diff old ((k', v') # new)
      else if k' < k then (k', Some v') # ord_diff ((k, v) # old) new
      else if v = v' then ord_diff old new
      else (k', Some v') # ord_diff old new)"


section \<open>The store\<close>

record kv_store =
  kv_data :: "bytes ordmap"
  kv_dirty :: "bytes list"

definition kv_default :: kv_store where
  "kv_default = \<lparr>kv_data = [], kv_dirty = []\<rparr>"

definition kv_clone :: "kv_store \<Rightarrow> kv_store" where
  "kv_clone s = \<lparr>kv_data = kv_data s, kv_dirty = []\<rparr>"

definition get_ref :: "kv_store \<Rightarrow> bytes \<Rightarrow> bytes option" where
  "get_ref s key = map_of (kv_data s) key"

definition prefix_iter :: "kv_store \<Rightarrow> bytes \<Rightarrow> (bytes \<times> bytes) list" where
  "prefix_iter s pre =
     takeWhile (\<lambda>(key, _). starts_with key pre) (ord_range_from pre (kv_data s))"

definition from_pairs :: "(bytes \<times> bytes) list \<Rightarrow> kv_store" where
  "from_pairs pairs = \<lparr>kv_data = fold (\<lambda>(key, v). ord_insert key v) pairs [], kv_dirty = []\<rparr>"

text \<open>The stream yields records until it ends or fails.\<close>

definition try_from_stream :: "('e + (bytes \<times> bytes)) list \<Rightarrow> 'e + kv_store" where
  "try_from_stream records =
     (case List.find (\<lambda>r. \<not> is_ok r) records of
        Some (Inl e) \<Rightarrow> Inl e
      | _ \<Rightarrow> Inr (from_pairs (List.map_filter (case_sum (\<lambda>_. None) Some) records)))"

text \<open>\<open>to_vec\<close> and \<open>from_slice\<close> are the Borsh codec of a \<open>BTreeMap\<close>.\<close>

definition kv_serialize :: "(bytes ordmap \<Rightarrow> bytes) \<Rightarrow> kv_store \<Rightarrow> bytes" where
  "kv_serialize to_vec s = to_vec (kv_data s)"

definition kv_deserialize :: "(bytes \<Rightarrow> string + bytes ordmap) \<Rightarrow> bytes \<Rightarrow> string + kv_store" where
  "kv_deserialize from_slice bs = res_bind (from_slice bs) (\<lambda>data. Inr (from_pairs data))"

definition kv_is_empty :: "kv_store \<Rightarrow> bool" where
  "kv_is_empty s = (kv_data s = [])"

definition dirty_entries :: "kv_store \<Rightarrow> (bytes \<times> bytes option) list" where
  "dirty_entries s = map (\<lambda>k. (k, map_of (kv_data s) k)) (kv_dirty s)"

definition reset_dirty :: "kv_store \<Rightarrow> kv_store" where
  "reset_dirty s = s\<lparr>kv_dirty := []\<rparr>"

definition diff_from :: "kv_store \<Rightarrow> kv_store \<Rightarrow> (bytes \<times> bytes option) list" where
  "diff_from s base = ord_diff (kv_data base) (kv_data s)"

definition kv_get :: "kv_store \<Rightarrow> bytes \<Rightarrow> bytes option" where
  "kv_get s key = get_ref s key"

definition kv_has :: "kv_store \<Rightarrow> bytes \<Rightarrow> bool" where
  "kv_has s key = (map_of (kv_data s) key \<noteq> None)"

definition mark_dirty :: "bytes \<Rightarrow> bytes list \<Rightarrow> bytes list" where
  "mark_dirty key ks = (if key \<in> set ks then ks else key # ks)"

definition kv_put :: "bytes \<Rightarrow> bytes \<Rightarrow> kv_store \<Rightarrow> kv_store" where
  "kv_put key v s =
     s\<lparr>kv_dirty := mark_dirty key (kv_dirty s), kv_data := ord_insert key v (kv_data s)\<rparr>"

definition kv_delete :: "bytes \<Rightarrow> kv_store \<Rightarrow> kv_store" where
  "kv_delete key s =
     s\<lparr>kv_dirty := mark_dirty key (kv_dirty s), kv_data := ord_remove key (kv_data s)\<rparr>"

definition prefix_scan :: "kv_store \<Rightarrow> bytes \<Rightarrow> (bytes \<times> bytes) list" where
  "prefix_scan s pre = prefix_iter s pre"


section \<open>Execution contexts\<close>

record timestamp =
  ts_seconds :: u64
  ts_block_height :: u64

definition timestamp_default :: timestamp where
  "timestamp_default = \<lparr>ts_seconds = 0, ts_block_height = 0\<rparr>"

record block_exec_ctx =
  bx_genesis_id :: bytes
  bx_deployment_id :: u64
  bx_timestamp :: timestamp

record tx_exec_ctx =
  tx_sequence :: u64
  tx_hash :: bytes
  tx_signer :: string

datatype duration = Seconds u64 | Blocks u64


section \<open>Facts about ordered maps\<close>

lemma ord_wf_Nil [simp]: "ord_wf []"
  by (simp add: ord_wf_def)

lemma ord_wf_Cons [simp]: "ord_wf (e # m) \<longleftrightarrow> (\<forall>k \<in> fst ` set m. fst e < k) \<and> ord_wf m"
  by (simp add: ord_wf_def)

lemma ord_wf_distinct: "ord_wf m \<Longrightarrow> distinct (map fst m)"
  by (simp add: ord_wf_def strict_sorted_iff)

lemma ord_insert_keys [simp]: "fst ` set (ord_insert k v m) = insert k (fst ` set m)"
  by (induction k v m rule: ord_insert.induct) auto

lemma ord_insert_wf [simp]: "ord_wf m \<Longrightarrow> ord_wf (ord_insert k v m)"
  by (induction k v m rule: ord_insert.induct) (auto simp del: ord_insert_keys simp: ord_insert_keys)

lemma ord_remove_wf [simp]: "ord_wf m \<Longrightarrow> ord_wf (ord_remove k m)"
  by (induction m) (auto simp: ord_remove_def)

lemma map_of_None_below: "\<forall>k' \<in> fst ` set m. k < k' \<Longrightarrow> map_of m (k :: bytes) = None"
  by (metis less_irrefl map_of_eq_None_iff)

lemma ord_insert_lookup [simp]: "ord_wf m \<Longrightarrow> map_of (ord_insert k v m) = (map_of m)(k \<mapsto> v)"
proof (induction k v m rule: ord_insert.induct)
  case (2 k v k' v' m)
  then show ?case by (auto simp: fun_eq_iff)
qed simp

lemma ord_remove_lookup [simp]: "map_of (ord_remove k m) = (map_of m)(k := None)"
  by (induction m) (auto simp: ord_remove_def fun_eq_iff)

lemma values_by_lookup: "distinct (map fst m) \<Longrightarrow> map snd m = map (\<lambda>k. the (map_of m k)) (map fst m)"
  unfolding map_map comp_def
proof (rule map_cong [OF refl])
  fix e assume "distinct (map fst m)" "e \<in> set m"
  then have "map_of m (fst e) = Some (snd e)" by (intro map_of_is_SomeI) simp_all
  then show "snd e = the (map_of m (fst e))" by simp
qed

text \<open>Ordered maps are determined by their lookup function.\<close>

lemma ord_ext:
  assumes "ord_wf m" and "ord_wf m'" and "map_of m = map_of m'"
  shows "m = m'"
proof -
  have dom: "fst ` set m = fst ` set m'" using assms(3) by (metis dom_map_of_conv_image_fst)
  have "map fst m = map fst m'"
    using assms(1,2) dom by (intro strict_sorted_equal) (auto simp: ord_wf_def)
  moreover have "map snd m = map (\<lambda>k. the (map_of m k)) (map fst m)"
    using ord_wf_distinct [OF assms(1)] by (rule values_by_lookup)
  moreover have "map snd m' = map (\<lambda>k. the (map_of m' k)) (map fst m')"
    using ord_wf_distinct [OF assms(2)] by (rule values_by_lookup)
  ultimately have "map snd m = map snd m'" by (simp add: assms(3) del: map_map)
  with \<open>map fst m = map fst m'\<close> show ?thesis by (metis zip_map_fst_snd)
qed

lemma ord_diff_empty [simp]: "ord_diff old [] = map (\<lambda>(k, v). (k, None)) old"
  by (cases old) auto

lemma map_of_map_Some: "map_of (map (\<lambda>(k, v). (k, Some v)) m) k = map_option Some (map_of m k)"
  by (induction m) auto

lemma map_of_map_None: "map_of (map (\<lambda>(k, v). (k, None)) m) k = map_option (\<lambda>_. None) (map_of m k)"
  by (induction m) auto

lemma ord_diff_key:
  "(k, v) \<in> set (ord_diff old new) \<Longrightarrow> k \<in> fst ` set old \<or> k \<in> fst ` set new"
  by (induction old new rule: ord_diff.induct) (force split: if_splits)+

text \<open>The enumeration lists exactly the keys whose lookup differs, each once, with the new value.\<close>

lemma ord_diff_lookup:
  assumes "ord_wf old" and "ord_wf new"
  shows "map_of (ord_diff old new) k =
    (if map_of old k = map_of new k then None else Some (map_of new k))"
  using assms
proof (induction old new rule: ord_diff.induct)
  case (1 new)
  then show ?case by (cases "map_of new k") (auto simp: map_of_map_Some)
next
  case (2 e old)
  have "map_of (ord_diff (e # old) []) k = map_option (\<lambda>_. None) (map_of (e # old) k)"
    unfolding ord_diff.simps by (rule map_of_map_None)
  then show ?case by (cases "map_of (e # old) k") (simp_all del: map_of.simps(2))
next
  case (3 k1 v1 old k2 v2 new)
  have old: "\<forall>x \<in> fst ` set old. k1 < x" "ord_wf old" and new: "\<forall>x \<in> fst ` set new. k2 < x" "ord_wf new"
    using 3(5,6) by auto
  consider (lt) "k1 < k2" | (gt) "k2 < k1" | (eq) "k1 = k2" by force
  then show ?case
  proof cases
    case lt
    have absent: "map_of ((k2, v2) # new) k1 = None"
      by (rule map_of_None_below) (use lt new(1) in \<open>auto dest: order.strict_trans\<close>)
    from 3(1) [OF lt old(2) 3(6)] lt absent show ?thesis
      by (cases "k = k1") (simp_all del: ord_wf_Cons)
  next
    case gt
    have absent: "map_of ((k1, v1) # old) k2 = None"
      by (rule map_of_None_below) (use gt old(1) in \<open>auto dest: order.strict_trans\<close>)
    have gt': "\<not> k1 < k2" using gt by auto
    from 3(2) [OF gt' gt 3(5) new(2)] gt gt' absent show ?thesis
      by (cases "k = k2") (simp_all del: ord_wf_Cons)
  next
    case eq
    have "map_of (ord_diff old new) k = (if map_of old k = map_of new k then None else Some (map_of new k))"
      using 3(3) [OF _ _ _ old(2) new(2)] 3(4) [OF _ _ _ old(2) new(2)] eq
      by (cases "v1 = v2") simp_all
    moreover have "map_of old k2 = None" "map_of new k2 = None"
      using map_of_None_below [OF old(1)] map_of_None_below [OF new(1)] eq by simp_all
    ultimately show ?thesis using eq by (cases "k = k2") simp_all
  qed
qed


section \<open>Prefixes and the key order\<close>

lemma prefix_le: "prefix p k \<Longrightarrow> p \<le> (k :: bytes)"
  by (induction p arbitrary: k) (auto simp: prefix_def)

lemma prefix_between:
  assumes "p \<le> (k :: bytes)" and "k \<le> k'" and "prefix p k'"
  shows "prefix p k"
  using assms
proof (induction p arbitrary: k k')
  case (Cons c p)
  then obtain z where k': "k' = c # z" and z: "prefix p z" by (cases k') auto
  from Cons.prems(1) obtain d y where k: "k = d # y" by (cases k) auto
  with Cons.prems k' have "d = c" by auto
  with Cons.prems k k' have "p \<le> y" "y \<le> z" by auto
  from Cons.IH [OF this z] show ?case using k \<open>d = c\<close> by simp
qed simp

lemma takeWhile_prefix:
  assumes "ord_wf m" and "\<forall>e \<in> set m. p \<le> fst e"
  shows "takeWhile (\<lambda>(key, _). starts_with key p) m = filter (\<lambda>(key, _). starts_with key p) m"
  using assms
proof (induction m)
  case (Cons e m)
  show ?case
  proof (cases "prefix p (fst e)")
    case True
    with Cons show ?thesis by (auto simp: starts_with_def)
  next
    case False
    have "\<not> prefix p (fst e')" if "e' \<in> set m" for e'
      using that Cons.prems False prefix_between [of p "fst e" "fst e'"] by (auto simp: less_imp_le)
    then have "filter (\<lambda>(key, _). starts_with key p) m = []"
      by (auto simp: starts_with_def filter_empty_conv)
    with False show ?thesis by (auto simp: starts_with_def)
  qed
qed simp

lemma range_prefix:
  assumes "ord_wf m"
  shows "takeWhile (\<lambda>(key, _). starts_with key p) (ord_range_from p m) =
         filter (\<lambda>(key, _). starts_with key p) m"
  using assms
proof (induction m)
  case (Cons e m)
  show ?case
  proof (cases "fst e < p")
    case True
    then have "\<not> prefix p (fst e)" using prefix_le [of p "fst e"] by auto
    with True Cons show ?thesis by (auto simp: ord_range_from_def starts_with_def)
  next
    case False
    then have "\<forall>e' \<in> set (e # m). p \<le> fst e'" using Cons.prems by (auto simp: not_less)
    from takeWhile_prefix [OF Cons.prems this] False show ?thesis
      by (simp add: ord_range_from_def)
  qed
qed (simp add: ord_range_from_def)


section \<open>Laws of the store\<close>

definition kv_wf :: "kv_store \<Rightarrow> bool" where
  "kv_wf s = (ord_wf (kv_data s) \<and> distinct (kv_dirty s))"

definition kv_view :: "kv_store \<Rightarrow> bytes \<Rightarrow> bytes option" where
  "kv_view s = map_of (kv_data s)"

lemma mark_dirty_simps [simp]:
  "set (mark_dirty k ks) = insert k (set ks)"
  "distinct ks \<Longrightarrow> distinct (mark_dirty k ks)"
  by (auto simp: mark_dirty_def)

lemma kv_wf_simps [simp, intro]:
  "kv_wf kv_default"
  "kv_wf s \<Longrightarrow> kv_wf (kv_clone s)"
  "kv_wf s \<Longrightarrow> kv_wf (reset_dirty s)"
  "kv_wf s \<Longrightarrow> kv_wf (kv_put k v s)"
  "kv_wf s \<Longrightarrow> kv_wf (kv_delete k s)"
  by (simp_all add: kv_wf_def kv_default_def kv_clone_def reset_dirty_def kv_put_def kv_delete_def)

lemma from_pairs_data:
  "ord_wf m \<Longrightarrow> ord_wf (fold (\<lambda>(key, v). ord_insert key v) pairs m) \<and>
     map_of (fold (\<lambda>(key, v). ord_insert key v) pairs m) = map_of m ++ map_of (rev pairs)"
proof (induction pairs arbitrary: m)
  case (Cons e pairs)
  obtain k v where e: "e = (k, v)" by fastforce
  from Cons.IH [of "ord_insert k v m"] Cons.prems e show ?case
    by (auto simp: map_add_def fun_eq_iff split: option.splits)
qed simp

lemma kv_wf_from_pairs [simp, intro]: "kv_wf (from_pairs pairs)"
  using from_pairs_data [of "[]" pairs] by (simp add: kv_wf_def from_pairs_def)

text \<open>The last of several pairs with one key wins.\<close>

lemma from_pairs_view: "kv_view (from_pairs pairs) = map_of (rev pairs)"
  using from_pairs_data [of "[]" pairs] by (simp add: kv_view_def from_pairs_def)

lemma view_simps [simp]:
  "kv_view kv_default = Map.empty"
  "kv_view (kv_clone s) = kv_view s"
  "kv_view (reset_dirty s) = kv_view s"
  "kv_wf s \<Longrightarrow> kv_view (kv_put k v s) = (kv_view s)(k \<mapsto> v)"
  "kv_view (kv_delete k s) = (kv_view s)(k := None)"
  by (simp_all add: kv_view_def kv_wf_def kv_default_def kv_clone_def reset_dirty_def kv_put_def
      kv_delete_def)

lemma kv_read_simps [simp]:
  "get_ref s k = kv_view s k"
  "kv_get s k = kv_view s k"
  "kv_has s k \<longleftrightarrow> kv_view s k \<noteq> None"
  by (simp_all add: get_ref_def kv_get_def kv_has_def kv_view_def)

lemma prefix_scan_iter [simp]: "prefix_scan s p = prefix_iter s p"
  by (simp add: prefix_scan_def)

lemma prefix_iter_filter:
  "kv_wf s \<Longrightarrow> prefix_iter s p = filter (\<lambda>(key, _). starts_with key p) (kv_data s)"
  by (simp add: prefix_iter_def kv_wf_def range_prefix)

lemma prefix_iter_set:
  "kv_wf s \<Longrightarrow> (k, v) \<in> set (prefix_iter s p) \<longleftrightarrow> kv_view s k = Some v \<and> prefix p k"
  by (auto simp: prefix_iter_filter kv_view_def starts_with_def kv_wf_def
      dest: ord_wf_distinct)

lemma prefix_iter_sorted: "kv_wf s \<Longrightarrow> sorted_wrt (<) (map fst (prefix_iter s p))"
  by (simp add: prefix_iter_filter kv_wf_def ord_wf_def sorted_wrt_map sorted_wrt_filter)

lemma kv_data_ext: "kv_wf s \<Longrightarrow> kv_wf t \<Longrightarrow> kv_view s = kv_view t \<Longrightarrow> kv_data s = kv_data t"
  by (auto simp: kv_wf_def kv_view_def intro: ord_ext)


section \<open>Change tracking\<close>

text \<open>Replaying a list of changes on another store.\<close>

fun apply_change :: "bytes \<times> bytes option \<Rightarrow> kv_store \<Rightarrow> kv_store" where
  "apply_change (k, None) s = kv_delete k s"
| "apply_change (k, Some v) s = kv_put k v s"

lemma apply_change_laws:
  "kv_wf s \<Longrightarrow> kv_wf (apply_change c s) \<and> kv_view (apply_change c s) = (kv_view s)(fst c := snd c)"
  by (cases c; cases "snd c") auto

lemma apply_changes_view:
  assumes "kv_wf s" and "distinct (map fst cs)"
  shows "kv_wf (fold apply_change cs s) \<and>
    kv_view (fold apply_change cs s) k = (case map_of cs k of None \<Rightarrow> kv_view s k | Some v \<Rightarrow> v)"
  using assms
proof (induction cs arbitrary: s)
  case (Cons c cs)
  have c: "kv_wf (apply_change c s)" "kv_view (apply_change c s) = (kv_view s)(fst c := snd c)"
    using apply_change_laws [of s c] Cons.prems(1) by auto
  have "map_of cs (fst c) = None" using Cons.prems(2) by (simp add: map_of_eq_None_iff)
  with Cons.IH [OF c(1)] Cons.prems(2) c(2) show ?case
    by (cases c) (auto split: option.splits)
qed simp

lemma ord_diff_below:
  "\<forall>k' \<in> fst ` set old \<union> fst ` set new. k < k' \<Longrightarrow> \<forall>k' \<in> fst ` set (ord_diff old new). k < k'"
  using ord_diff_key by fastforce

lemma ord_diff_sorted:
  "ord_wf old \<Longrightarrow> ord_wf new \<Longrightarrow> sorted_wrt (<) (map fst (ord_diff old new))"
proof (induction old new rule: ord_diff.induct)
  case (1 new)
  then show ?case by (simp add: ord_wf_def comp_def case_prod_unfold)
next
  case (2 e old)
  then show ?case by (simp add: ord_wf_def comp_def case_prod_unfold)
next
  case (3 k v old k' v' new)
  have old: "\<forall>x \<in> fst ` set old. k < x" "ord_wf old" and new: "\<forall>x \<in> fst ` set new. k' < x" "ord_wf new"
    using 3(5,6) by auto
  consider "k < k'" | "k' < k" | "k = k'" by force
  then show ?case
  proof cases
    case 1
    have "\<forall>x \<in> fst ` set (ord_diff old ((k', v') # new)). k < x"
      by (rule ord_diff_below) (use old new 1 in \<open>auto dest: order.strict_trans\<close>)
    with 1 3(1) [OF 1 old(2) 3(6)] show ?thesis by simp
  next
    case 2
    have "\<forall>x \<in> fst ` set (ord_diff ((k, v) # old) new). k' < x"
      by (rule ord_diff_below) (use old new 2 in \<open>auto dest: order.strict_trans\<close>)
    with 2 3(2) [OF _ 2 3(5) new(2)] show ?thesis by auto
  next
    case eq: 3
    have "\<forall>x \<in> fst ` set (ord_diff old new). k' < x"
      by (rule ord_diff_below) (use old new eq in auto)
    moreover have "sorted_wrt (<) (map fst (ord_diff old new))"
      using 3(3) [OF _ _ _ old(2) new(2)] 3(4) [OF _ _ _ old(2) new(2)] eq
      by (cases "v = v'") simp_all
    ultimately show ?thesis using eq by simp
  qed
qed

lemma diff_from_replay:
  assumes "kv_wf s" and "kv_wf base"
  shows "kv_data (fold apply_change (diff_from s base) base) = kv_data s"
proof (rule kv_data_ext)
  have d: "distinct (map fst (diff_from s base))"
    using assms ord_diff_sorted [of "kv_data base" "kv_data s"]
    by (simp add: diff_from_def kv_wf_def strict_sorted_iff)
  show "kv_wf (fold apply_change (diff_from s base) base)"
    using apply_changes_view [OF assms(2) d] by simp
  show "kv_view (fold apply_change (diff_from s base) base) = kv_view s"
  proof
    fix k
    show "kv_view (fold apply_change (diff_from s base) base) k = kv_view s k"
      using apply_changes_view [OF assms(2) d, of k] assms
        ord_diff_lookup [of "kv_data base" "kv_data s" k]
      by (auto simp: diff_from_def kv_wf_def kv_view_def split: if_splits)
  qed
qed (rule assms)

text \<open>
  \<open>s\<close> was reached from \<open>base\<close> with its dirty set accounting for every key that differs: clones start
  this way and every write keeps it.
\<close>

definition tracks :: "kv_store \<Rightarrow> kv_store \<Rightarrow> bool" where
  "tracks base s = (\<forall>k. k \<notin> set (kv_dirty s) \<longrightarrow> kv_view s k = kv_view base k)"

lemma tracks_laws:
  "tracks base (kv_clone base)"
  "kv_wf s \<Longrightarrow> tracks base s \<Longrightarrow> tracks base (apply_change c s)"
proof -
  show "tracks base (kv_clone base)" by (simp add: tracks_def)
  assume "kv_wf s" "tracks base s"
  then show "tracks base (apply_change c s)"
    by (cases c; cases "snd c") (auto simp: tracks_def, auto simp: kv_put_def kv_delete_def)
qed

lemma dirty_entries_lookup:
  "map_of (dirty_entries s) k = (if k \<in> set (kv_dirty s) then Some (kv_view s k) else None)"
  by (auto simp: dirty_entries_def kv_view_def map_of_map_restrict restrict_map_def
      map_of_eq_None_iff)

lemma dirty_replay:
  assumes "kv_wf base" and "kv_wf s" and "tracks base s"
  shows "kv_data (fold apply_change (dirty_entries s) base) = kv_data s"
proof (rule kv_data_ext)
  have d: "distinct (map fst (dirty_entries s))"
    using assms(2) by (simp add: dirty_entries_def kv_wf_def comp_def)
  show "kv_wf (fold apply_change (dirty_entries s) base)"
    using apply_changes_view [OF assms(1) d] by simp
  show "kv_view (fold apply_change (dirty_entries s) base) = kv_view s"
    using apply_changes_view [OF assms(1) d] assms(3)
    by (auto simp: dirty_entries_lookup tracks_def fun_eq_iff)
qed (rule assms)

end
