(* ===== verification/Acp_Types.thy ===== *)
theory Acp_Types
  imports Policy_Yaml Module_Kv
begin

text \<open>
  The records of the ACP module (\<open>vera-modules/src/acp/types.rs\<close>), its errors (\<open>error.rs\<close>) and its
  storage keys (\<open>keys.rs\<close>). The serde and Borsh codecs of the records, \<open>hex::encode\<close> and SHA-256 are
  library code: one record of parameters, \<open>acp_libs\<close>, passed to every definition that uses them.
\<close>

section \<open>Records\<close>

record record_metadata =
  md_creation_ts :: timestamp
  md_tx_hash :: bytes
  md_tx_signer :: string
  md_owner_did :: string

record decision_params =
  dp_decision_expiration_delta :: u64
  dp_proof_expiration_delta :: u64
  dp_ticket_expiration_delta :: u64

record object =
  obj_resource :: string
  obj_id :: string

record operation =
  opn_object :: object
  opn_permission :: string

datatype policy_marshaling_type = UnknownType | ShortYaml | ShortJson

record access_request =
  ar_operations :: "operation list"
  ar_actor :: did

record access_decision =
  ad_id :: string
  ad_policy_id :: string
  ad_creator :: string
  ad_creator_acc_sequence :: u64
  ad_operations :: "operation list"
  ad_actor :: string
  ad_params :: decision_params
  ad_creation_time :: timestamp
  ad_issued_height :: u64

record decision_request =
  dr_deployment_id :: u64
  dr_policy_id :: string
  dr_creator :: string
  dr_creator_sequence :: u64
  dr_request :: access_request

record registration_proof =
  rp_object :: object
  rp_merkle_proof :: "bytes list"
  rp_leaf_count :: u64
  rp_leaf_index :: u64

datatype policy_cmd =
    SetRelationship relationship
  | DeleteRelationship relationship
  | RegisterObject object
  | ArchiveObject object
  | UnarchiveObject object
  | CommitRegistrations bytes
  | RevealRegistration u64 registration_proof
  | FlagHijackAttempt u64

record relationship_record =
  rr_policy_id :: string
  rr_relationship :: relationship
  rr_archived :: bool
  rr_metadata :: record_metadata

record registrations_commitment =
  rc_id :: u64
  rc_policy_id :: string
  rc_commitment :: bytes
  rc_expired :: bool
  rc_validity :: duration
  rc_metadata :: record_metadata

record amendment_event =
  ae_id :: u64
  ae_policy_id :: string
  ae_object :: object
  ae_new_owner :: did
  ae_previous_owner :: did
  ae_commitment_id :: u64
  ae_hijack_flag :: bool
  ae_metadata :: record_metadata

datatype policy_cmd_result =
    SetRelationshipResult bool relationship_record
  | DeleteRelationshipResult bool
  | RegisterObjectResult relationship_record
  | ArchiveObjectResult bool u64
  | UnarchiveObjectResult relationship_record bool
  | CommitRegistrationsResult registrations_commitment
  | RevealRegistrationResult relationship_record "amendment_event option"
  | FlagHijackAttemptResult amendment_event

record policy_record =
  pr_policy :: policy
  pr_raw_policy :: string
  pr_marshal_type :: policy_marshaling_type
  pr_metadata :: record_metadata

datatype object_selector = ObjExact object | ObjWildcard | ResourcePredicate string

datatype relation_selector = RelExact string | RelWildcard

datatype subject_selector = SubjExact subject | SubjWildcard

record relationship_selector =
  rs_object_selector :: "object_selector option"
  rs_relation_selector :: "relation_selector option"
  rs_subject_selector :: "subject_selector option"

record generate_commitment_result =
  gc_commitment :: bytes
  gc_commitment_hex :: string
  gc_proofs :: "registration_proof list"
  gc_proofs_json :: "string list"

record acp_params =
  ap_policy_command_max_expiration_delta :: u64
  ap_registrations_commitment_validity :: duration

definition acp_params_default :: acp_params where
  "acp_params_default =
     \<lparr>ap_policy_command_max_expiration_delta = 12 * 60 * 60,
      ap_registrations_commitment_validity = Seconds (10 * 60)\<rparr>"

text \<open>The metadata of records written without an execution context.\<close>

definition plain_metadata :: "string \<Rightarrow> record_metadata" where
  "plain_metadata owner =
     \<lparr>md_creation_ts = timestamp_default, md_tx_hash = [], md_tx_signer = [], md_owner_did = owner\<rparr>"


section \<open>Errors\<close>

datatype acp_error =
    AcpPolicyNotFound string
  | AcpInvalidPolicy string
  | AccessDenied string
  | InvalidAccessRequest string
  | ObjectNotRegistered string string
  | ObjectAlreadyRegistered string string
  | CommitmentNotFound u64
  | CommitmentExpired u64
  | InvalidProof string
  | Unauthorized string
  | InvalidBearerToken string
  | ReplayDetected
  | ExpirationDeltaTooLarge u64 u64
  | CommandExpired u64
  | StateError string

fun acp_error_to_string :: "acp_error \<Rightarrow> string" where
  "acp_error_to_string (AcpPolicyNotFound i) = ''policy not found: '' @ i"
| "acp_error_to_string (AcpInvalidPolicy reason) = ''invalid policy: '' @ reason"
| "acp_error_to_string (AccessDenied policy_id) = ''access denied for policy '' @ policy_id"
| "acp_error_to_string (InvalidAccessRequest reason) = ''invalid access request: '' @ reason"
| "acp_error_to_string (ObjectNotRegistered resource object_id) =
     ''object not registered: '' @ resource @ ''/'' @ object_id"
| "acp_error_to_string (ObjectAlreadyRegistered resource object_id) =
     ''object already registered: '' @ resource @ ''/'' @ object_id"
| "acp_error_to_string (CommitmentNotFound i) = ''commitment not found: '' @ show_nat (unat i)"
| "acp_error_to_string (CommitmentExpired i) = ''commitment expired: '' @ show_nat (unat i)"
| "acp_error_to_string (InvalidProof reason) = ''invalid proof: '' @ reason"
| "acp_error_to_string (Unauthorized reason) = ''unauthorized: '' @ reason"
| "acp_error_to_string (InvalidBearerToken reason) = ''invalid bearer token: '' @ reason"
| "acp_error_to_string ReplayDetected = ''replay detected: payload already processed''"
| "acp_error_to_string (ExpirationDeltaTooLarge delta m) =
     ''expiration delta '' @ show_nat (unat delta) @ '' exceeds limit '' @ show_nat (unat m)"
| "acp_error_to_string (CommandExpired height) = ''command expired at height '' @ show_nat (unat height)"
| "acp_error_to_string (StateError e) = ''state error: '' @ e"


section \<open>Library parameters\<close>

text \<open>
  \<open>to_vec\<close> of \<open>serde_json\<close> on the record types is used with \<open>expect\<close>, so it returns bytes; Borsh
  encodings and all decodings may fail with a message.
\<close>

record acp_libs =
  hex_encode :: "bytes \<Rightarrow> string"
  sha256 :: "bytes \<Rightarrow> bytes"
  json_subject :: "subject \<Rightarrow> bytes"
  json_relationship :: "relationship_record \<Rightarrow> bytes"
  unjson_relationship :: "bytes \<Rightarrow> string + relationship_record"
  json_policy_record :: "policy_record \<Rightarrow> bytes"
  unjson_policy_record :: "bytes \<Rightarrow> string + policy_record"
  json_policy :: "policy \<Rightarrow> string + bytes"
  json_proof :: "registration_proof \<Rightarrow> string option"
  borsh_params :: "acp_params \<Rightarrow> string + bytes"
  unborsh_params :: "bytes \<Rightarrow> string + acp_params"
  borsh_commitment :: "registrations_commitment \<Rightarrow> string + bytes"
  unborsh_commitment :: "bytes \<Rightarrow> string + registrations_commitment"
  borsh_event :: "amendment_event \<Rightarrow> string + bytes"
  unborsh_event :: "bytes \<Rightarrow> string + amendment_event"
  borsh_decision :: "access_decision \<Rightarrow> string + bytes"
  unborsh_decision :: "bytes \<Rightarrow> string + access_decision"
  borsh_leaf :: "string \<times> string \<times> string \<times> string \<Rightarrow> string + bytes"
  borsh_decision_request :: "decision_request \<Rightarrow> string + bytes"
  policy_codecs :: policy_libs


section \<open>Storage keys\<close>

definition POLICY_PREFIX :: bytes where "POLICY_PREFIX = ''policy/objs/''"
definition POLICY_COUNTER_KEY :: bytes where "POLICY_COUNTER_KEY = ''policy/counter/id''"
definition RELATIONSHIP_PREFIX :: bytes where "RELATIONSHIP_PREFIX = ''relationship/''"
definition ACCESS_DECISION_PREFIX :: bytes where "ACCESS_DECISION_PREFIX = ''access_decision/''"
definition COMMITMENT_PREFIX :: bytes where "COMMITMENT_PREFIX = ''commitment/''"
definition AMENDMENT_EVENT_PREFIX :: bytes where "AMENDMENT_EVENT_PREFIX = ''amendment_event/''"
definition PARAMS_KEY :: bytes where "PARAMS_KEY = ''p_acp''"
definition OBJS_SUBPREFIX :: bytes where "OBJS_SUBPREFIX = ''objs/''"
definition COUNTER_SUBPREFIX :: bytes where "COUNTER_SUBPREFIX = ''counter/''"

lemmas key_consts [key_simps] = POLICY_PREFIX_def POLICY_COUNTER_KEY_def RELATIONSHIP_PREFIX_def
  ACCESS_DECISION_PREFIX_def COMMITMENT_PREFIX_def AMENDMENT_EVENT_PREFIX_def PARAMS_KEY_def
  OBJS_SUBPREFIX_def COUNTER_SUBPREFIX_def

definition policy_key :: "string \<Rightarrow> bytes" where
  "policy_key i = POLICY_PREFIX @ i"

definition acp_object_prefix :: "acp_libs \<Rightarrow> string \<Rightarrow> string \<Rightarrow> string" where
  "acp_object_prefix libs resource object_id =
     ''v2/'' @ hex_encode libs resource @ ''/'' @ hex_encode libs object_id @ ''/''"

definition acp_relation_prefix :: "acp_libs \<Rightarrow> string \<Rightarrow> string \<Rightarrow> string \<Rightarrow> string" where
  "acp_relation_prefix libs resource object_id relation =
     acp_object_prefix libs resource object_id @ hex_encode libs relation @ ''/''"

definition relationship_storage_key :: "acp_libs \<Rightarrow> relationship \<Rightarrow> string" where
  "relationship_storage_key libs rel =
     acp_relation_prefix libs (rel_resource rel) (rel_object_id rel) (rel_relation rel)
       @ hex_encode libs (sha256 libs
           (''vera/acp-subject/v1'' @ [CHR 0x00] @ json_subject libs (rel_subject rel)))"

definition relationship_policy_prefix :: "string \<Rightarrow> bytes" where
  "relationship_policy_prefix policy_id = RELATIONSHIP_PREFIX @ policy_id @ ''/''"

definition relationship_key :: "string \<Rightarrow> string \<Rightarrow> bytes" where
  "relationship_key policy_id skey = RELATIONSHIP_PREFIX @ policy_id @ ''/'' @ skey"

definition relationship_storage_prefix :: "string \<Rightarrow> string \<Rightarrow> bytes" where
  "relationship_storage_prefix policy_id storage_prefix =
     relationship_policy_prefix policy_id @ storage_prefix"

definition access_decision_key :: "string \<Rightarrow> bytes" where
  "access_decision_key decision_id = ACCESS_DECISION_PREFIX @ decision_id"

definition commitment_key :: "u64 \<Rightarrow> bytes" where
  "commitment_key i = COMMITMENT_PREFIX @ OBJS_SUBPREFIX @ to_be_bytes i"

definition commitment_counter_key :: bytes where
  "commitment_counter_key = COMMITMENT_PREFIX @ COUNTER_SUBPREFIX @ ''id''"

definition amendment_event_key :: "u64 \<Rightarrow> bytes" where
  "amendment_event_key i = AMENDMENT_EVENT_PREFIX @ OBJS_SUBPREFIX @ to_be_bytes i"

definition amendment_event_counter_key :: bytes where
  "amendment_event_counter_key = AMENDMENT_EVENT_PREFIX @ COUNTER_SUBPREFIX @ ''id''"

definition commitment_expired_index_prefix :: "bool \<Rightarrow> bytes" where
  "commitment_expired_index_prefix expired =
     COMMITMENT_PREFIX @ ''indexes/expired/idx/'' @ [if expired then CHR 0x01 else CHR 0x00] @ ''/''"

definition commitment_expired_index_key :: "bool \<Rightarrow> u64 \<Rightarrow> bytes" where
  "commitment_expired_index_key expired i = commitment_expired_index_prefix expired @ to_be_bytes i"

definition commitment_by_commitment_index_prefix :: "bytes \<Rightarrow> bytes" where
  "commitment_by_commitment_index_prefix root =
     COMMITMENT_PREFIX @ ''indexes/commitment/idx/'' @ root @ ''/''"

definition commitment_by_commitment_index_key :: "bytes \<Rightarrow> u64 \<Rightarrow> bytes" where
  "commitment_by_commitment_index_key root i =
     commitment_by_commitment_index_prefix root @ to_be_bytes i"

definition amendment_event_policy_index_prefix :: "string \<Rightarrow> bytes" where
  "amendment_event_policy_index_prefix policy_id =
     AMENDMENT_EVENT_PREFIX @ ''indexes/policy/idx/'' @ policy_id @ ''/''"

definition amendment_event_policy_index_key :: "string \<Rightarrow> u64 \<Rightarrow> bytes" where
  "amendment_event_policy_index_key policy_id i =
     amendment_event_policy_index_prefix policy_id @ to_be_bytes i"


section \<open>Facts about keys\<close>

lemma storage_prefix_key: "relationship_storage_prefix pid s = relationship_key pid s"
  by (simp add: relationship_storage_prefix_def relationship_policy_prefix_def relationship_key_def)

lemma relationship_key_prefixes [simp]:
  "prefix (relationship_policy_prefix pid) (relationship_key pid s)"
  "prefix (relationship_key pid s) (relationship_key pid s') \<longleftrightarrow> prefix s s'"
  "relationship_key pid s = relationship_key pid s' \<longleftrightarrow> s = s'"
  by (simp_all add: relationship_policy_prefix_def relationship_key_def)

lemma storage_key_prefix [simp]:
  "prefix (acp_relation_prefix libs (rel_resource rel) (rel_object_id rel) (rel_relation rel))
     (relationship_storage_key libs rel)"
  "prefix (acp_object_prefix libs (rel_resource rel) (rel_object_id rel)) (relationship_storage_key libs rel)"
  by (simp_all add: relationship_storage_key_def acp_relation_prefix_def)

text \<open>What the keys rely on of \<open>hex::encode\<close>: distinct inputs have distinct encodings, which do not
  contain the separator. \<open>hex_lower\<close> satisfies it.\<close>

definition hex_ok :: "acp_libs \<Rightarrow> bool" where
  "hex_ok libs \<longleftrightarrow> inj (hex_encode libs) \<and> (\<forall>s. CHR ''/'' \<notin> set (hex_encode libs s))"

lemma hex_okD:
  assumes "hex_ok libs"
  shows "hex_encode libs a = hex_encode libs b \<longleftrightarrow> a = b" and "CHR ''/'' \<notin> set (hex_encode libs s)"
  using assms by (auto simp: hex_ok_def inj_eq)

text \<open>A storage key lies under the prefix of an object, or of a relation of an object, only when it is
  a key of that object, of that relation.\<close>

lemma acp_object_prefix_exact:
  assumes "hex_ok libs" and "prefix (acp_object_prefix libs r ob) (relationship_storage_key libs rel)"
  shows "rel_resource rel = r \<and> rel_object_id rel = ob"
proof -
  let ?h = "hex_encode libs"
  from assms(2) have "prefix (?h r @ CHR ''/'' # ?h ob @ ''/'')
      (?h (rel_resource rel) @ CHR ''/'' # (?h (rel_object_id rel) @ CHR ''/'' #
        ?h (rel_relation rel) @ CHR ''/'' # ?h (sha256 libs (''vera/acp-subject/v1'' @ [CHR 0x00] @ json_subject libs (rel_subject rel)))))"
    by (simp add: acp_object_prefix_def relationship_storage_key_def acp_relation_prefix_def)
  from prefix_sep_split [OF this hex_okD(2) [OF assms(1)] hex_okD(2) [OF assms(1)]]
  have r: "?h r = ?h (rel_resource rel)"
    and "prefix (?h ob @ CHR ''/'' # []) (?h (rel_object_id rel) @ CHR ''/'' # (
        ?h (rel_relation rel) @ CHR ''/'' # ?h (sha256 libs (''vera/acp-subject/v1'' @ [CHR 0x00] @ json_subject libs (rel_subject rel)))))"
    by simp_all
  from prefix_sep_split [OF this(2) hex_okD(2) [OF assms(1)] hex_okD(2) [OF assms(1)]] r
  show ?thesis by (simp add: hex_okD(1) [OF assms(1)])
qed

lemma acp_relation_prefix_exact:
  assumes "hex_ok libs" and "prefix (acp_relation_prefix libs r ob l) (relationship_storage_key libs rel)"
  shows "rel_resource rel = r \<and> rel_object_id rel = ob \<and> rel_relation rel = l"
proof -
  let ?h = "hex_encode libs"
  have "prefix (acp_object_prefix libs r ob) (relationship_storage_key libs rel)"
    using assms(2) by (auto simp: acp_relation_prefix_def prefix_def)
  from acp_object_prefix_exact [OF assms(1) this]
  have o: "rel_resource rel = r" "rel_object_id rel = ob" by simp_all
  have "prefix (?h l @ CHR ''/'' # []) (?h (rel_relation rel) @ CHR ''/'' #
      ?h (sha256 libs (''vera/acp-subject/v1'' @ [CHR 0x00] @ json_subject libs (rel_subject rel))))"
    using assms(2) o by (simp add: relationship_storage_key_def acp_relation_prefix_def)
  from prefix_sep_split [OF this hex_okD(2) [OF assms(1)] hex_okD(2) [OF assms(1)]] o
  show ?thesis by (simp add: hex_okD(1) [OF assms(1)])
qed

end
