(* ===== verification/Record_Reads.thy ===== *)
theory Record_Reads
  imports Acp_Types
begin

text \<open>
  Record access for the permission evaluator: the \<open>RecordStore\<close> trait and its implementation for a
  module store (\<open>acp/record_store.rs\<close>), and the bounded, recording reader \<open>ReadCapture\<close>
  (\<open>acp/read_capture.rs\<close>).

  A \<open>RecordStore\<close> is the record \<open>record_ops\<close> of its four operations, each a state-passing computation
  over the reader's own state. The contract that its documentation states for reads is the locale
  \<open>record_reads\<close>; both implementations are interpretations of it.
\<close>

section \<open>The trait\<close>

record 's record_ops =
  read_record_op :: "bytes \<Rightarrow> ('s, zerror, bytes option) stm"
  scan_records_op :: "bytes \<Rightarrow> ('s, zerror, (bytes \<times> bytes) list) stm"
  write_record_op :: "bytes \<Rightarrow> bytes \<Rightarrow> ('s, zerror, unit) stm"
  remove_record_op :: "bytes \<Rightarrow> ('s, zerror, unit) stm"

text \<open>The default methods of the trait.\<close>

definition read_only_write :: "bytes \<Rightarrow> bytes \<Rightarrow> ('s, zerror, unit) stm" where
  "read_only_write key v = st_fail (Serialization ''record store is read-only'')"

definition read_only_remove :: "bytes \<Rightarrow> ('s, zerror, unit) stm" where
  "read_only_remove key = st_fail (Serialization ''record store is read-only'')"

definition kv_record_ops :: "kv_store record_ops" where
  "kv_record_ops =
     \<lparr>read_record_op = (\<lambda>key. st_read (\<lambda>s. Inr (kv_get s key))),
      scan_records_op = (\<lambda>pre. st_read (\<lambda>s. Inr (prefix_scan s pre))),
      write_record_op = (\<lambda>key v. st_modify (kv_put key v)),
      remove_record_op = (\<lambda>key. st_modify (kv_delete key))\<rparr>"

text \<open>
  The contract of reads: a read fails, or returns what the records \<open>V\<close> hold; a successful scan lists
  every record under the prefix, in key order.
\<close>

definition scan_of :: "(bytes \<rightharpoonup> bytes) \<Rightarrow> bytes \<Rightarrow> (bytes \<times> bytes) list \<Rightarrow> bool" where
  "scan_of V pre es \<longleftrightarrow>
     sorted_wrt (<) (map fst es) \<and> (\<forall>k v. (k, v) \<in> set es \<longleftrightarrow> V k = Some v \<and> prefix pre k)"

locale record_reads =
  fixes rops :: "'s record_ops" and rinv :: "'s \<Rightarrow> bool" and V :: "bytes \<rightharpoonup> bytes"
  assumes read_exact: "triple rinv (read_record_op rops key) (\<lambda>v. v = V key)"
    and scan_exact: "triple rinv (scan_records_op rops pre) (scan_of V pre)"

definition kv_holds :: "(bytes \<rightharpoonup> bytes) \<Rightarrow> kv_store \<Rightarrow> bool" where
  "kv_holds V s \<longleftrightarrow> kv_wf s \<and> kv_view s = V"

lemma prefix_iter_scan_of: "kv_wf s \<Longrightarrow> scan_of (kv_view s) pre (prefix_iter s pre)"
  by (simp add: scan_of_def prefix_iter_sorted prefix_iter_set)

interpretation kvr: record_reads kv_record_ops "kv_holds V" V for V
  by unfold_locales
    (auto simp: kv_record_ops_def kv_holds_def triple_def prefix_iter_scan_of)


section \<open>Bounded capture of reads\<close>

datatype record_read = Key bytes | Prefix bytes

fun read_rank :: "record_read \<Rightarrow> nat \<times> bytes" where
  "read_rank (Key k) = (0, k)"
| "read_rank (Prefix p) = (1, p)"

lemma read_rank_inj: "read_rank a = read_rank b \<longleftrightarrow> a = b"
  by (cases a; cases b) auto

text \<open>The derived order: \<open>Key\<close> before \<open>Prefix\<close>, then by bytes.\<close>

instantiation record_read :: linorder
begin

definition less_eq_record_read :: "record_read \<Rightarrow> record_read \<Rightarrow> bool" where
  "less_eq_record_read a b =
     (fst (read_rank a) < fst (read_rank b) \<or>
      fst (read_rank a) = fst (read_rank b) \<and> snd (read_rank a) \<le> snd (read_rank b))"

definition less_record_read :: "record_read \<Rightarrow> record_read \<Rightarrow> bool" where
  "less_record_read a b = (a \<le> b \<and> a \<noteq> b)"

instance
proof
  fix x y z :: record_read
  show "x < y \<longleftrightarrow> x \<le> y \<and> \<not> y \<le> x"
    by (cases x; cases y) (auto simp: less_eq_record_read_def less_record_read_def)
  show "x \<le> x" by (simp add: less_eq_record_read_def)
  show "x \<le> y \<Longrightarrow> y \<le> z \<Longrightarrow> x \<le> z"
    by (cases x; cases y; cases z) (auto simp: less_eq_record_read_def)
  show "x \<le> y \<Longrightarrow> y \<le> x \<Longrightarrow> x = y"
    by (cases x; cases y) (auto simp: less_eq_record_read_def)
  show "x \<le> y \<or> y \<le> x"
    by (cases x; cases y) (auto simp: less_eq_record_read_def)
qed

end

record read_limits =
  lim_reads :: nat
  lim_records :: nat
  lim_bytes :: nat

definition PERMISSION_READ_LIMITS :: read_limits where
  "PERMISSION_READ_LIMITS = \<lparr>lim_reads = 256, lim_records = 4096, lim_bytes = 1048576\<rparr>"

record read_capture =
  cap_snapshot :: kv_store
  cap_remaining :: read_limits
  cap_requests :: "record_read list"
  cap_failed :: bool

definition limit_error :: zerror where
  "limit_error = Serialization ''permission read budget exceeded''"

definition capture_new :: "kv_store \<Rightarrow> read_limits \<Rightarrow> read_capture" where
  "capture_new snapshot limits =
     \<lparr>cap_snapshot = snapshot, cap_remaining = limits, cap_requests = [], cap_failed = False\<rparr>"

definition capture_requests :: "read_capture \<Rightarrow> zerror + record_read list" where
  "capture_requests c = (if cap_failed c then Inl limit_error else Inr (cap_requests c))"

definition consume_reads :: "nat \<Rightarrow> (read_limits, zerror, unit) stm" where
  "consume_reads n l =
     (if n \<le> lim_reads l then (Inr (), l\<lparr>lim_reads := lim_reads l - n\<rparr>) else (Inl limit_error, l))"

definition consume_records :: "nat \<Rightarrow> (read_limits, zerror, unit) stm" where
  "consume_records n l =
     (if n \<le> lim_records l then (Inr (), l\<lparr>lim_records := lim_records l - n\<rparr>) else (Inl limit_error, l))"

definition consume_bytes :: "nat \<Rightarrow> (read_limits, zerror, unit) stm" where
  "consume_bytes n l =
     (if n \<le> lim_bytes l then (Inr (), l\<lparr>lim_bytes := lim_bytes l - n\<rparr>) else (Inl limit_error, l))"

text \<open>\<open>BTreeSet::insert\<close> on the ordered list of its elements.\<close>

definition btree_insert :: "'k::linorder \<Rightarrow> 'k list \<Rightarrow> 'k list" where
  "btree_insert k ks = insort_insert k ks"

definition capture_read ::
  "bytes \<Rightarrow> (bytes \<Rightarrow> record_read) \<Rightarrow> (read_limits, zerror, 'a) stm \<Rightarrow> (read_capture, zerror, 'a) stm" where
  "capture_read key request inner c =
     (if cap_failed c then (Inl limit_error, c)
      else case st_bind (consume_reads 1) (\<lambda>_. st_bind (consume_bytes (length key)) (\<lambda>_. inner))
                  (cap_remaining c) of
        (Inr v, l) \<Rightarrow>
          (Inr v, c\<lparr>cap_remaining := l, cap_requests := btree_insert (request key) (cap_requests c)\<rparr>)
      | (Inl e, l) \<Rightarrow> (Inl e, c\<lparr>cap_remaining := l, cap_failed := True\<rparr>))"

definition capture_read_record :: "bytes \<Rightarrow> (read_capture, zerror, bytes option) stm" where
  "capture_read_record key c =
     capture_read key Key
       (case get_ref (cap_snapshot c) key of
          None \<Rightarrow> st_ret None
        | Some v \<Rightarrow>
            st_bind (consume_records 1) (\<lambda>_.
            st_bind (consume_bytes (length v)) (\<lambda>_. st_ret (Some v)))) c"

fun scan_loop :: "(bytes \<times> bytes) list \<Rightarrow> (read_limits, zerror, (bytes \<times> bytes) list) stm" where
  "scan_loop [] = st_ret []"
| "scan_loop ((key, v) # rest) =
     st_bind (consume_records 1) (\<lambda>_.
     st_bind (consume_bytes (length key)) (\<lambda>_.
     st_bind (consume_bytes (length v)) (\<lambda>_.
     st_bind (scan_loop rest) (\<lambda>entries. st_ret ((key, v) # entries)))))"

definition capture_scan_records :: "bytes \<Rightarrow> (read_capture, zerror, (bytes \<times> bytes) list) stm" where
  "capture_scan_records pre c =
     capture_read pre Prefix (scan_loop (prefix_iter (cap_snapshot c) pre)) c"

definition capture_record_ops :: "read_capture record_ops" where
  "capture_record_ops =
     \<lparr>read_record_op = capture_read_record, scan_records_op = capture_scan_records,
      write_record_op = read_only_write, remove_record_op = read_only_remove\<rparr>"

text \<open>A capture that pins the records \<open>V\<close>.\<close>

definition cap_holds :: "(bytes \<rightharpoonup> bytes) \<Rightarrow> read_capture \<Rightarrow> bool" where
  "cap_holds V c \<longleftrightarrow> kv_holds V (cap_snapshot c)"

lemma scan_loop_value: "scan_loop es l = (Inr xs, l') \<Longrightarrow> xs = es"
proof (induction es arbitrary: l xs l')
  case (Cons e es)
  obtain k v where e: "e = (k, v)" by fastforce
  from Cons.prems obtain l1 xs' where "scan_loop es l1 = (Inr xs', l')" "xs = (k, v) # xs'"
    by (auto simp: e result_simps)
  with Cons.IH e show ?case by blast
qed simp

lemma capture_read_ok:
  "capture_read key request inner c = (Inr v, c') \<longleftrightarrow>
     \<not> cap_failed c \<and> (\<exists>l l'. consume_reads 1 (cap_remaining c) = (Inr (), l) \<and>
       st_bind (consume_bytes (length key)) (\<lambda>_. inner) l = (Inr v, l') \<and>
       c' = c\<lparr>cap_remaining := l', cap_requests := btree_insert (request key) (cap_requests c)\<rparr>)"
  by (auto simp: capture_read_def result_simps split: prod.splits sum.splits)

lemma capture_read_snapshot: "capture_read key request inner c = (r, c') \<Longrightarrow> cap_snapshot c' = cap_snapshot c"
  by (auto simp: capture_read_def split: if_splits prod.splits sum.splits)

lemma capture_read_record_ok:
  "capture_read_record key c = (r, c') \<Longrightarrow>
     cap_snapshot c' = cap_snapshot c \<and> (\<forall>v. r = Inr v \<longrightarrow> v = kv_view (cap_snapshot c) key)"
  unfolding capture_read_record_def
  by (auto dest: capture_read_snapshot simp: capture_read_ok result_simps split: option.splits)

lemma capture_scan_records_ok:
  "capture_scan_records pre c = (r, c') \<Longrightarrow>
     cap_snapshot c' = cap_snapshot c \<and> (\<forall>es. r = Inr es \<longrightarrow> es = prefix_iter (cap_snapshot c) pre)"
  unfolding capture_scan_records_def
  by (auto dest: capture_read_snapshot scan_loop_value simp: capture_read_ok result_simps)

interpretation cap: record_reads capture_record_ops "cap_holds V" V for V
proof
  show "triple (cap_holds V) (read_record_op capture_record_ops key) (\<lambda>v. v = V key)" for key
    by (rule tripleI) (auto simp: capture_record_ops_def cap_holds_def kv_holds_def dest: capture_read_record_ok)
  show "triple (cap_holds V) (scan_records_op capture_record_ops pre) (scan_of V pre)" for pre
    by (rule tripleI)
      (auto simp: capture_record_ops_def cap_holds_def kv_holds_def prefix_iter_scan_of
        dest: capture_scan_records_ok)
qed


section \<open>What a capture accounts for\<close>

text \<open>A sequence of reads, each continuing with the capture its predecessor left.\<close>

datatype read_result = KeyResult "zerror + bytes option" | PrefixResult "zerror + (bytes \<times> bytes) list"

fun capture_step :: "record_read \<Rightarrow> read_capture \<Rightarrow> read_result \<times> read_capture" where
  "capture_step (Key k) c = (case read_record_op capture_record_ops k c of (r, c') \<Rightarrow> (KeyResult r, c'))"
| "capture_step (Prefix p) c =
     (case scan_records_op capture_record_ops p c of (r, c') \<Rightarrow> (PrefixResult r, c'))"

fun capture_run :: "record_read list \<Rightarrow> read_capture \<Rightarrow> read_result list \<times> read_capture" where
  "capture_run [] c = ([], c)"
| "capture_run (q # qs) c =
     (case capture_step q c of (r, c1) \<Rightarrow> (case capture_run qs c1 of (rs, c2) \<Rightarrow> (r # rs, c2)))"

fun answer :: "kv_store \<Rightarrow> record_read \<Rightarrow> read_result" where
  "answer s (Key k) = KeyResult (Inr (kv_view s k))"
| "answer s (Prefix p) = PrefixResult (Inr (prefix_iter s p))"

text \<open>What one read is charged: one read, the records it returns, and the bytes of the request and of
  the records.\<close>

fun charged_records :: "kv_store \<Rightarrow> record_read \<Rightarrow> nat" where
  "charged_records s (Key k) = (case kv_view s k of None \<Rightarrow> 0 | Some _ \<Rightarrow> 1)"
| "charged_records s (Prefix p) = length (prefix_iter s p)"

fun charged_bytes :: "kv_store \<Rightarrow> record_read \<Rightarrow> nat" where
  "charged_bytes s (Key k) = length k + (case kv_view s k of None \<Rightarrow> 0 | Some v \<Rightarrow> length v)"
| "charged_bytes s (Prefix p) =
     length p + sum_list (map (\<lambda>(k, v). length k + length v) (prefix_iter s p))"

lemma consume_ok [result_simps]:
  "consume_reads n l = (Inr u, l') \<longleftrightarrow> n \<le> lim_reads l \<and> l' = l\<lparr>lim_reads := lim_reads l - n\<rparr>"
  "consume_records n l = (Inr u, l') \<longleftrightarrow> n \<le> lim_records l \<and> l' = l\<lparr>lim_records := lim_records l - n\<rparr>"
  "consume_bytes n l = (Inr u, l') \<longleftrightarrow> n \<le> lim_bytes l \<and> l' = l\<lparr>lim_bytes := lim_bytes l - n\<rparr>"
  by (auto simp: consume_reads_def consume_records_def consume_bytes_def)

lemma scan_loop_charges:
  "scan_loop es l = (Inr xs, l') \<Longrightarrow>
     xs = es \<and> lim_reads l' = lim_reads l \<and> lim_records l = lim_records l' + length es \<and>
     lim_bytes l = lim_bytes l' + sum_list (map (\<lambda>(k, v). length k + length v) es)"
proof (induction es arbitrary: l xs l')
  case (Cons e es)
  obtain k v where e: "e = (k, v)" by fastforce
  from Cons.prems obtain xs' where
    xs: "xs = (k, v) # xs'" and b: "1 \<le> lim_records l" "length k \<le> lim_bytes l" "length v \<le> lim_bytes l - length k"
    and rest: "scan_loop es (l\<lparr>lim_records := lim_records l - 1,
        lim_bytes := lim_bytes l - length k - length v\<rparr>) = (Inr xs', l')"
    by (auto simp: e result_simps)
  from Cons.IH [OF rest] b show ?case by (simp add: e xs) linarith
qed simp

lemma capture_read_not_failed:
  "capture_read key request inner c = (r, c') \<Longrightarrow> \<not> cap_failed c' \<Longrightarrow> \<exists>v. r = Inr v"
  by (cases r) (auto simp: capture_read_def split: if_splits prod.splits sum.splits)

lemma capture_step_ok:
  assumes "capture_step q c = (r, c')" and "\<not> cap_failed c'"
  shows "\<not> cap_failed c" and "r = answer (cap_snapshot c) q" and "cap_snapshot c' = cap_snapshot c"
    and "cap_requests c' = btree_insert q (cap_requests c)"
    and "lim_reads (cap_remaining c) = lim_reads (cap_remaining c') + 1"
    and "lim_records (cap_remaining c) = lim_records (cap_remaining c') + charged_records (cap_snapshot c) q"
    and "lim_bytes (cap_remaining c) = lim_bytes (cap_remaining c') + charged_bytes (cap_snapshot c) q"
proof -
  have "\<not> cap_failed c \<and> r = answer (cap_snapshot c) q \<and> cap_snapshot c' = cap_snapshot c \<and>
    cap_requests c' = btree_insert q (cap_requests c) \<and>
    lim_reads (cap_remaining c) = lim_reads (cap_remaining c') + 1 \<and>
    lim_records (cap_remaining c) = lim_records (cap_remaining c') + charged_records (cap_snapshot c) q \<and>
    lim_bytes (cap_remaining c) = lim_bytes (cap_remaining c') + charged_bytes (cap_snapshot c) q"
  proof (cases q)
    case (Key k)
    then obtain rr where run: "capture_read_record k c = (rr, c')" and r: "r = KeyResult rr"
      using assms(1) by (auto simp: capture_record_ops_def split: prod.splits)
    then obtain v where "rr = Inr v" using assms(2) by (auto simp: capture_read_record_def dest: capture_read_not_failed)
    with run r Key show ?thesis
      by (auto simp: capture_read_record_def capture_read_ok result_simps split: option.splits)
  next
    case (Prefix p)
    then obtain rr where run: "capture_scan_records p c = (rr, c')" and r: "r = PrefixResult rr"
      using assms(1) by (auto simp: capture_record_ops_def split: prod.splits)
    then obtain es where "rr = Inr es" using assms(2) by (auto simp: capture_scan_records_def dest: capture_read_not_failed)
    with run r Prefix show ?thesis
      by (auto simp: capture_scan_records_def capture_read_ok result_simps
          dest!: scan_loop_charges)
  qed
  then show "\<not> cap_failed c" and "r = answer (cap_snapshot c) q" and "cap_snapshot c' = cap_snapshot c"
    and "cap_requests c' = btree_insert q (cap_requests c)"
    and "lim_reads (cap_remaining c) = lim_reads (cap_remaining c') + 1"
    and "lim_records (cap_remaining c) = lim_records (cap_remaining c') + charged_records (cap_snapshot c) q"
    and "lim_bytes (cap_remaining c) = lim_bytes (cap_remaining c') + charged_bytes (cap_snapshot c) q"
    by simp_all
qed

lemma capture_step_failed: "cap_failed c \<Longrightarrow> capture_step q c = (r, c') \<Longrightarrow> cap_failed c'"
  by (cases q) (auto simp: capture_record_ops_def capture_read_record_def capture_scan_records_def
      capture_read_def split: prod.splits)

lemma capture_run_ok:
  assumes "capture_run qs c = (rs, c')" and "\<not> cap_failed c'"
  shows "rs = map (answer (cap_snapshot c)) qs \<and>
    cap_requests c' = fold btree_insert qs (cap_requests c) \<and>
    length qs \<le> lim_reads (cap_remaining c) \<and>
    sum_list (map (charged_records (cap_snapshot c)) qs) \<le> lim_records (cap_remaining c) \<and>
    sum_list (map (charged_bytes (cap_snapshot c)) qs) \<le> lim_bytes (cap_remaining c)"
  using assms
proof (induction qs arbitrary: c rs)
  case (Cons q qs)
  obtain r c1 where q: "capture_step q c = (r, c1)" by fastforce
  obtain rs' where rest: "capture_run qs c1 = (rs', c')" and rs: "rs = r # rs'"
    using Cons.prems(1) q by (auto split: prod.splits)
  note IH = Cons.IH [OF rest Cons.prems(2)]
  have nf: "\<not> cap_failed c1"
  proof
    assume "cap_failed c1"
    moreover have "cap_failed c1 \<Longrightarrow> cap_failed c'" using rest
      by (induction qs arbitrary: c1 rs') (auto split: prod.splits dest: capture_step_failed)
    ultimately show False using Cons.prems(2) by simp
  qed
  from capture_step_ok [OF q nf] IH rs show ?case by simp
qed simp

lemma btree_insert_set [simp]: "set (btree_insert k ks) = insert k (set ks)"
  by (simp add: btree_insert_def set_insort_insert)

lemma btree_fold_set: "set (fold btree_insert qs ks) = set qs \<union> set ks"
  by (induction qs arbitrary: ks) auto

lemma btree_fold_sorted:
  "sorted ks \<Longrightarrow> distinct ks \<Longrightarrow> sorted (fold btree_insert qs ks) \<and> distinct (fold btree_insert qs ks)"
  by (induction qs arbitrary: ks)
    (auto simp: btree_insert_def sorted_insort_insert distinct_insort_insert)

text \<open>Conversely, a read whose charge is covered succeeds.\<close>

lemma scan_loop_succeeds:
  "length es \<le> lim_records l \<Longrightarrow> sum_list (map (\<lambda>(k, v). length k + length v) es) \<le> lim_bytes l \<Longrightarrow>
     \<exists>l'. scan_loop es l = (Inr es, l')"
proof (induction es arbitrary: l)
  case (Cons e es)
  obtain k v where e: "e = (k, v)" by fastforce
  let ?l = "l\<lparr>lim_records := lim_records l - 1, lim_bytes := lim_bytes l - length k - length v\<rparr>"
  have "length es \<le> lim_records ?l" "sum_list (map (\<lambda>(k, v). length k + length v) es) \<le> lim_bytes ?l"
    using Cons.prems by (simp_all add: e)
  from Cons.IH [OF this] obtain l' where "scan_loop es ?l = (Inr es, l')" by blast
  moreover have "1 \<le> lim_records l" "length k \<le> lim_bytes l" "length v \<le> lim_bytes l - length k"
    using Cons.prems e by auto
  ultimately show ?case by (auto simp: e result_simps)
qed simp

lemma capture_step_succeeds:
  assumes "\<not> cap_failed c" and "1 \<le> lim_reads (cap_remaining c)"
    and "charged_records (cap_snapshot c) q \<le> lim_records (cap_remaining c)"
    and "charged_bytes (cap_snapshot c) q \<le> lim_bytes (cap_remaining c)"
  shows "\<not> cap_failed (snd (capture_step q c))"
proof (cases q)
  case (Key k)
  have "\<exists>v c'. capture_read_record k c = (Inr v, c') \<and> \<not> cap_failed c'"
    using assms Key
    by (auto simp: capture_read_record_def capture_read_ok result_simps split: option.splits)
  then show ?thesis by (auto simp: Key capture_record_ops_def)
next
  case (Prefix p)
  let ?l = "(cap_remaining c)\<lparr>lim_reads := lim_reads (cap_remaining c) - 1,
      lim_bytes := lim_bytes (cap_remaining c) - length p\<rparr>"
  have "length (prefix_iter (cap_snapshot c) p) \<le> lim_records ?l"
    "sum_list (map (\<lambda>(k, v). length k + length v) (prefix_iter (cap_snapshot c) p)) \<le> lim_bytes ?l"
    using assms(3,4) by (simp_all add: Prefix)
  from scan_loop_succeeds [OF this] obtain l' where
    "scan_loop (prefix_iter (cap_snapshot c) p) ?l = (Inr (prefix_iter (cap_snapshot c) p), l')" by blast
  then have "\<exists>v c'. capture_scan_records p c = (Inr v, c') \<and> \<not> cap_failed c'"
    using assms Prefix by (auto simp: capture_scan_records_def capture_read_ok result_simps)
  then show ?thesis by (auto simp: Prefix capture_record_ops_def)
qed

lemma capture_run_succeeds:
  assumes "\<not> cap_failed c" and "length qs \<le> lim_reads (cap_remaining c)"
    and "sum_list (map (charged_records (cap_snapshot c)) qs) \<le> lim_records (cap_remaining c)"
    and "sum_list (map (charged_bytes (cap_snapshot c)) qs) \<le> lim_bytes (cap_remaining c)"
  shows "\<not> cap_failed (snd (capture_run qs c))"
  using assms
proof (induction qs arbitrary: c)
  case (Cons q qs)
  obtain r c1 where q: "capture_step q c = (r, c1)" by fastforce
  have "\<not> cap_failed c1" using capture_step_succeeds [of c q] Cons.prems q by simp
  with Cons.IH [of c1] capture_step_ok [OF q] Cons.prems q show ?case
    by (auto split: prod.splits)
qed simp

text \<open>C17. A capture over a snapshot succeeds exactly when the reads made fit its three limits: then every
  read returned the snapshot's answer and the requests reported are exactly the reads made, in order and
  without duplicates. Otherwise the capture reports an error, so a partial list of requests is never
  returned.\<close>

theorem capture_accounts_for_every_read:
  assumes "capture_run qs (capture_new s limits) = (rs, c)"
  shows "if length qs \<le> lim_reads limits
      \<and> sum_list (map (charged_records s) qs) \<le> lim_records limits
      \<and> sum_list (map (charged_bytes s) qs) \<le> lim_bytes limits
    then rs = map (answer s) qs \<and>
      (\<exists>reqs. capture_requests c = Inr reqs \<and> set reqs = set qs \<and> sorted reqs \<and> distinct reqs)
    else capture_requests c = Inl limit_error"
proof -
  have new: "cap_snapshot (capture_new s limits) = s" "cap_remaining (capture_new s limits) = limits"
    "cap_requests (capture_new s limits) = []" "\<not> cap_failed (capture_new s limits)"
    by (simp_all add: capture_new_def)
  show ?thesis
    using capture_run_ok [OF assms] capture_run_succeeds [of "capture_new s limits" qs] new assms
      btree_fold_set [of qs "[]"] btree_fold_sorted [of "[]" qs]
    by (auto simp: capture_requests_def)
qed

definition demo_records :: kv_store where
  "demo_records = from_pairs [(''a/1'', ''x''), (''a/2'', ''yz''), (''b'', ''w'')]"

theorem capture_accounts_for_every_read_witness:
  "capture_requests (snd (capture_run [Prefix ''a/'', Key ''b'', Key ''c''] (capture_new demo_records
       \<lparr>lim_reads = 3, lim_records = 3, lim_bytes = 14\<rparr>))) \<noteq> Inl limit_error
   \<and> capture_requests (snd (capture_run [Prefix ''a/'', Key ''b'', Key ''c''] (capture_new demo_records
       \<lparr>lim_reads = 3, lim_records = 3, lim_bytes = 13\<rparr>))) = Inl limit_error"
proof -
  have demo: "demo_records = \<lparr>kv_data = [(''a/1'', ''x''), (''a/2'', ''yz''), (''b'', ''w'')], kv_dirty = []\<rparr>"
    by (simp add: demo_records_def from_pairs_def less_char_def)
  have it: "prefix_iter demo_records ''a/'' = [(''a/1'', ''x''), (''a/2'', ''yz'')]"
    and v: "kv_view demo_records ''b'' = Some ''w''" "kv_view demo_records ''c'' = None"
    by (simp_all add: demo prefix_iter_def ord_range_from_def kv_view_def starts_with_def less_char_def)
  let ?qs = "[Prefix ''a/'', Key ''b'', Key ''c'']"
  define r1 where "r1 = capture_run ?qs (capture_new demo_records \<lparr>lim_reads = 3, lim_records = 3, lim_bytes = 14\<rparr>)"
  define r2 where "r2 = capture_run ?qs (capture_new demo_records \<lparr>lim_reads = 3, lim_records = 3, lim_bytes = 13\<rparr>)"
  have "\<exists>reqs. capture_requests (snd r1) = Inr reqs"
    using capture_accounts_for_every_read [OF trans [OF r1_def [symmetric] surjective_pairing]]
    by (simp add: it v) blast
  moreover have "capture_requests (snd r2) = Inl limit_error"
    using capture_accounts_for_every_read [OF trans [OF r2_def [symmetric] surjective_pairing]]
    by (simp add: it v)
  ultimately show ?thesis unfolding r1_def r2_def by (metis sum.distinct(1))
qed

end
