(* ===== verification/Qmdb_Store.thy ===== *)
theory Qmdb_Store
  imports Record_Reads Zanzibar_Store
begin

text \<open>
  \<open>QmdbZanzibarStore\<close>, the adapter that lets the permission engine read the ACP module's own records
  (\<open>acp/zanzibar_store.rs\<close>). It is generic in its \<open>RecordStore\<close>; its operations are definitions over
  \<open>record_ops\<close>. The tuples it stands for are the records that decode, belong to their key and are not
  archived. Reading them satisfies the evaluator's contract \<open>zanzibar_reads\<close> for every reader that
  satisfies \<open>record_reads\<close>, without any assumption on the hash inside the keys: a record found under
  another record's key is an error.
\<close>

section \<open>Reads\<close>

text \<open>The checks of \<open>live_records\<close> on the entries of a scan.\<close>

fun live_loop ::
  "acp_libs \<Rightarrow> string \<Rightarrow> string \<Rightarrow> string \<Rightarrow> string \<Rightarrow> (bytes \<times> bytes) list \<Rightarrow> zerror + relationship_record list" where
  "live_loop libs policy_id resource object_id relation [] = Inr []"
| "live_loop libs policy_id resource object_id relation ((key, bs) # rest) =
     res_bind (map_err Json (unjson_relationship libs bs)) (\<lambda>record.
     if rr_policy_id record \<noteq> policy_id
       \<or> relationship_key policy_id (relationship_storage_key libs (rr_relationship record)) \<noteq> key
     then Inl (Serialization ''relationship record does not match its key'')
     else
       res_bind (live_loop libs policy_id resource object_id relation rest) (\<lambda>records.
       Inr (if \<not> rr_archived record \<and> rel_resource (rr_relationship record) = resource
              \<and> rel_object_id (rr_relationship record) = object_id
              \<and> rel_relation (rr_relationship record) = relation
            then record # records else records)))"

definition live_records ::
  "acp_libs \<Rightarrow> 's record_ops \<Rightarrow> string \<Rightarrow> string \<Rightarrow> string \<Rightarrow> string \<Rightarrow>
     ('s, zerror, relationship_record list) stm" where
  "live_records libs rops policy_id resource object_id relation =
     st_bind (scan_records_op rops (relationship_storage_prefix policy_id
                (acp_relation_prefix libs resource object_id relation))) (\<lambda>entries.
     st_lift (live_loop libs policy_id resource object_id relation entries))"

definition is_live :: "acp_libs \<Rightarrow> 's record_ops \<Rightarrow> string \<Rightarrow> relationship \<Rightarrow> ('s, zerror, bool) stm" where
  "is_live libs rops policy_id rel =
     st_bind (read_record_op rops (relationship_key policy_id (relationship_storage_key libs rel))) (\<lambda>found.
     case found of
       None \<Rightarrow> st_ret False
     | Some bs \<Rightarrow>
         st_bind (st_lift (map_err Json (unjson_relationship libs bs))) (\<lambda>record.
         if rr_policy_id record \<noteq> policy_id \<or> rr_relationship record \<noteq> rel
         then st_fail (Serialization ''relationship record does not match the requested identity'')
         else st_ret (\<not> rr_archived record)))"

definition qmdb_has_relationship ::
  "acp_libs \<Rightarrow> 's record_ops \<Rightarrow> string \<Rightarrow> string \<Rightarrow> string \<Rightarrow> string \<Rightarrow> subject \<Rightarrow> ('s, zerror, bool) stm" where
  "qmdb_has_relationship libs rops policy_id resource object_id relation subject =
     is_live libs rops policy_id (relationship_new resource object_id relation subject)"

definition qmdb_check_permission_direct ::
  "acp_libs \<Rightarrow> 's record_ops \<Rightarrow> string \<Rightarrow> string \<Rightarrow> string \<Rightarrow> string \<Rightarrow> did \<Rightarrow> ('s, zerror, bool) stm" where
  "qmdb_check_permission_direct libs rops policy_id resource object_id relation subject =
     st_bind (is_live libs rops policy_id (with_entity resource object_id relation subject)) (\<lambda>direct.
     if direct then st_ret True
     else
       st_bind (is_live libs rops policy_id (relationship_new resource object_id relation Wildcard)) (\<lambda>wildcard.
       if wildcard then st_ret True
       else
         st_bind (live_records libs rops policy_id resource object_id relation) (\<lambda>records.
         st_ret (list_ex (\<lambda>rec. is_typed_wildcard (rel_subject (rr_relationship rec))) records))))"

definition qmdb_get_relation_subjects ::
  "acp_libs \<Rightarrow> 's record_ops \<Rightarrow> string \<Rightarrow> string \<Rightarrow> string \<Rightarrow> string \<Rightarrow> ('s, zerror, subject list) stm" where
  "qmdb_get_relation_subjects libs rops policy_id resource object_id relation =
     st_bind (live_records libs rops policy_id resource object_id relation) (\<lambda>records.
     st_ret (map (\<lambda>rec. rel_subject (rr_relationship rec)) records))"

definition qmdb_get_relation_targets ::
  "acp_libs \<Rightarrow> 's record_ops \<Rightarrow> string \<Rightarrow> string \<Rightarrow> string \<Rightarrow> string \<Rightarrow> ('s, zerror, object_ref list) stm" where
  "qmdb_get_relation_targets libs rops policy_id resource object_id relation =
     st_bind (live_records libs rops policy_id resource object_id relation) (\<lambda>records.
     st_ret (List.map_filter (\<lambda>rec. entity_set_target (rel_subject (rr_relationship rec))) records))"

definition qmdb_ops :: "acp_libs \<Rightarrow> 's record_ops \<Rightarrow> 's store_ops" where
  "qmdb_ops libs rops =
     \<lparr>check_permission_direct_op = qmdb_check_permission_direct libs rops,
      get_relation_subjects_op = qmdb_get_relation_subjects libs rops,
      get_relation_targets_op = qmdb_get_relation_targets libs rops\<rparr>"


section \<open>Writes\<close>

definition default_metadata :: record_metadata where
  "default_metadata = plain_metadata []"

definition qmdb_store_policy :: "acp_libs \<Rightarrow> 's record_ops \<Rightarrow> policy \<Rightarrow> ('s, zerror, unit) stm" where
  "qmdb_store_policy libs rops p =
     write_record_op rops (policy_key (pol_id p))
       (json_policy_record libs \<lparr>pr_policy = p, pr_raw_policy = [], pr_marshal_type = ShortYaml,
                                 pr_metadata = default_metadata\<rparr>)"

definition qmdb_get_policy :: "acp_libs \<Rightarrow> 's record_ops \<Rightarrow> string \<Rightarrow> ('s, zerror, policy option) stm" where
  "qmdb_get_policy libs rops policy_id =
     st_bind (read_record_op rops (policy_key policy_id)) (\<lambda>found.
     case found of
       None \<Rightarrow> st_ret None
     | Some bs \<Rightarrow>
         st_bind (st_lift (map_err Json (unjson_policy_record libs bs))) (\<lambda>record.
         st_ret (Some (pr_policy record))))"

definition qmdb_list_policies :: "acp_libs \<Rightarrow> 's record_ops \<Rightarrow> ('s, zerror, policy list) stm" where
  "qmdb_list_policies libs rops =
     st_bind (scan_records_op rops POLICY_PREFIX) (\<lambda>entries.
     st_lift (map_res (\<lambda>(_, bs).
       res_bind (map_err Json (unjson_policy_record libs bs)) (\<lambda>record. Inr (pr_policy record))) entries))"

definition qmdb_next_policy_counter :: "'s record_ops \<Rightarrow> ('s, zerror, u64) stm" where
  "qmdb_next_policy_counter rops =
     st_bind (read_record_op rops POLICY_COUNTER_KEY) (\<lambda>found.
     st_bind (st_lift (case found of
                None \<Rightarrow> Inr 0
              | Some bs \<Rightarrow> ok_or (Serialization ''policy counter must contain 8 bytes'') (from_be_bytes bs)))
       (\<lambda>counter.
     st_bind (st_lift (ok_or (Serialization ''policy counter exhausted'') (checked_add counter 1))) (\<lambda>next'.
     st_bind (write_record_op rops POLICY_COUNTER_KEY (to_be_bytes next')) (\<lambda>_.
     st_ret next'))))"

fun remove_all :: "'s record_ops \<Rightarrow> bytes list \<Rightarrow> ('s, zerror, unit) stm" where
  "remove_all rops [] = st_ret ()"
| "remove_all rops (key # rest) = st_bind (remove_record_op rops key) (\<lambda>_. remove_all rops rest)"

definition qmdb_delete_policy :: "'s record_ops \<Rightarrow> string \<Rightarrow> ('s, zerror, bool) stm" where
  "qmdb_delete_policy rops policy_id =
     st_bind (read_record_op rops (policy_key policy_id)) (\<lambda>found.
     if found = None then st_ret False
     else
       st_bind (scan_records_op rops (relationship_policy_prefix policy_id)) (\<lambda>entries.
       st_bind (remove_record_op rops (policy_key policy_id)) (\<lambda>_.
       st_bind (remove_all rops (map fst entries)) (\<lambda>_.
       st_ret True))))"

definition qmdb_store_relationship ::
  "acp_libs \<Rightarrow> 's record_ops \<Rightarrow> string \<Rightarrow> relationship \<Rightarrow> ('s, zerror, unit) stm" where
  "qmdb_store_relationship libs rops policy_id rel =
     (let record = \<lparr>rr_policy_id = policy_id, rr_relationship = rel, rr_archived = False,
                    rr_metadata = default_metadata\<rparr>;
          bs = json_relationship libs record;
          key = relationship_key policy_id (relationship_storage_key libs rel)
      in st_bind (read_record_op rops key) (\<lambda>found.
         st_bind (case found of
                    None \<Rightarrow> st_ret ()
                  | Some old \<Rightarrow>
                      st_bind (st_lift (map_err Json (unjson_relationship libs old))) (\<lambda>existing.
                      if rr_policy_id existing \<noteq> policy_id \<or> rr_relationship existing \<noteq> rel
                      then st_fail (Serialization ''relationship key collision'') else st_ret ())) (\<lambda>_.
         write_record_op rops key bs)))"

definition qmdb_delete_relationship ::
  "acp_libs \<Rightarrow> 's record_ops \<Rightarrow> string \<Rightarrow> relationship \<Rightarrow> ('s, zerror, bool) stm" where
  "qmdb_delete_relationship libs rops policy_id rel =
     (let key = relationship_key policy_id (relationship_storage_key libs rel)
      in st_bind (read_record_op rops key) (\<lambda>found.
         case found of
           None \<Rightarrow> st_ret False
         | Some bs \<Rightarrow>
             st_bind (st_lift (map_err Json (unjson_relationship libs bs))) (\<lambda>record.
             if rr_policy_id record \<noteq> policy_id \<or> rr_relationship record \<noteq> rel
             then st_fail (Serialization ''relationship key collision'')
             else st_bind (remove_record_op rops key) (\<lambda>_. st_ret True))))"

text \<open>The checks on the entries of an object, collecting the keys to remove.\<close>

fun object_keys_loop ::
  "acp_libs \<Rightarrow> string \<Rightarrow> string \<Rightarrow> string \<Rightarrow> (bytes \<times> bytes) list \<Rightarrow> zerror + bytes list" where
  "object_keys_loop libs policy_id resource object_id [] = Inr []"
| "object_keys_loop libs policy_id resource object_id ((key, bs) # rest) =
     res_bind (map_err Json (unjson_relationship libs bs)) (\<lambda>record.
     if rr_policy_id record \<noteq> policy_id
       \<or> relationship_key policy_id (relationship_storage_key libs (rr_relationship record)) \<noteq> key
     then Inl (Serialization ''relationship record does not match its key'')
     else
       res_bind (object_keys_loop libs policy_id resource object_id rest) (\<lambda>ks.
       Inr (if rel_resource (rr_relationship record) = resource
              \<and> rel_object_id (rr_relationship record) = object_id
            then key # ks else ks)))"

definition qmdb_delete_object_relationships ::
  "acp_libs \<Rightarrow> 's record_ops \<Rightarrow> string \<Rightarrow> string \<Rightarrow> string \<Rightarrow> ('s, zerror, unit) stm" where
  "qmdb_delete_object_relationships libs rops policy_id resource object_id =
     st_bind (scan_records_op rops (relationship_storage_prefix policy_id
                (acp_object_prefix libs resource object_id))) (\<lambda>entries.
     st_bind (st_lift (object_keys_loop libs policy_id resource object_id entries)) (\<lambda>ks.
     remove_all rops ks))"


section \<open>Evaluating an access request\<close>

fun access_loop ::
  "'s engine \<Rightarrow> string \<Rightarrow> did \<Rightarrow> operation list \<Rightarrow> ('s, zerror, bool) stm" where
  "access_loop eng policy_id actor [] = st_ret True"
| "access_loop eng policy_id actor (op # rest) =
     st_bind (check eng policy_id (obj_resource (opn_object op)) (obj_id (opn_object op))
                (opn_permission op) actor) (\<lambda>granted.
     if \<not> granted then st_ret False else access_loop eng policy_id actor rest)"

definition evaluate_access_request ::
  "acp_libs \<Rightarrow> 's record_ops \<Rightarrow> string \<Rightarrow> access_request \<Rightarrow> ('s, zerror, bool) stm" where
  "evaluate_access_request libs rops policy_id request =
     st_bind (read_record_op rops (policy_key policy_id)) (\<lambda>found.
     case found of
       None \<Rightarrow> st_ret False
     | Some bs \<Rightarrow>
         st_bind (st_lift (map_err Json (unjson_policy_record libs bs))) (\<lambda>record.
         if pol_id (pr_policy record) \<noteq> policy_id
         then st_fail (InvalidPolicy ''policy record ID does not match its key'')
         else
           access_loop \<lparr>eng_ops = qmdb_ops libs rops, eng_lookup = add_policy lookup_new (pr_policy record)\<rparr>
             policy_id (ar_actor request) (ar_operations request)))"


section \<open>The tuples behind the records\<close>

definition live :: "acp_libs \<Rightarrow> (bytes \<rightharpoonup> bytes) \<Rightarrow> string \<Rightarrow> relationship \<Rightarrow> bool" where
  "live libs V policy_id rel =
     (case V (relationship_key policy_id (relationship_storage_key libs rel)) of
        None \<Rightarrow> False
      | Some bs \<Rightarrow>
          (case unjson_relationship libs bs of
             Inl _ \<Rightarrow> False
           | Inr record \<Rightarrow> rr_policy_id record = policy_id \<and> rr_relationship record = rel
                          \<and> \<not> rr_archived record))"

definition qmdb_tuples :: "acp_libs \<Rightarrow> (bytes \<rightharpoonup> bytes) \<Rightarrow> tuples" where
  "qmdb_tuples libs V policy_id n =
     (case n of (resource, object_id, relation) \<Rightarrow>
        {s. live libs V policy_id (relationship_new resource object_id relation s)})"

lemma live_iff:
  "live libs V pid rel \<longleftrightarrow>
     (\<exists>bs record. V (relationship_key pid (relationship_storage_key libs rel)) = Some bs \<and>
        unjson_relationship libs bs = Inr record \<and> rr_policy_id record = pid \<and>
        rr_relationship record = rel \<and> \<not> rr_archived record)"
  by (auto simp: live_def split: option.splits sum.splits)

lemma relationship_new_fields [simp]:
  "rel_resource (relationship_new r ob l s) = r" "rel_object_id (relationship_new r ob l s) = ob"
  "rel_relation (relationship_new r ob l s) = l" "rel_subject (relationship_new r ob l s) = s"
  "relationship_new (rel_resource rel) (rel_object_id rel) (rel_relation rel) (rel_subject rel) = rel"
  by (simp_all add: relationship_new_def)

lemma live_loop_set:
  assumes "live_loop libs pid r ob l es = Inr records"
  shows "set records = {rec. \<exists>k bs. (k, bs) \<in> set es \<and> unjson_relationship libs bs = Inr rec \<and>
      rr_policy_id rec = pid \<and> k = relationship_key pid (relationship_storage_key libs (rr_relationship rec)) \<and>
      \<not> rr_archived rec \<and> rel_resource (rr_relationship rec) = r \<and>
      rel_object_id (rr_relationship rec) = ob \<and> rel_relation (rr_relationship rec) = l}"
  using assms
proof (induction es arbitrary: records)
  case (Cons e es)
  obtain k bs where e: "e = (k, bs)" by fastforce
  from Cons.prems e obtain rec rest where
    "unjson_relationship libs bs = Inr rec" "rr_policy_id rec = pid"
    "k = relationship_key pid (relationship_storage_key libs (rr_relationship rec))"
    "live_loop libs pid r ob l es = Inr rest"
    "records = (if \<not> rr_archived rec \<and> rel_resource (rr_relationship rec) = r
        \<and> rel_object_id (rr_relationship rec) = ob \<and> rel_relation (rr_relationship rec) = l
        then rec # rest else rest)"
    by (auto split: if_splits)
  with Cons.IH [of rest] e show ?case by auto
qed auto

lemma typed_wildcard_ex:
  "list_ex (\<lambda>rec. is_typed_wildcard (f rec)) recs \<longleftrightarrow> (\<exists>x. TypedWildcard x \<in> f ` set recs)"
proof -
  have "is_typed_wildcard s \<longleftrightarrow> (\<exists>x. s = TypedWildcard x)" for s by (cases s) auto
  then show ?thesis by (auto simp: list_ex_iff image_iff) metis+
qed

locale qmdb_reads = record_reads rops rinv V
  for rops :: "'s record_ops" and rinv :: "'s \<Rightarrow> bool" and V :: "bytes \<rightharpoonup> bytes" +
  fixes libs :: acp_libs
begin

lemma is_live_ok: "triple rinv (is_live libs rops pid rel) (\<lambda>b. b \<longleftrightarrow> live libs V pid rel)"
  unfolding is_live_def
proof (rule triple_bind [OF read_exact], goal_cases)
  case (1 found)
  show ?case
  proof (cases found)
    case None
    with 1 show ?thesis by (auto simp: live_def simp del: st_simps intro!: triple_ret)
  next
    case (Some bs)
    with 1 have v: "V (relationship_key pid (relationship_storage_key libs rel)) = Some bs" by simp
    show ?thesis unfolding Some option.case
      by (rule triple_bind [OF triple_lift [where Q = "\<lambda>rec. unjson_relationship libs bs = Inr rec"]])
        (auto simp: live_def v simp del: st_simps intro!: triple_ret)
  qed
qed

lemma live_records_ok:
  "triple rinv (live_records libs rops pid r ob l)
     (\<lambda>recs. (\<lambda>rec. rel_subject (rr_relationship rec)) ` set recs = qmdb_tuples libs V pid (r, ob, l))"
  unfolding live_records_def
proof (rule triple_bind [OF scan_exact], goal_cases)
  case (1 es)
  show ?case
  proof (rule triple_lift)
    fix recs assume run: "live_loop libs pid r ob l es = Inr recs"
    note recs = live_loop_set [OF run]
    have "s \<in> (\<lambda>rec. rel_subject (rr_relationship rec)) ` set recs \<longleftrightarrow> s \<in> qmdb_tuples libs V pid (r, ob, l)" for s
    proof
      assume "s \<in> (\<lambda>rec. rel_subject (rr_relationship rec)) ` set recs"
      then obtain rec bs where rec: "s = rel_subject (rr_relationship rec)"
        "(relationship_key pid (relationship_storage_key libs (rr_relationship rec)), bs) \<in> set es"
        "unjson_relationship libs bs = Inr rec" "rr_policy_id rec = pid" "\<not> rr_archived rec"
        "rel_resource (rr_relationship rec) = r" "rel_object_id (rr_relationship rec) = ob"
        "rel_relation (rr_relationship rec) = l"
        unfolding recs by blast
      have "relationship_new r ob l s = rr_relationship rec"
        using rec relationship_new_fields(5) [of "rr_relationship rec"] by simp
      with rec 1 show "s \<in> qmdb_tuples libs V pid (r, ob, l)"
        by (auto simp: qmdb_tuples_def live_iff scan_of_def)
    next
      let ?rel = "relationship_new r ob l s"
      assume "s \<in> qmdb_tuples libs V pid (r, ob, l)"
      then obtain bs rec where rec: "V (relationship_key pid (relationship_storage_key libs ?rel)) = Some bs"
        "unjson_relationship libs bs = Inr rec" "rr_policy_id rec = pid" "rr_relationship rec = ?rel"
        "\<not> rr_archived rec"
        by (auto simp: qmdb_tuples_def live_iff)
      have "prefix (relationship_storage_prefix pid (acp_relation_prefix libs r ob l))
          (relationship_key pid (relationship_storage_key libs ?rel))"
        using storage_key_prefix(1) [of libs ?rel] by (simp add: storage_prefix_key)
      with rec 1 have "rec \<in> set recs" unfolding recs by (auto simp: scan_of_def)
      with rec show "s \<in> (\<lambda>rec. rel_subject (rr_relationship rec)) ` set recs" by force
    qed
    then show "(\<lambda>rec. rel_subject (rr_relationship rec)) ` set recs = qmdb_tuples libs V pid (r, ob, l)" by blast
  qed
qed

lemma direct_ok:
  "triple rinv (qmdb_check_permission_direct libs rops pid r ob l d)
     (\<lambda>b. b \<longleftrightarrow> direct_grant (qmdb_tuples libs V) pid d (r, ob, l))"
  unfolding qmdb_check_permission_direct_def
proof (rule triple_bind [OF is_live_ok], goal_cases)
  case (1 direct)
  then have d: "direct \<longleftrightarrow> Entity d \<in> qmdb_tuples libs V pid (r, ob, l)"
    by (simp add: qmdb_tuples_def with_entity_def)
  show ?case
  proof (cases direct)
    case True
    with d show ?thesis by (auto simp: direct_grant_def simp del: st_simps intro!: triple_ret)
  next
    case False
    show ?thesis unfolding if_not_P [OF False]
    proof (rule triple_bind [OF is_live_ok], goal_cases)
      case (1 wildcard)
      then have w: "wildcard \<longleftrightarrow> Wildcard \<in> qmdb_tuples libs V pid (r, ob, l)"
        by (simp add: qmdb_tuples_def)
      show ?case
      proof (cases wildcard)
        case True
        with w show ?thesis by (auto simp: direct_grant_def simp del: st_simps intro!: triple_ret)
      next
        case no: False
        show ?thesis unfolding if_not_P [OF no]
          by (rule triple_bind [OF live_records_ok], rule triple_ret)
            (use d w False no in \<open>simp add: direct_grant_def typed_wildcard_ex\<close>)
      qed
    qed
  qed
qed

lemma subjects_ok:
  "triple rinv (qmdb_get_relation_subjects libs rops pid r ob l) (\<lambda>ss. set ss = qmdb_tuples libs V pid (r, ob, l))"
  unfolding qmdb_get_relation_subjects_def
  by (rule triple_bind [OF live_records_ok], rule triple_ret) simp

lemma targets_ok:
  "triple rinv (qmdb_get_relation_targets libs rops pid r ob l)
     (\<lambda>ts. set ts = {t. \<exists>l'. EntitySet (ref_resource t) (ref_object_id t) l' \<in> qmdb_tuples libs V pid (r, ob, l)})"
  unfolding qmdb_get_relation_targets_def
proof (rule triple_bind [OF live_records_ok], rule triple_ret, goal_cases)
  case (1 recs)
  show ?case unfolding 1 [symmetric] set_map_filter entity_set_target_iff
    by (auto simp: image_iff; metis)
qed

end

sublocale qmdb_reads \<subseteq> zanzibar_reads "qmdb_ops libs rops" rinv "qmdb_tuples libs V" "\<lambda>_. True"
  by unfold_locales (simp_all add: qmdb_ops_def direct_ok subjects_ok targets_ok)

text \<open>The answer a request should have: the policy record is there and grants every operation.\<close>

definition request_granted ::
  "acp_libs \<Rightarrow> (bytes \<rightharpoonup> bytes) \<Rightarrow> string \<Rightarrow> access_request \<Rightarrow> bool" where
  "request_granted libs V pid request \<longleftrightarrow>
     (\<exists>bs record. V (policy_key pid) = Some bs \<and> unjson_policy_record libs bs = Inr record \<and>
        pol_id (pr_policy record) = pid \<and>
        (\<forall>op \<in> set (ar_operations request).
           permitted (add_policy lookup_new (pr_policy record)) (qmdb_tuples libs V) pid (ar_actor request)
             (obj_resource (opn_object op), obj_id (opn_object op), opn_permission op)))"

context qmdb_reads
begin

lemma access_loop_ok:
  "triple rinv (access_loop \<lparr>eng_ops = qmdb_ops libs rops, eng_lookup = lk\<rparr> pid actor ops)
     (\<lambda>b. b \<longleftrightarrow> (\<forall>op \<in> set ops. permitted lk (qmdb_tuples libs V) pid actor
        (obj_resource (opn_object op), obj_id (opn_object op), opn_permission op)))"
proof (induction ops)
  case Nil
  show ?case unfolding access_loop.simps by (rule triple_ret) simp
next
  case (Cons op ops)
  have c: "triple rinv (check \<lparr>eng_ops = qmdb_ops libs rops, eng_lookup = lk\<rparr> pid (obj_resource (opn_object op))
      (obj_id (opn_object op)) (opn_permission op) actor)
      (\<lambda>b. b \<longleftrightarrow> permitted lk (qmdb_tuples libs V) pid actor
        (obj_resource (opn_object op), obj_id (opn_object op), opn_permission op))"
    by (rule tripleI) (use check_ok in blast)
  show ?case unfolding access_loop.simps
  proof (rule triple_bind [OF c], goal_cases)
    case (1 g)
    then show ?case
      by (cases g) (use Cons.IH in \<open>auto simp del: st_simps intro!: triple_ret elim!: triple_weaken\<close>)
  qed
qed

lemma evaluate_ok:
  "triple rinv (evaluate_access_request libs rops pid request) (\<lambda>b. b \<longleftrightarrow> request_granted libs V pid request)"
  unfolding evaluate_access_request_def
proof (rule triple_bind [OF read_exact], goal_cases)
  case (1 found)
  show ?case
  proof (cases found)
    case None
    with 1 show ?thesis by (auto simp: request_granted_def simp del: st_simps intro!: triple_ret)
  next
    case (Some bs)
    with 1 have v: "V (policy_key pid) = Some bs" by simp
    show ?thesis unfolding Some option.case
    proof (rule triple_bind [OF triple_lift [where Q = "\<lambda>rec. unjson_policy_record libs bs = Inr rec"]], simp, goal_cases)
      case (1 rec)
      show ?case
      proof (cases "pol_id (pr_policy rec) = pid")
        case True
        with 1 v have "request_granted libs V pid request \<longleftrightarrow>
            (\<forall>op \<in> set (ar_operations request).
              permitted (add_policy lookup_new (pr_policy rec)) (qmdb_tuples libs V) pid (ar_actor request)
                (obj_resource (opn_object op), obj_id (opn_object op), opn_permission op))"
          by (simp add: request_granted_def)
        with True access_loop_ok show ?thesis by simp
      qed simp
    qed
  qed
qed

end

interpretation qkv: qmdb_reads kv_record_ops "kv_holds V" V libs for V libs
  by unfold_locales

interpretation qcap: qmdb_reads capture_record_ops "cap_holds V" V libs for V libs
  by unfold_locales


section \<open>Writes over a module store\<close>

text \<open>The three relationship writes, as one operation over the writes of \<open>Zanzibar_Store\<close>.\<close>

fun qmdb_apply_write :: "acp_libs \<Rightarrow> rel_write \<Rightarrow> (kv_store, zerror, unit) stm" where
  "qmdb_apply_write libs (WStore pid rel) = qmdb_store_relationship libs kv_record_ops pid rel"
| "qmdb_apply_write libs (WDelete pid rel) =
     st_bind (qmdb_delete_relationship libs kv_record_ops pid rel) (\<lambda>_. st_ret ())"
| "qmdb_apply_write libs (WDeleteObject pid r ob) =
     qmdb_delete_object_relationships libs kv_record_ops pid r ob"

text \<open>The record a write stores decodes to itself.\<close>

fun write_codec_ok :: "acp_libs \<Rightarrow> rel_write \<Rightarrow> bool" where
  "write_codec_ok libs (WStore pid rel) =
     (let record = \<lparr>rr_policy_id = pid, rr_relationship = rel, rr_archived = False,
                    rr_metadata = default_metadata\<rparr>
      in unjson_relationship libs (json_relationship libs record) = Inr record)"
| "write_codec_ok libs _ = True"

lemma kv_op_runs:
  "read_record_op kv_record_ops k s = (Inr (kv_view s k), s)"
  "scan_records_op kv_record_ops p s = (Inr (prefix_iter s p), s)"
  "write_record_op kv_record_ops k v s = (Inr (), kv_put k v s)"
  "remove_record_op kv_record_ops k s = (Inr (), kv_delete k s)"
  by (simp_all add: kv_record_ops_def)

lemmas kv_op_simps = kv_op_runs st_bind_def

lemma remove_all_kv: "remove_all kv_record_ops ks s = (Inr (), fold kv_delete ks s)"
  by (induction ks arbitrary: s) (simp_all add: kv_op_simps)

lemma delete_keys_view:
  "kv_wf s \<Longrightarrow> kv_wf (fold kv_delete ks s) \<and>
     kv_view (fold kv_delete ks s) = (\<lambda>k. if k \<in> set ks then None else kv_view s k)"
  by (induction ks arbitrary: s) (auto simp: fun_eq_iff)

lemma tuples_of_live:
  "qmdb_tuples libs V q n = {sb. live libs V q (relationship_new (fst n) (fst (snd n)) (snd (snd n)) sb)}"
  by (cases n) (simp add: qmdb_tuples_def)

lemma relationship_eq_new:
  "relationship_new r ob l sb = rel \<longleftrightarrow> (r, ob, l) = rel_node rel \<and> sb = rel_subject rel"
  by (cases rel) (auto simp: relationship_new_def)

lemma object_keys_loop_set:
  assumes "object_keys_loop libs pid r ob es = Inr ks"
  shows "(\<forall>(k, bs) \<in> set es. \<exists>rec. unjson_relationship libs bs = Inr rec \<and> rr_policy_id rec = pid \<and>
      k = relationship_key pid (relationship_storage_key libs (rr_relationship rec))) \<and>
    (\<forall>k. k \<in> set ks \<longleftrightarrow> (\<exists>bs rec. (k, bs) \<in> set es \<and> unjson_relationship libs bs = Inr rec \<and>
      rel_resource (rr_relationship rec) = r \<and> rel_object_id (rr_relationship rec) = ob))"
  using assms
proof (induction es arbitrary: ks)
  case (Cons e es)
  obtain k bs where e: "e = (k, bs)" by fastforce
  from Cons.prems e obtain rec rest where
    "unjson_relationship libs bs = Inr rec" "rr_policy_id rec = pid"
    "k = relationship_key pid (relationship_storage_key libs (rr_relationship rec))"
    "object_keys_loop libs pid r ob es = Inr rest"
    "ks = (if rel_resource (rr_relationship rec) = r \<and> rel_object_id (rr_relationship rec) = ob
        then k # rest else rest)"
    by (auto split: if_splits)
  with Cons.IH [of rest] e show ?case by auto
qed auto

lemma live_same_key:
  "live libs V q rel \<Longrightarrow> \<exists>bs. V (relationship_key q (relationship_storage_key libs rel)) = Some bs \<and>
     (\<forall>r. unjson_relationship libs bs = Inr r \<longrightarrow> rr_policy_id r = q \<and> rr_relationship r = rel)"
  by (auto simp: live_iff)

lemma store_live:
  assumes codec: "write_codec_ok libs (WStore pid rel)" and wf: "kv_wf s"
    and run: "qmdb_apply_write libs (WStore pid rel) s = (Inr u, s')"
  shows "kv_wf s' \<and> (live libs (kv_view s') q rel' \<longleftrightarrow> live libs (kv_view s) q rel' \<or> q = pid \<and> rel' = rel)"
proof -
  let ?k = "relationship_key pid (relationship_storage_key libs rel)"
  let ?rec = "\<lparr>rr_policy_id = pid, rr_relationship = rel, rr_archived = False, rr_metadata = default_metadata\<rparr>"
  have s': "s' = kv_put ?k (json_relationship libs ?rec) s"
    and old: "\<And>bs. kv_view s ?k = Some bs \<Longrightarrow>
      \<exists>rec. unjson_relationship libs bs = Inr rec \<and> rr_policy_id rec = pid \<and> rr_relationship rec = rel"
    using run by (auto simp: qmdb_store_relationship_def Let_def kv_op_simps
        split: option.splits sum.splits if_splits)
  have "live libs (kv_view s') q rel' \<longleftrightarrow>
      (if relationship_key q (relationship_storage_key libs rel') = ?k then q = pid \<and> rel' = rel
       else live libs (kv_view s) q rel')"
    using codec wf by (auto simp: s' live_def Let_def)
  moreover have "q = pid \<and> rel' = rel"
    if "relationship_key q (relationship_storage_key libs rel') = ?k" "live libs (kv_view s) q rel'"
    using live_same_key [OF that(2)] that(1) old by metis
  ultimately show ?thesis using wf s' by auto
qed

lemma delete_run:
  assumes "qmdb_apply_write libs (WDelete pid rel) s = (Inr u, s')"
    and "kv_view s (relationship_key pid (relationship_storage_key libs rel)) = Some bs"
  shows "\<exists>rec. unjson_relationship libs bs = Inr rec \<and> rr_policy_id rec = pid \<and> rr_relationship rec = rel \<and>
    s' = kv_delete (relationship_key pid (relationship_storage_key libs rel)) s"
  using assms by (cases "unjson_relationship libs bs")
    (simp_all add: qmdb_delete_relationship_def Let_def kv_op_simps split: if_splits)

lemma delete_live:
  assumes wf: "kv_wf s" and run: "qmdb_apply_write libs (WDelete pid rel) s = (Inr u, s')"
  shows "kv_wf s' \<and> (live libs (kv_view s') q rel' \<longleftrightarrow> live libs (kv_view s) q rel' \<and> \<not> (q = pid \<and> rel' = rel))"
proof -
  let ?k = "relationship_key pid (relationship_storage_key libs rel)"
  show ?thesis
  proof (cases "kv_view s ?k")
    case None
    then have "s' = s" using run by (simp add: qmdb_delete_relationship_def Let_def kv_op_simps)
    moreover have "\<not> live libs (kv_view s) pid rel" using None by (simp add: live_def)
    ultimately show ?thesis using wf by blast
  next
    case (Some bs)
    from delete_run [OF run this] obtain rec where rec: "unjson_relationship libs bs = Inr rec"
        "rr_policy_id rec = pid" "rr_relationship rec = rel" and s': "s' = kv_delete ?k s" by blast
    have same: "q = pid \<and> rel' = rel"
      if "relationship_key q (relationship_storage_key libs rel') = ?k" "live libs (kv_view s) q rel'"
      using live_same_key [OF that(2)] that(1) Some rec by (metis option.inject)
    have "live libs (kv_view s') q rel' \<longleftrightarrow> live libs (kv_view s) q rel' \<and>
        relationship_key q (relationship_storage_key libs rel') \<noteq> ?k"
      by (simp add: s' live_def)
    with same wf s' show ?thesis by blast
  qed
qed

lemma delete_object_live:
  assumes wf: "kv_wf s" and run: "qmdb_apply_write libs (WDeleteObject pid r ob) s = (Inr u, s')"
  shows "kv_wf s' \<and> (live libs (kv_view s') q rel' \<longleftrightarrow> live libs (kv_view s) q rel' \<and>
    \<not> (q = pid \<and> rel_resource rel' = r \<and> rel_object_id rel' = ob))"
proof -
  let ?p = "relationship_storage_prefix pid (acp_object_prefix libs r ob)"
  obtain ks where ks: "object_keys_loop libs pid r ob (prefix_iter s ?p) = Inr ks"
    and s': "s' = fold kv_delete ks s"
    using run by (auto simp: qmdb_delete_object_relationships_def kv_op_simps remove_all_kv
        split: sum.splits)
  note es = object_keys_loop_set [OF ks]
  let ?k = "relationship_key q (relationship_storage_key libs rel')"
  have "live libs (kv_view s') q rel' \<longleftrightarrow> live libs (kv_view s) q rel' \<and> ?k \<notin> set ks"
    using delete_keys_view [OF wf, of ks] by (auto simp: s' live_def)
  moreover have "?k \<in> set ks \<longleftrightarrow> q = pid \<and> rel_resource rel' = r \<and> rel_object_id rel' = ob"
    if l: "live libs (kv_view s) q rel'"
  proof -
    obtain bs rec where rec: "kv_view s ?k = Some bs" "unjson_relationship libs bs = Inr rec"
      "rr_policy_id rec = q" "rr_relationship rec = rel'"
      using l by (auto simp: live_iff)
    have entry: "(?k, bs') \<in> set (prefix_iter s ?p) \<longleftrightarrow> bs' = bs \<and> prefix ?p ?k" for bs'
      using rec(1) by (auto simp: prefix_iter_set [OF wf])
    have "prefix ?p ?k" if "q = pid" "rel_resource rel' = r" "rel_object_id rel' = ob"
      using that storage_key_prefix(2) [of libs rel'] by (simp add: storage_prefix_key)
    note pre = this
    show ?thesis
    proof
      assume "?k \<in> set ks"
      then obtain bs' rec' where in': "(?k, bs') \<in> set (prefix_iter s ?p)" "unjson_relationship libs bs' = Inr rec'"
        "rel_resource (rr_relationship rec') = r" "rel_object_id (rr_relationship rec') = ob"
        using es by blast
      with es have "\<exists>rec''. unjson_relationship libs bs' = Inr rec'' \<and> rr_policy_id rec'' = pid" by blast
      with in' entry rec show "q = pid \<and> rel_resource rel' = r \<and> rel_object_id rel' = ob" by auto
    next
      assume *: "q = pid \<and> rel_resource rel' = r \<and> rel_object_id rel' = ob"
      with pre have "prefix ?p ?k" by blast
      then have "(?k, bs) \<in> set (prefix_iter s ?p)" using entry by blast
      with * rec es show "?k \<in> set ks" by blast
    qed
  qed
  ultimately show ?thesis using delete_keys_view [OF wf, of ks] s' by auto
qed

lemma qmdb_apply_write_refines:
  assumes "write_codec_ok libs w" and "kv_wf s" and "qmdb_apply_write libs w s = (Inr u, s')"
  shows "kv_wf s' \<and> qmdb_tuples libs (kv_view s') = abs_write w (qmdb_tuples libs (kv_view s))"
proof (cases w)
  case (WStore pid rel)
  from store_live [OF assms [unfolded WStore]] WStore show ?thesis
    by (auto simp: fun_eq_iff tuples_of_live relationship_eq_new)
next
  case (WDelete pid rel)
  from delete_live [OF assms(2,3) [unfolded WDelete]] WDelete show ?thesis
    by (auto simp: fun_eq_iff tuples_of_live relationship_eq_new)
next
  case (WDeleteObject pid r ob)
  from delete_object_live [OF assms(2,3) [unfolded WDeleteObject]] WDeleteObject show ?thesis
    by (auto simp: fun_eq_iff tuples_of_live)
qed

lemma qmdb_apply_write_error:
  "qmdb_apply_write libs w s = (Inl e, s') \<Longrightarrow> s' = s"
  by (cases w) (auto simp: qmdb_store_relationship_def qmdb_delete_relationship_def
      qmdb_delete_object_relationships_def kv_op_simps remove_all_kv Let_def
      split: option.splits sum.splits if_splits)

end
