(* ===== verification/Qmdb_Properties.thy ===== *)
theory Qmdb_Properties
  imports Qmdb_Store
begin

text \<open>
  The properties of permission evaluation over the ACP module's records, on the module store itself
  (\<open>kv_record_ops\<close>) and through the bounded capture (\<open>capture_record_ops\<close>), and a store on which they
  are exercised.
\<close>

section \<open>A store to evaluate\<close>

definition q_owner :: did where "q_owner = Did ''did:key:o''"

definition q_policy :: policy where
  "q_policy = with_resource (policy_new ''p'' ''demo'')
     (with_relation (with_relation (resource_new ''file'') (relation_direct ''owner''))
        (relation_computed ''read'' (ComputedUserset ''owner'')))"

definition q_rel :: relationship where
  "q_rel = relationship_new ''file'' ''1'' ''owner'' (Entity q_owner)"

definition q_record :: relationship_record where
  "q_record = \<lparr>rr_policy_id = ''p'', rr_relationship = q_rel, rr_archived = False, rr_metadata = default_metadata\<rparr>"

definition q_policy_record :: policy_record where
  "q_policy_record = \<lparr>pr_policy = q_policy, pr_raw_policy = [], pr_marshal_type = ShortYaml,
     pr_metadata = default_metadata\<rparr>"

text \<open>Concrete codecs that know the records of the example.\<close>

definition q_libs :: acp_libs where
  "q_libs = \<lparr>hex_encode = hex_lower, sha256 = (\<lambda>bs. bs), json_subject = subject_to_string,
     json_relationship = (\<lambda>_. ''R''),
     unjson_relationship = (\<lambda>bs. if bs = ''R'' then Inr q_record else Inl ''invalid''),
     json_policy_record = (\<lambda>_. ''P''),
     unjson_policy_record = (\<lambda>bs. if bs = ''P'' then Inr q_policy_record else Inl ''invalid''),
     json_policy = (\<lambda>_. Inr ''p''), json_proof = (\<lambda>_. None),
     borsh_params = (\<lambda>_. Inr []), unborsh_params = (\<lambda>_. Inl ''invalid''),
     borsh_commitment = (\<lambda>_. Inr []), unborsh_commitment = (\<lambda>_. Inl ''invalid''),
     borsh_event = (\<lambda>_. Inr []), unborsh_event = (\<lambda>_. Inl ''invalid''),
     borsh_decision = (\<lambda>_. Inr []), unborsh_decision = (\<lambda>_. Inl ''invalid''),
     borsh_leaf = (\<lambda>_. Inr []), borsh_decision_request = (\<lambda>_. Inr []),
     policy_codecs = \<lparr>yaml_document = (\<lambda>_. InUnit), yaml_value_eq = (=), yaml_from_value = (\<lambda>_. Inl ''invalid''),
       json_parsed_policy = (\<lambda>_. Inl ''invalid'')\<rparr>\<rparr>"

definition q_store :: kv_store where
  "q_store = kv_put (relationship_key ''p'' (relationship_storage_key q_libs q_rel)) ''R''
     (kv_put (policy_key ''p'') ''P'' kv_default)"

definition q_request :: access_request where
  "q_request = \<lparr>ar_operations = [\<lparr>opn_object = \<lparr>obj_resource = ''file'', obj_id = ''1''\<rparr>, opn_permission = ''read''\<rparr>],
     ar_actor = q_owner\<rparr>"

lemma q_wf: "kv_wf q_store"
  by (simp add: q_store_def)

lemma q_view:
  "kv_view q_store (policy_key ''p'') = Some ''P''"
  "kv_view q_store (relationship_key ''p'' (relationship_storage_key q_libs q_rel)) = Some ''R''"
  by (simp_all add: q_store_def policy_key_def relationship_key_def key_simps)

lemma q_codecs:
  "unjson_relationship q_libs ''R'' = Inr q_record" "unjson_policy_record q_libs ''P'' = Inr q_policy_record"
  by (simp_all add: q_libs_def)

lemma q_expressions:
  "get_expression (add_policy lookup_new q_policy) ''p'' ''file'' ''owner'' = Inr This"
  "get_expression (add_policy lookup_new q_policy) ''p'' ''file'' ''read'' = Inr (ComputedUserset ''owner'')"
  by (simp_all add: get_expression_def q_policy_def resource_map_of_def relation_map_of_def
        with_resource_def policy_new_def with_relation_def resource_new_def relation_direct_def
        relation_computed_def actor_list_def)

lemmas q_eval = evaluate_access_request_def q_request_def q_codecs q_policy_record_def q_view
  check_def evaluate_expr_cached_def cached_with_def cache_new_def cache_get_def
  cache_set_def enter_def charge_def on_backend_def this_eval_def computed_eval_def Let_def
  evaluate_expr_inner_numeral MAX_EVALUATION_DEPTH_def MAX_EVALUATION_STEPS_def st_bind_def qmdb_ops_def
  qmdb_check_permission_direct_def is_live_def q_expressions

lemma q_pol_id: "pol_id q_policy = ''p''"
  by (simp add: q_policy_def with_resource_def policy_new_def)

lemma q_direct: "with_entity ''file'' ''1'' ''owner'' q_owner = q_rel"
  by (simp add: with_entity_def q_rel_def)

lemma q_run: "fst (evaluate_access_request q_libs kv_record_ops ''p'' q_request q_store) = Inr True"
  by (simp add: q_eval kv_op_runs q_pol_id q_direct q_record_def cong: st_bind_lazy)

text \<open>C2. Over the module's records, whenever \<open>evaluate_access_request\<close> returns Ok, its answer is the
  specification's: \<open>true\<close> exactly when the policy's record is stored under its identifier and every
  operation of the request is permitted by that policy and the live relationship records. An archived
  record grants nothing, and no assumption is made on the hash inside the keys.\<close>

theorem access_request_correct:
  assumes "kv_wf s" and "fst (evaluate_access_request libs kv_record_ops pid request s) = Inr b"
  shows "b \<longleftrightarrow> request_granted libs (kv_view s) pid request"
  using tripleD [OF qkv.evaluate_ok [of "kv_view s" libs pid request], of s b] assms
  by (metis kv_holds_def prod.collapse)

theorem access_request_correct_witness: "request_granted q_libs (kv_view q_store) ''p'' q_request"
  using access_request_correct [OF q_wf q_run] by simp

text \<open>C3. The read budget changes no answer: an evaluation through a capture of the store, with any
  limits, that returns Ok returns the specification's answer. When the budget runs out it returns an
  error, also on the subtracted side of an exclusion.\<close>

theorem bounded_access_request_correct:
  assumes "kv_wf s"
    and "fst (evaluate_access_request libs capture_record_ops pid request (capture_new s limits)) = Inr b"
  shows "b \<longleftrightarrow> request_granted libs (kv_view s) pid request"
proof -
  have "cap_holds (kv_view s) (capture_new s limits)"
    using assms(1) by (simp add: cap_holds_def kv_holds_def capture_new_def)
  from tripleD [OF qcap.evaluate_ok [of "kv_view s" libs pid request] this, of b] assms(2)
  show ?thesis by (metis prod.collapse)
qed

lemma q_bounded_run:
  "fst (evaluate_access_request q_libs capture_record_ops ''p'' q_request
     (capture_new q_store \<lparr>lim_reads = 2, lim_records = 2, lim_bytes = 200\<rparr>)) = Inr True"
proof -
  have "length (policy_key ''p'') = 13"
    by (simp add: policy_key_def key_simps)
  moreover have "length (relationship_key ''p'' (relationship_storage_key q_libs q_rel)) = 99"
    by (simp add: relationship_key_def relationship_storage_key_def acp_relation_prefix_def
        acp_object_prefix_def key_simps q_libs_def hex_lower_def q_rel_def q_owner_def)
  ultimately show ?thesis
    by (simp add: q_eval capture_record_ops_def capture_read_record_def capture_read_def capture_new_def
        consume_reads_def consume_records_def consume_bytes_def q_pol_id q_direct q_record_def
        cong: st_bind_lazy)
qed

theorem bounded_access_request_correct_witness: "request_granted q_libs (kv_view q_store) ''p'' q_request"
  using bounded_access_request_correct [OF q_wf q_bounded_run] by simp

text \<open>C13. Every relationship write of the adapter on a module store either fails and leaves the store as it
  was, or has exactly the effect of the corresponding insertion or removal on the set of live tuples:
  nothing else is granted or revoked, whatever the hash inside the keys. The written record is assumed to
  decode to itself.\<close>

theorem qmdb_write_refines_tuple_set:
  assumes "kv_wf s" and "write_codec_ok libs w" and "qmdb_apply_write libs w s = (res, s')"
  shows "case res of
      Inl e \<Rightarrow> s' = s
    | Inr u \<Rightarrow> kv_wf s' \<and> qmdb_tuples libs (kv_view s') = abs_write w (qmdb_tuples libs (kv_view s))"
  using qmdb_apply_write_error [of libs w s] qmdb_apply_write_refines [OF assms(2,1)] assms(3)
  by (cases res) auto

theorem qmdb_write_refines_tuple_set_witness:
  "Entity q_owner \<in> qmdb_tuples q_libs (kv_view (snd (qmdb_apply_write q_libs (WStore ''p'' q_rel) kv_default)))
     ''p'' (''file'', ''1'', ''owner'')"
proof -
  have ok: "write_codec_ok q_libs (WStore ''p'' q_rel)"
    by (simp add: q_libs_def q_record_def)
  have "fst (qmdb_apply_write q_libs (WStore ''p'' q_rel) kv_default) = Inr ()"
    by (simp add: qmdb_store_relationship_def Let_def kv_op_simps)
  with qmdb_write_refines_tuple_set [OF kv_wf_simps(1) ok, OF surjective_pairing] show ?thesis
    by (simp add: q_rel_def)
qed

end
