(* ===== verification/Bearer_Token.thy ===== *)
theory Bearer_Token
  imports Machine_Int Identity
begin

text \<open>
  Bearer tokens: \<open>crates/vera-crypto/src/jwt.rs\<close>, the operation identities of \<open>operation.rs\<close> and the key
  identifiers of \<open>secp256k1.rs\<close>. Base64, the JSON decoders, multibase, SEC1 keys and ECDSA are library
  code, the fields of \<open>jwt_libs\<close>; SHA-256 is a separate argument because other components use it too.
\<close>

section \<open>Claims\<close>

datatype delegation_scope =
    PolicyCommandsScope
  | CreatePolicyScope
  | EditPolicyScope
  | RecordAccessDecisionScope
  | ManageRingsScope
  | StoreThresholdObjectScope

text \<open>The derived order of the enumeration.\<close>

fun scope_rank :: "delegation_scope \<Rightarrow> nat" where
  "scope_rank PolicyCommandsScope = 0"
| "scope_rank CreatePolicyScope = 1"
| "scope_rank EditPolicyScope = 2"
| "scope_rank RecordAccessDecisionScope = 3"
| "scope_rank ManageRingsScope = 4"
| "scope_rank StoreThresholdObjectScope = 5"

instantiation delegation_scope :: linorder
begin

definition less_eq_delegation_scope :: "delegation_scope \<Rightarrow> delegation_scope \<Rightarrow> bool" where
  "a \<le> b \<longleftrightarrow> scope_rank a \<le> scope_rank b"

definition less_delegation_scope :: "delegation_scope \<Rightarrow> delegation_scope \<Rightarrow> bool" where
  "a < b \<longleftrightarrow> scope_rank a < scope_rank b"

instance
proof
  fix a b :: delegation_scope
  have inj: "scope_rank a = scope_rank b \<Longrightarrow> a = b" by (cases a; cases b) simp_all
  show "a < b \<longleftrightarrow> a \<le> b \<and> \<not> b \<le> a"
    by (auto simp: less_eq_delegation_scope_def less_delegation_scope_def)
  show "a \<le> b \<Longrightarrow> b \<le> a \<Longrightarrow> a = b"
    by (rule inj) (simp add: less_eq_delegation_scope_def)
  show "a \<le> b \<or> b \<le> a" by (auto simp: less_eq_delegation_scope_def)
qed (auto simp: less_eq_delegation_scope_def)

end

record operation_claim =
  oc_id :: bytes
  oc_digest :: bytes
  oc_genesis_id :: bytes

record relay_assertion =
  ra_actor :: string
  ra_genesis_id :: bytes
  ra_grant_sequence :: u64
  ra_operation :: bytes

record jwt_claims =
  jc_iss :: string
  jc_sub :: string
  jc_exp :: u64
  jc_aud :: string
  jc_scope :: delegation_scope
  jc_iat :: u64
  jc_nbf :: u64
  jc_relay :: "relay_assertion option"
  jc_request :: "operation_claim option"

datatype jwt_error =
    InvalidClaims string
  | MalformedToken string
  | UnsupportedAlgorithm string
  | InvalidSignature
  | InvalidIssuer string
  | PayloadDecode string

fun jwt_error_to_string :: "jwt_error \<Rightarrow> string" where
  "jwt_error_to_string (InvalidClaims e) = ''invalid delegation claims: '' @ e"
| "jwt_error_to_string (MalformedToken e) = ''malformed token: '' @ e"
| "jwt_error_to_string (UnsupportedAlgorithm a) = ''unsupported algorithm: '' @ a"
| "jwt_error_to_string InvalidSignature = ''invalid signature''"
| "jwt_error_to_string (InvalidIssuer e) = ''invalid issuer: '' @ e"
| "jwt_error_to_string (PayloadDecode e) = ''payload decode: '' @ e"

text \<open>
  A verifying key is represented by its compressed SEC1 encoding, which \<open>sec1_key\<close> returns;
  \<open>signature_from_slice\<close> decodes a signature and tells whether \<open>normalize_s\<close> would change it.
\<close>

record jwt_libs =
  base64_decode :: "string \<Rightarrow> string + bytes"
  json_header :: "bytes \<Rightarrow> string + string \<times> string"
  json_claims :: "bytes \<Rightarrow> string + jwt_claims"
  multibase_decode :: "string \<Rightarrow> string + bytes"
  multibase_base58btc :: "bytes \<Rightarrow> string"
  sec1_key :: "bytes \<Rightarrow> string + bytes"
  signature_from_slice :: "bytes \<Rightarrow> string + bytes \<times> bool"
  verify_prehash :: "bytes \<Rightarrow> bytes \<Rightarrow> bytes \<Rightarrow> string + unit"

definition claims_actor :: "jwt_claims \<Rightarrow> string" where
  "claims_actor c = (case jc_relay c of None \<Rightarrow> jc_iss c | Some relay \<Rightarrow> ra_actor relay)"

definition audience :: "u64 \<Rightarrow> string" where
  "audience deployment_id = ''vera:'' @ show_nat (unat deployment_id)"

definition claims_authorize :: "jwt_claims \<Rightarrow> string \<Rightarrow> u64 \<Rightarrow> u64 \<Rightarrow> jwt_error + unit" where
  "claims_authorize c submitter deployment_id now =
     (if jc_sub c \<noteq> submitter \<or> jc_aud c \<noteq> audience deployment_id
      then Inl (InvalidClaims ''caller or deployment mismatch'')
      else if now < jc_nbf c \<or> now > jc_exp c then Inl (InvalidClaims ''token is outside its validity interval'')
      else Inr ())"


section \<open>Operation identities\<close>

definition MAX_OPERATION_TTL :: u64 where "MAX_OPERATION_TTL = 600"

text \<open>An identity has 32 bytes, of which the first eight are the deadline.\<close>

definition operation_expires_at :: "bytes \<Rightarrow> u64" where
  "operation_expires_at i = of_nat (nat_be (take 8 i))"

definition operation_validate :: "bytes \<Rightarrow> u64 \<Rightarrow> jwt_error + unit" where
  "operation_validate i now =
     (let expiry = operation_expires_at i in
      if now \<ge> expiry \<or> expiry - now > MAX_OPERATION_TTL \<or> drop 8 i = replicate 24 (CHR 0x00)
      then Inl (InvalidClaims ''invalid operation identity or deadline'')
      else Inr ())"


section \<open>Keys and issuers\<close>

text \<open>\<open>unsigned_varint::encode::u64(0xe7)\<close>.\<close>

definition SECP256K1_PUB_PREFIX :: bytes where
  "SECP256K1_PUB_PREFIX = [CHR 0xE7, CHR 0x01]"

definition compressed_pubkey_from_did :: "jwt_libs \<Rightarrow> string \<Rightarrow> jwt_error + bytes" where
  "compressed_pubkey_from_did jl did =
     res_bind (ok_or (InvalidIssuer ''not a did:key: string'') (strip_prefix ''did:key:'' did)) (\<lambda>multibase_part.
     res_bind (map_err (\<lambda>e. InvalidIssuer (''multibase decode: '' @ e)) (multibase_decode jl multibase_part)) (\<lambda>decoded.
     if \<not> starts_with decoded SECP256K1_PUB_PREFIX then Inl (InvalidIssuer ''not a secp256k1 did:key'')
     else let key_bytes = drop (length SECP256K1_PUB_PREFIX) decoded in
          if length key_bytes = 33 then Inr key_bytes
          else if length key_bytes = 65
          then map_err (\<lambda>e. InvalidIssuer (''invalid uncompressed key: '' @ e)) (sec1_key jl key_bytes)
          else Inl (InvalidIssuer (''expected 33 or 65 byte pubkey, got '' @ show_nat (length key_bytes)))))"

definition did_from_secp256k1_pubkey :: "jwt_libs \<Rightarrow> bytes \<Rightarrow> string + string" where
  "did_from_secp256k1_pubkey jl key =
     (if length key \<noteq> 33
      then Inl (''invalid compressed pubkey length: expected 33 bytes, got '' @ show_nat (length key))
      else Inr (''did:key:'' @ multibase_base58btc jl (SECP256K1_PUB_PREFIX @ key)))"

definition decode_pubkey :: "jwt_libs \<Rightarrow> bytes \<Rightarrow> string + bytes" where
  "decode_pubkey jl public_key =
     (if length public_key \<noteq> 33
      then Inl (''invalid compressed pubkey length: expected 33 bytes, got '' @ show_nat (length public_key))
      else map_err (\<lambda>e. ''pubkey recovery failed: '' @ e) (sec1_key jl public_key))"

definition verify_digest :: "jwt_libs \<Rightarrow> bytes \<Rightarrow> bytes \<Rightarrow> bytes \<Rightarrow> string + unit" where
  "verify_digest jl public_key digest sig_bytes =
     res_bind (decode_pubkey jl public_key) (\<lambda>key.
     res_bind (map_err (\<lambda>e. ''pubkey recovery failed: '' @ e) (signature_from_slice jl sig_bytes)) (\<lambda>(signature, high_s).
     if high_s then Inl ''pubkey recovery failed: noncanonical signature''
     else map_err (\<lambda>e. ''pubkey recovery failed: '' @ e) (verify_prehash jl key digest signature)))"

definition canonical_issuer :: "jwt_libs \<Rightarrow> string \<Rightarrow> jwt_error + string" where
  "canonical_issuer jl issuer =
     res_bind (compressed_pubkey_from_did jl issuer) (\<lambda>key.
     map_err InvalidIssuer (did_from_secp256k1_pubkey jl key))"

definition matches_issuer :: "jwt_libs \<Rightarrow> string \<Rightarrow> string \<Rightarrow> bool" where
  "matches_issuer jl issuer caller \<longleftrightarrow>
     issuer = caller \<or>
     (case (compressed_pubkey_from_did jl issuer, compressed_pubkey_from_did jl caller) of
        (Inr a, Inr b) \<Rightarrow> a = b
      | _ \<Rightarrow> False)"


section \<open>Verification\<close>

text \<open>\<open>str::split\<close> on one character: the pieces between its occurrences, at least one.\<close>

fun split_on :: "char \<Rightarrow> string \<Rightarrow> string list" where
  "split_on d [] = [[]]"
| "split_on d (c # cs) =
     (if c = d then [] # split_on d cs
      else case split_on d cs of piece # rest \<Rightarrow> (c # piece) # rest | [] \<Rightarrow> [[c]])"

definition DELEGATION_TYPE :: string where "DELEGATION_TYPE = ''vera-delegation-v1+jwt''"
definition RELAY_TYPE :: string where "RELAY_TYPE = ''vera-relay-v1+jwt''"

definition signing_input :: "string \<Rightarrow> string \<Rightarrow> string" where
  "signing_input header payload = header @ ''.'' @ payload"

definition verify_segments ::
  "(bytes \<Rightarrow> bytes) \<Rightarrow> jwt_libs \<Rightarrow> string \<Rightarrow> string \<Rightarrow> string \<Rightarrow> jwt_error + jwt_claims" where
  "verify_segments sha jl header_b64 payload_b64 sig_b64 =
     res_bind (map_err (\<lambda>e. MalformedToken (''header base64: '' @ e)) (base64_decode jl header_b64)) (\<lambda>header_bytes.
     res_bind (map_err (\<lambda>e. MalformedToken (''header JSON: '' @ e)) (json_header jl header_bytes)) (\<lambda>(alg, typ).
     if alg \<noteq> ''ES256K'' then Inl (UnsupportedAlgorithm alg)
     else if typ \<noteq> DELEGATION_TYPE \<and> typ \<noteq> RELAY_TYPE then Inl (InvalidClaims ''unsupported token type'')
     else
       res_bind (map_err (\<lambda>e. PayloadDecode (''payload base64: '' @ e)) (base64_decode jl payload_b64)) (\<lambda>payload_bytes.
       res_bind (map_err (\<lambda>e. PayloadDecode (''payload JSON: '' @ e)) (json_claims jl payload_bytes)) (\<lambda>raw.
       if (jc_relay raw \<noteq> None) \<noteq> (typ = RELAY_TYPE) then Inl (InvalidClaims ''token type and relay claims differ'')
       else
         res_bind (compressed_pubkey_from_did jl (jc_iss raw)) (\<lambda>compressed_pubkey.
         res_bind (map_err (\<lambda>e. InvalidIssuer (''invalid secp256k1 key: '' @ e)) (sec1_key jl compressed_pubkey)) (\<lambda>key.
         res_bind (map_err (\<lambda>e. MalformedToken (''signature base64: '' @ e)) (base64_decode jl sig_b64)) (\<lambda>sig_bytes.
         res_bind (map_err (\<lambda>_. InvalidSignature) (signature_from_slice jl sig_bytes)) (\<lambda>(signature, high_s).
         if high_s then Inl InvalidSignature
         else
           res_bind (map_err (\<lambda>_. InvalidSignature)
             (verify_prehash jl key (sha (signing_input header_b64 payload_b64)) signature)) (\<lambda>_.
           if jc_sub raw = [] \<or> jc_nbf raw > jc_iat raw \<or> jc_iat raw \<ge> jc_exp raw
           then Inl (InvalidClaims ''invalid subject or validity interval'')
           else Inr raw)))))))))"

definition verify_bearer_token :: "(bytes \<Rightarrow> bytes) \<Rightarrow> jwt_libs \<Rightarrow> string \<Rightarrow> jwt_error + jwt_claims" where
  "verify_bearer_token sha jl token =
     (if length token > 16 * 1024 then Inl (MalformedToken ''token exceeds 16 KiB'')
      else case split_on (CHR ''.'') token of
        [header_b64, payload_b64, sig_b64] \<Rightarrow> verify_segments sha jl header_b64 payload_b64 sig_b64
      | _ \<Rightarrow> Inl (MalformedToken ''expected three segments''))"


section \<open>Facts\<close>

lemma split_on_nonempty [simp]: "split_on d s \<noteq> []"
  by (induction s) (auto split: list.splits)

text \<open>The pieces contain no separator, and joining them with it gives the text back.\<close>

lemma split_on_pieces: "p \<in> set (split_on d s) \<Longrightarrow> d \<notin> set p"
proof (induction s arbitrary: p)
  case (Cons c cs)
  then show ?case by (cases "split_on d cs") (auto split: if_splits)
qed simp

fun join_on :: "char \<Rightarrow> string list \<Rightarrow> string" where
  "join_on d [] = []"
| "join_on d [p] = p"
| "join_on d (p # q # ps) = p @ d # join_on d (q # ps)"

lemma join_split_on: "join_on d (split_on d s) = s"
proof (induction s)
  case (Cons c cs)
  obtain p ps where sp: "split_on d cs = p # ps" by (cases "split_on d cs") auto
  have "join_on d ((c # p) # ps) = c # join_on d (p # ps)" by (cases ps) auto
  with Cons sp show ?case by (cases "c = d") auto
qed simp

lemma split_three:
  assumes "split_on d s = [h, p, g]"
  shows "s = h @ d # p @ d # g" and "d \<notin> set h" and "d \<notin> set p" and "d \<notin> set g"
  using join_split_on [of d s] split_on_pieces [of _ d s] assms by auto

text \<open>The key of a DID, when there is one, has 33 bytes; the library's compressed points do.\<close>

definition sec1_ok :: "jwt_libs \<Rightarrow> bool" where
  "sec1_ok jl \<longleftrightarrow> (\<forall>bs key. sec1_key jl bs = Inr key \<longrightarrow> length key = 33)"

definition multibase_ok :: "jwt_libs \<Rightarrow> bool" where
  "multibase_ok jl \<longleftrightarrow> (\<forall>bs. multibase_decode jl (multibase_base58btc jl bs) = Inr bs)"

lemma did_key_length:
  "sec1_ok jl \<Longrightarrow> compressed_pubkey_from_did jl d = Inr key \<Longrightarrow> length key = 33"
  by (auto simp: compressed_pubkey_from_did_def sec1_ok_def Let_def split: if_splits)

lemma canonical_key:
  assumes "multibase_ok jl" and "did_from_secp256k1_pubkey jl key = Inr d"
  shows "compressed_pubkey_from_did jl d = Inr key"
proof -
  have d: "d = ''did:key:'' @ multibase_base58btc jl (SECP256K1_PUB_PREFIX @ key)" "length key = 33"
    using assms(2) by (auto simp: did_from_secp256k1_pubkey_def split: if_splits)
  have "strip_prefix ''did:key:'' d = Some (multibase_base58btc jl (SECP256K1_PUB_PREFIX @ key))"
    unfolding d(1) by (rule strip_prefix_append)
  with assms(1) d(2) show ?thesis
    by (simp add: compressed_pubkey_from_did_def multibase_ok_def starts_with_def)
qed

lemma canonical_issuer_key:
  assumes "multibase_ok jl" and "canonical_issuer jl d = Inr c"
  shows "\<exists>key. compressed_pubkey_from_did jl d = Inr key \<and> compressed_pubkey_from_did jl c = Inr key"
  using assms canonical_key [OF assms(1)] by (auto simp: canonical_issuer_def)

lemma canonical_issuer_total:
  assumes "sec1_ok jl" and "compressed_pubkey_from_did jl d = Inr key"
  shows "canonical_issuer jl d = Inr (''did:key:'' @ multibase_base58btc jl (SECP256K1_PUB_PREFIX @ key))"
  using assms did_key_length [OF assms]
  by (simp add: canonical_issuer_def did_from_secp256k1_pubkey_def)


lemma verify_segments_parts:
  assumes "verify_segments sha jl h p g = Inr claims"
  obtains hb ty pb ck key sb signature where
    "base64_decode jl h = Inr hb" "json_header jl hb = Inr (''ES256K'', ty)"
    "ty = DELEGATION_TYPE \<or> ty = RELAY_TYPE"
    "base64_decode jl p = Inr pb" "json_claims jl pb = Inr claims"
    "(jc_relay claims \<noteq> None) = (ty = RELAY_TYPE)"
    "compressed_pubkey_from_did jl (jc_iss claims) = Inr ck" "sec1_key jl ck = Inr key"
    "base64_decode jl g = Inr sb" "signature_from_slice jl sb = Inr (signature, False)"
    "verify_prehash jl key (sha (signing_input h p)) signature = Inr ()"
    "jc_sub claims \<noteq> []" "jc_nbf claims \<le> jc_iat claims" "jc_iat claims < jc_exp claims"
proof -
  obtain hb alg ty where 1: "base64_decode jl h = Inr hb" "json_header jl hb = Inr (alg, ty)"
    using assms by (fastforce simp: verify_segments_def)
  have 2: "alg = ''ES256K''" "ty = DELEGATION_TYPE \<or> ty = RELAY_TYPE"
    using assms 1 by (auto simp: verify_segments_def split: if_splits)
  obtain pb raw where 3: "base64_decode jl p = Inr pb" "json_claims jl pb = Inr raw"
    using assms 1 2 by (fastforce simp: verify_segments_def split: if_splits)
  have 4: "(jc_relay raw \<noteq> None) = (ty = RELAY_TYPE)"
    using assms 1 2 3 by (simp add: verify_segments_def split: if_splits)
  obtain ck key sb signature hs where 5: "compressed_pubkey_from_did jl (jc_iss raw) = Inr ck"
    "sec1_key jl ck = Inr key" "base64_decode jl g = Inr sb" "signature_from_slice jl sb = Inr (signature, hs)"
    using assms 1 2 3 4 by (simp add: verify_segments_def) fastforce
  have 6: "\<not> hs" "verify_prehash jl key (sha (signing_input h p)) signature = Inr ()"
    "jc_sub raw \<noteq> []" "jc_nbf raw \<le> jc_iat raw" "jc_iat raw < jc_exp raw" "raw = claims"
    using assms 1 2 3 4 5 by (simp_all add: verify_segments_def not_less not_le split: if_splits)
  show thesis using 1 2 3 4 5 6 by (intro that [of hb ty pb ck key sb signature]) simp_all
qed


section \<open>Properties\<close>

text \<open>C32. A token is accepted only if it is signed: it consists of three segments, its claims are those
  of its second segment, and under the key of its issuer the third segment is a low-S signature of the
  first two. Its type says whether it is a relay assertion, its subject is not empty and its validity
  interval is not empty.\<close>

theorem accepted_token_is_signed:
  assumes "verify_bearer_token sha jl token = Inr claims"
  shows "\<exists>header payload sig typ payload_bytes key sig_bytes signature.
      token = header @ ''.'' @ payload @ ''.'' @ sig \<and>
      res_bind (base64_decode jl header) (json_header jl) = Inr (''ES256K'', typ) \<and>
      base64_decode jl payload = Inr payload_bytes \<and> json_claims jl payload_bytes = Inr claims \<and>
      res_bind (compressed_pubkey_from_did jl (jc_iss claims)) (\<lambda>k. map_err InvalidIssuer (sec1_key jl k)) = Inr key \<and>
      base64_decode jl sig = Inr sig_bytes \<and> signature_from_slice jl sig_bytes = Inr (signature, False) \<and>
      verify_prehash jl key (sha (header @ ''.'' @ payload)) signature = Inr () \<and>
      (typ = RELAY_TYPE \<and> jc_relay claims \<noteq> None \<or> typ = DELEGATION_TYPE \<and> jc_relay claims = None) \<and>
      jc_sub claims \<noteq> [] \<and> jc_nbf claims \<le> jc_iat claims \<and> jc_iat claims < jc_exp claims"
proof -
  obtain h p g where sp: "split_on (CHR ''.'') token = [h, p, g]"
    and v: "verify_segments sha jl h p g = Inr claims"
    using assms by (auto simp: verify_bearer_token_def split: if_splits list.splits)
  have token: "token = h @ ''.'' @ p @ ''.'' @ g" using split_three(1) [OF sp] by simp
  have types: "RELAY_TYPE \<noteq> DELEGATION_TYPE" by (simp add: RELAY_TYPE_def DELEGATION_TYPE_def)
  obtain hb ty pb ck key sb signature where facts:
    "base64_decode jl h = Inr hb" "json_header jl hb = Inr (''ES256K'', ty)"
    "ty = DELEGATION_TYPE \<or> ty = RELAY_TYPE"
    "base64_decode jl p = Inr pb" "json_claims jl pb = Inr claims"
    "(jc_relay claims \<noteq> None) = (ty = RELAY_TYPE)"
    "compressed_pubkey_from_did jl (jc_iss claims) = Inr ck" "sec1_key jl ck = Inr key"
    "base64_decode jl g = Inr sb" "signature_from_slice jl sb = Inr (signature, False)"
    "verify_prehash jl key (sha (signing_input h p)) signature = Inr ()"
    "jc_sub claims \<noteq> []" "jc_nbf claims \<le> jc_iat claims" "jc_iat claims < jc_exp claims"
    using verify_segments_parts [OF v] .
  have "ty = RELAY_TYPE \<and> jc_relay claims \<noteq> None \<or> ty = DELEGATION_TYPE \<and> jc_relay claims = None"
    using facts(3,6) types by (cases "ty = RELAY_TYPE") simp_all
  with token facts show ?thesis
    unfolding signing_input_def
    by - (rule exI [of _ h], rule exI [of _ p], rule exI [of _ g], rule exI [of _ ty], rule exI [of _ pb],
        rule exI [of _ key], rule exI [of _ sb], rule exI [of _ signature], simp)
qed

text \<open>C33. Two issuers match exactly when they are equal or spell the same key: they have the same
  canonical identifier, which is a fixed point of the canonical form.\<close>

theorem issuers_match_by_key:
  assumes "multibase_ok jl" and "sec1_ok jl"
  shows "(matches_issuer jl a b \<longleftrightarrow> a = b \<or> (\<exists>c. canonical_issuer jl a = Inr c \<and> canonical_issuer jl b = Inr c)) \<and>
    (\<forall>c. canonical_issuer jl a = Inr c \<longrightarrow> canonical_issuer jl c = Inr c \<and> matches_issuer jl a c)"
proof -
  have key: "canonical_issuer jl x = Inr c \<longleftrightarrow>
      (\<exists>key. compressed_pubkey_from_did jl x = Inr key \<and>
        c = ''did:key:'' @ multibase_base58btc jl (SECP256K1_PUB_PREFIX @ key))" for x c
    using canonical_issuer_total [OF assms(2), of x]
    by (cases "compressed_pubkey_from_did jl x") (auto simp: canonical_issuer_def)
  have inj: "multibase_base58btc jl x = multibase_base58btc jl y \<longleftrightarrow> x = y" for x y
    using assms(1) unfolding multibase_ok_def by (metis sum.inject(2))
  have "matches_issuer jl a b \<longleftrightarrow> a = b \<or> (\<exists>c. canonical_issuer jl a = Inr c \<and> canonical_issuer jl b = Inr c)"
    unfolding matches_issuer_def key by (auto simp: inj split: sum.splits)
  moreover have "canonical_issuer jl c = Inr c \<and> matches_issuer jl a c" if c: "canonical_issuer jl a = Inr c" for c
  proof -
    obtain k where "compressed_pubkey_from_did jl a = Inr k" "compressed_pubkey_from_did jl c = Inr k"
      using canonical_issuer_key [OF assms(1) c] by blast
    with c show ?thesis unfolding key by (auto simp: matches_issuer_def)
  qed
  ultimately show ?thesis by blast
qed


section \<open>Witnesses\<close>

text \<open>
  Libraries under which every base64 text decodes to itself, the claims are fixed, multibase is the
  identity and a signature is the signed digest.
\<close>

definition j_issuer :: string where
  "j_issuer = ''did:key:'' @ SECP256K1_PUB_PREFIX @ replicate 33 (CHR 0x02)"

definition j_claims :: jwt_claims where
  "j_claims = \<lparr>jc_iss = j_issuer, jc_sub = ''did:key:w'', jc_exp = 200, jc_aud = ''vera:7'',
     jc_scope = PolicyCommandsScope, jc_iat = 100, jc_nbf = 100, jc_relay = None, jc_request = None\<rparr>"

definition j_libs :: jwt_libs where
  "j_libs = \<lparr>base64_decode = Inr, json_header = (\<lambda>_. Inr (''ES256K'', DELEGATION_TYPE)),
     json_claims = (\<lambda>_. Inr j_claims), multibase_decode = Inr, multibase_base58btc = (\<lambda>bs. bs),
     sec1_key = (\<lambda>bs. Inr (take 33 (bs @ replicate 33 (CHR 0x00)))),
     signature_from_slice = (\<lambda>bs. Inr (bs, False)),
     verify_prehash = (\<lambda>key digest signature. if digest = signature then Inr () else Inl ''signature error'')\<rparr>"

definition j_token :: string where
  "j_token = ''h.p.h-p''"

definition j_sha :: "bytes \<Rightarrow> bytes" where
  "j_sha = map (\<lambda>c. if c = CHR ''.'' then CHR ''-'' else c)"

lemma j_fields [simp]:
  "base64_decode j_libs = Inr" "json_header j_libs = (\<lambda>_. Inr (''ES256K'', DELEGATION_TYPE))"
  "json_claims j_libs = (\<lambda>_. Inr j_claims)" "multibase_decode j_libs = Inr"
  "multibase_base58btc j_libs = (\<lambda>bs. bs)" "signature_from_slice j_libs = (\<lambda>bs. Inr (bs, False))"
  "sec1_key j_libs bs = Inr (take 33 (bs @ replicate 33 (CHR 0x00)))"
  "verify_prehash j_libs key digest signature = (if digest = signature then Inr () else Inl ''signature error'')"
  "jc_iss j_claims = j_issuer" "jc_relay j_claims = None" "DELEGATION_TYPE \<noteq> RELAY_TYPE"
  by (simp_all add: j_libs_def j_claims_def DELEGATION_TYPE_def RELAY_TYPE_def)

lemma j_libs_ok: "multibase_ok j_libs" "sec1_ok j_libs"
  by (auto simp: multibase_ok_def sec1_ok_def)

lemma j_key: "compressed_pubkey_from_did j_libs j_issuer = Inr (replicate 33 (CHR 0x02))"
  unfolding j_issuer_def compressed_pubkey_from_did_def
  by (simp only: strip_prefix_append ok_or_simps res_bind_simps j_fields) (simp add: starts_with_def)

lemma j_verifies: "verify_bearer_token j_sha j_libs j_token = Inr j_claims"
proof -
  have "verify_segments j_sha j_libs ''h'' ''p'' ''h-p'' = Inr j_claims"
    unfolding verify_segments_def using j_key
    by (simp add: signing_input_def j_sha_def) (simp add: j_claims_def)
  then show ?thesis by (simp add: verify_bearer_token_def j_token_def)
qed

theorem accepted_token_is_signed_witness:
  "verify_bearer_token j_sha j_libs j_token = Inr j_claims \<and>
   (\<exists>header payload sig. j_token = header @ ''.'' @ payload @ ''.'' @ sig \<and>
      verify_prehash j_libs (replicate 33 (CHR 0x02)) (j_sha (header @ ''.'' @ payload)) sig = Inr ())"
proof -
  obtain h p g ty pb key sb sg where tok: "j_token = h @ ''.'' @ p @ ''.'' @ g"
    and "res_bind (compressed_pubkey_from_did j_libs (jc_iss j_claims)) (\<lambda>k. map_err InvalidIssuer (sec1_key j_libs k)) = Inr key"
    and sb: "base64_decode j_libs g = Inr sb" and sg: "signature_from_slice j_libs sb = Inr (sg, False)"
    and ver: "verify_prehash j_libs key (j_sha (h @ ''.'' @ p)) sg = Inr ()"
    using accepted_token_is_signed [OF j_verifies] by blast
  from sb sg have "sg = g" by simp
  with tok ver have "j_token = h @ ''.'' @ p @ ''.'' @ g \<and>
      verify_prehash j_libs (replicate 33 (CHR 0x02)) (j_sha (h @ ''.'' @ p)) g = Inr ()" by (simp split: if_splits)
  with j_verifies show ?thesis by blast
qed

theorem issuers_match_by_key_witness:
  "matches_issuer j_libs j_issuer j_issuer \<and> canonical_issuer j_libs j_issuer = Inr j_issuer \<and>
   \<not> matches_issuer j_libs j_issuer ''did:key:w''"
proof -
  have no: "compressed_pubkey_from_did j_libs ''did:key:w'' = Inl (InvalidIssuer ''not a secp256k1 did:key'')"
    unfolding compressed_pubkey_from_did_def
    by (simp add: strip_prefix_def starts_with_def SECP256K1_PUB_PREFIX_def)
  then have "canonical_issuer j_libs ''did:key:w'' \<noteq> Inr c" for c by (simp add: canonical_issuer_def)
  moreover have "j_issuer \<noteq> ''did:key:w''" by (simp add: j_issuer_def SECP256K1_PUB_PREFIX_def)
  moreover have "canonical_issuer j_libs j_issuer = Inr j_issuer"
    using j_key by (simp add: canonical_issuer_def did_from_secp256k1_pubkey_def j_issuer_def)
  ultimately show ?thesis using issuers_match_by_key [OF j_libs_ok, of j_issuer] by blast
qed

end
