(* ===== verification/Utf8.thy ===== *)
theory Utf8
  imports Prelude
begin

text \<open>
  \<open>std::str::from_utf8\<close> of the Rust standard library: the bytes themselves when they are well-formed
  UTF-8, and otherwise the message of its error, which names the position of the first ill-formed
  sequence.
\<close>

definition utf8_width :: "nat \<Rightarrow> nat" where
  "utf8_width b =
     (if b < 0x80 then 1
      else if 0xC2 \<le> b \<and> b \<le> 0xDF then 2
      else if 0xE0 \<le> b \<and> b \<le> 0xEF then 3
      else if 0xF0 \<le> b \<and> b \<le> 0xF4 then 4
      else 0)"

text \<open>The range of the second byte depends on the first: no overlong forms, surrogates or values
  above U+10FFFF.\<close>

definition utf8_second :: "nat \<Rightarrow> nat \<Rightarrow> bool" where
  "utf8_second b c \<longleftrightarrow>
     (if b = 0xE0 then 0xA0 \<le> c \<and> c \<le> 0xBF
      else if b = 0xED then 0x80 \<le> c \<and> c \<le> 0x9F
      else if b = 0xF0 then 0x90 \<le> c \<and> c \<le> 0xBF
      else if b = 0xF4 then 0x80 \<le> c \<and> c \<le> 0x8F
      else 0x80 \<le> c \<and> c \<le> 0xBF)"

text \<open>The remaining continuation bytes of a sequence of which \<open>k\<close> bytes have been read: the error
  carries the length of the ill-formed part, or nothing when the input ends inside a sequence.\<close>

fun utf8_tail :: "nat \<Rightarrow> nat \<Rightarrow> bytes \<Rightarrow> nat option + bytes" where
  "utf8_tail k 0 cs = Inr cs"
| "utf8_tail k (Suc n) [] = Inl None"
| "utf8_tail k (Suc n) (c # cs) =
     (if 0x80 \<le> (of_char c :: nat) \<and> of_char c \<le> (0xBF :: nat) then utf8_tail (Suc k) n cs else Inl (Some k))"

definition utf8_step :: "char \<Rightarrow> bytes \<Rightarrow> nat option + bytes" where
  "utf8_step c cs =
     (let b = of_char c; w = utf8_width b in
      if w = 0 then Inl (Some 1)
      else if w = 1 then Inr cs
      else case cs of
        [] \<Rightarrow> Inl None
      | d # ds \<Rightarrow> if utf8_second b (of_char d) then utf8_tail 2 (w - 2) ds else Inl (Some 1))"

lemma utf8_tail_shorter: "utf8_tail k n cs = Inr rest \<Longrightarrow> length rest \<le> length cs"
  by (induction k n cs rule: utf8_tail.induct) (auto split: if_splits)

lemma utf8_step_shorter: "utf8_step c cs = Inr rest \<Longrightarrow> length rest < Suc (length cs)"
  by (auto simp: utf8_step_def Let_def split: if_splits list.splits dest: utf8_tail_shorter)

function utf8_scan :: "nat \<Rightarrow> bytes \<Rightarrow> (nat \<times> nat option) option" where
  "utf8_scan i [] = None"
| "utf8_scan i (c # cs) =
     (case utf8_step c cs of
        Inl e \<Rightarrow> Some (i, e)
      | Inr rest \<Rightarrow> utf8_scan (i + (length (c # cs) - length rest)) rest)"
  by pat_completeness auto
termination
  by (relation "measure (\<lambda>(i, cs). length cs)") (auto dest: utf8_step_shorter)

definition from_utf8 :: "bytes \<Rightarrow> string + string" where
  "from_utf8 bs =
     (case utf8_scan 0 bs of
        None \<Rightarrow> Inr bs
      | Some (i, Some n) \<Rightarrow> Inl (''invalid utf-8 sequence of '' @ show_nat n @ '' bytes from index '' @ show_nat i)
      | Some (i, None) \<Rightarrow> Inl (''incomplete utf-8 byte sequence from index '' @ show_nat i))"

lemma from_utf8_value: "from_utf8 bs = Inr s \<Longrightarrow> s = bs"
  by (auto simp: from_utf8_def split: option.splits)

lemma utf8_scan_ascii: "\<forall>c \<in> set bs. (of_char c :: nat) < 0x80 \<Longrightarrow> utf8_scan i bs = None"
  by (induction bs arbitrary: i) (auto simp: utf8_step_def utf8_width_def)

lemma from_utf8_ascii [simp]: "\<forall>c \<in> set bs. (of_char c :: nat) < 0x80 \<Longrightarrow> from_utf8 bs = Inr bs"
  by (simp add: from_utf8_def utf8_scan_ascii)

end
