(* ===== verification/Vera_Types.thy ===== *)
theory Vera_Types
  imports Bearer_Token Utf8 Acp_Types
begin

text \<open>
  The records of the Vera module (\<open>vera-modules/src/vera/types.rs\<close>, \<open>relay.rs\<close>, \<open>administration.rs\<close>),
  its errors (\<open>error.rs\<close>), its storage keys (\<open>keys.rs\<close>, \<open>key_encoding.rs\<close>) and the outcome records of
  the operation ledger (\<open>acp/operation.rs\<close>). Codecs of these records and \<open>hex::decode\<close> are library
  code; with those of the ACP module and of bearer tokens they form \<open>vera_libs\<close>.
\<close>

section \<open>Records\<close>

datatype jws_token_status = TokenUnspecified | TokenValid | TokenInvalid

record jws_token_record =
  jt_token_hash :: string
  jt_bearer_token :: string
  jt_issuer_did :: string
  jt_authorized_account :: string
  jt_issued_at :: timestamp
  jt_expires_at :: timestamp
  jt_status :: jws_token_status
  jt_first_used_at :: "timestamp option"
  jt_last_used_at :: "timestamp option"
  jt_invalidated_at :: "timestamp option"
  jt_invalidated_by :: string

record chain_config =
  cc_allow_zero_fee_txs :: bool
  cc_ignore_bearer_auth :: bool

record relay_grant =
  rg_issuer :: string
  rg_scopes :: "delegation_scope list"
  rg_expires_at :: u64

record relay_state =
  rst_grant :: relay_grant
  rst_sequence :: u64

text \<open>\<open>threshold\<close> is a \<open>u16\<close>, compared after widening.\<close>

record operator_policy =
  op_threshold :: nat
  op_keys :: "string list"

record administration_state =
  as_policy :: operator_policy
  as_sequence :: u64
  as_membership_policy :: "bytes option"

datatype administrative_command =
    RotateOperators operator_policy
  | InitializeMembershipPolicy bytes
  | SetAcpParameters acp_params
  | SetRelay relay_grant
  | RevokeRelay string
  | SetOperationBudget u64

record administrative_request =
  aq_genesis_id :: bytes
  aq_sequence :: u64
  aq_expires_at :: u64
  aq_command :: administrative_command

record operator_approval =
  oa_signer :: nat
  oa_signature :: string

record signed_administrative_request =
  sr_request :: administrative_request
  sr_approvals :: "operator_approval list"

text \<open>A JSON value is represented by its compact text.\<close>

type_synonym json_value = string

record operation_record =
  or_id :: bytes
  or_digest :: bytes
  or_actor :: string
  or_submission :: bytes
  or_worker :: string
  or_revision :: timestamp
  or_result :: json_value


section \<open>Errors\<close>

datatype vera_error =
    InvalidThresholdObject string
  | InvalidRingRequest string
  | InvalidNodeRequest string
  | InvalidAdministrativeRequest string
  | TokenNotFound string
  | TokenAlreadyInvalidated string
  | InvalidJws string
  | VeraUnauthorized string
  | ChainConfigAlreadySet
  | VeraState string

fun vera_error_to_string :: "vera_error \<Rightarrow> string" where
  "vera_error_to_string (InvalidThresholdObject reason) = ''invalid threshold object: '' @ reason"
| "vera_error_to_string (InvalidRingRequest reason) = ''invalid ring request: '' @ reason"
| "vera_error_to_string (InvalidNodeRequest reason) = ''invalid node request: '' @ reason"
| "vera_error_to_string (InvalidAdministrativeRequest reason) = ''invalid administrative request: '' @ reason"
| "vera_error_to_string (TokenNotFound h) = ''JWS token not found: '' @ h"
| "vera_error_to_string (TokenAlreadyInvalidated h) = ''JWS token already invalidated: '' @ h"
| "vera_error_to_string (InvalidJws reason) = ''invalid JWS: '' @ reason"
| "vera_error_to_string (VeraUnauthorized reason) = ''unauthorized: '' @ reason"
| "vera_error_to_string ChainConfigAlreadySet = ''chain config already set''"
| "vera_error_to_string (VeraState e) = ''state error: '' @ e"


section \<open>Library parameters\<close>

record vera_libs =
  acp_codecs :: acp_libs
  jwt_codecs :: jwt_libs
  hex_decode :: "string \<Rightarrow> string + bytes"
  json_operation :: "operation_record \<Rightarrow> string + bytes"
  unjson_operation :: "bytes \<Rightarrow> string + operation_record"
  borsh_token :: "jws_token_record \<Rightarrow> string + bytes"
  unborsh_token :: "bytes \<Rightarrow> string + jws_token_record"
  borsh_config :: "chain_config \<Rightarrow> string + bytes"
  unborsh_config :: "bytes \<Rightarrow> string + chain_config"
  unborsh_vera_params :: "bytes \<Rightarrow> string + unit"
  borsh_vera_params :: "string + bytes"
  borsh_relay :: "relay_state \<Rightarrow> string + bytes"
  unborsh_relay :: "bytes \<Rightarrow> string + relay_state"
  borsh_administration :: "administration_state \<Rightarrow> string + bytes"
  unborsh_administration :: "bytes \<Rightarrow> string + administration_state"
  borsh_admin_request :: "administrative_request \<Rightarrow> string + bytes"

definition vera_sha :: "vera_libs \<Rightarrow> bytes \<Rightarrow> bytes" where
  "vera_sha vl = sha256 (acp_codecs vl)"

definition vera_hex :: "vera_libs \<Rightarrow> bytes \<Rightarrow> string" where
  "vera_hex vl = hex_encode (acp_codecs vl)"


section \<open>Key encoding\<close>

text \<open>\<open>len_prefix\<close> panics above 255 bytes; its callers check the length first, and the model keeps the
  truncated length byte there.\<close>

definition len_prefix :: "bytes \<Rightarrow> bytes" where
  "len_prefix data = (if data = [] then [] else char_of (length data) # data)"

definition sanitize_key_part :: "string \<Rightarrow> string" where
  "sanitize_key_part part = map (\<lambda>c. if c = CHR ''/'' then CHR ''|'' else c) part"

definition unsanitize_key_part :: "string \<Rightarrow> string" where
  "unsanitize_key_part part = map (\<lambda>c. if c = CHR ''|'' then CHR ''/'' else c) part"

definition JWS_TOKEN_PREFIX :: bytes where "JWS_TOKEN_PREFIX = [CHR 0x01]"
definition JWS_TOKEN_BY_DID_PREFIX :: bytes where "JWS_TOKEN_BY_DID_PREFIX = [CHR 0x02]"
definition JWS_TOKEN_BY_ACCOUNT_PREFIX :: bytes where "JWS_TOKEN_BY_ACCOUNT_PREFIX = [CHR 0x03]"
definition JWS_TOKEN_EXPIRY_PREFIX :: bytes where "JWS_TOKEN_EXPIRY_PREFIX = [CHR 0x04]"
definition VERA_PARAMS_KEY :: bytes where "VERA_PARAMS_KEY = ''p_hub''"
definition CHAIN_CONFIG_KEY :: bytes where "CHAIN_CONFIG_KEY = ''chain_config''"

definition jws_token_key :: "string \<Rightarrow> bytes" where
  "jws_token_key token_hash = JWS_TOKEN_PREFIX @ token_hash"

definition jws_token_by_did_key :: "string \<Rightarrow> string \<Rightarrow> bytes" where
  "jws_token_by_did_key did token_hash = JWS_TOKEN_BY_DID_PREFIX @ len_prefix did @ len_prefix token_hash"

definition jws_token_by_account_key :: "string \<Rightarrow> string \<Rightarrow> bytes" where
  "jws_token_by_account_key account token_hash =
     JWS_TOKEN_BY_ACCOUNT_PREFIX @ len_prefix account @ len_prefix token_hash"

definition jws_token_did_prefix :: "string \<Rightarrow> bytes" where
  "jws_token_did_prefix did = JWS_TOKEN_BY_DID_PREFIX @ len_prefix did"

definition jws_token_account_prefix :: "string \<Rightarrow> bytes" where
  "jws_token_account_prefix account = JWS_TOKEN_BY_ACCOUNT_PREFIX @ len_prefix account"

definition hash_jws_token :: "vera_libs \<Rightarrow> string \<Rightarrow> string" where
  "hash_jws_token vl bearer_token = vera_hex vl (vera_sha vl bearer_token)"

lemmas vera_key_consts = JWS_TOKEN_PREFIX_def JWS_TOKEN_BY_DID_PREFIX_def JWS_TOKEN_BY_ACCOUNT_PREFIX_def
  JWS_TOKEN_EXPIRY_PREFIX_def VERA_PARAMS_KEY_def CHAIN_CONFIG_KEY_def

text \<open>A length-prefixed part of at most 255 bytes is determined by any key that starts with it.\<close>

lemma len_prefix_parse:
  assumes "len_prefix a @ x = len_prefix b @ y" and "a \<noteq> []" and "b \<noteq> []"
    and "length a \<le> 255" and "length b \<le> 255"
  shows "a = b \<and> x = y"
proof -
  have "char_of (length a) = (char_of (length b) :: char)" and rest: "a @ x = b @ y"
    using assms(1-3) by (simp_all add: len_prefix_def)
  then have "length a = length b"
    using assms(4,5) by (simp add: char_of_eq_iff take_bit_nat_eq_self)
  with rest show ?thesis by simp
qed

lemma sanitize_round_trip: "CHR ''|'' \<notin> set s \<Longrightarrow> unsanitize_key_part (sanitize_key_part s) = s"
  by (induction s) (auto simp: sanitize_key_part_def unsanitize_key_part_def)

end
