(* ===== verification/Demo_Libs.thy ===== *)
theory Demo_Libs
  imports Acp_Types
begin

text \<open>
  A concrete instance of the library parameters: self-delimiting encodings of the ACP module's records,
  with decoders that invert them, and a hash of fixed length. The theorems of the module are stated for
  every instance; their hypotheses are satisfied by this one, on which concrete runs are evaluated.
\<close>

section \<open>Self-delimiting encodings\<close>

type_synonym 'a dec = "bytes \<Rightarrow> ('a \<times> bytes) option"

definition inverts :: "'a dec \<Rightarrow> ('a \<Rightarrow> bytes) \<Rightarrow> bool" where
  "inverts d e \<longleftrightarrow> (\<forall>x rest. d (e x @ rest) = Some (x, rest))"

lemma invertsD: "inverts d e \<Longrightarrow> d (e x @ rest) = Some (x, rest)"
  by (simp add: inverts_def)

definition decode_all :: "'a dec \<Rightarrow> bytes \<Rightarrow> string + 'a" where
  "decode_all d bs = (case d bs of Some (x, []) \<Rightarrow> Inr x | _ \<Rightarrow> Inl ''invalid encoding'')"

lemma decode_all_inverts: "inverts d e \<Longrightarrow> decode_all d (e x) = Inr x"
  using invertsD [of d e x "[]"] by (simp add: decode_all_def)

fun enc_string :: "string \<Rightarrow> bytes" where
  "enc_string [] = [CHR 0x00]"
| "enc_string (c # cs) = CHR 0x01 # c # enc_string cs"

fun dec_string :: "string dec" where
  "dec_string (m # cs) =
     (if m = CHR 0x00 then Some ([], cs)
      else case cs of [] \<Rightarrow> None
           | c # rest \<Rightarrow> (case dec_string rest of None \<Rightarrow> None | Some (s, r) \<Rightarrow> Some (c # s, r)))"
| "dec_string [] = None"

definition dec_u64 :: "u64 dec" where
  "dec_u64 bs = (case from_be_bytes (take 8 bs) of None \<Rightarrow> None | Some x \<Rightarrow> Some (x, drop 8 bs))"

definition enc_bool :: "bool \<Rightarrow> bytes" where
  "enc_bool b = [if b then CHR 0x01 else CHR 0x00]"

definition dec_bool :: "bool dec" where
  "dec_bool bs = (case bs of [] \<Rightarrow> None | c # cs \<Rightarrow> Some (c = CHR 0x01, cs))"

definition enc_pair :: "('a \<Rightarrow> bytes) \<Rightarrow> ('b \<Rightarrow> bytes) \<Rightarrow> 'a \<times> 'b \<Rightarrow> bytes" where
  "enc_pair e e' p = e (fst p) @ e' (snd p)"

definition dec_pair :: "'a dec \<Rightarrow> 'b dec \<Rightarrow> ('a \<times> 'b) dec" where
  "dec_pair d d' bs =
     (case d bs of None \<Rightarrow> None | Some (x, r) \<Rightarrow> (case d' r of None \<Rightarrow> None | Some (y, r') \<Rightarrow> Some ((x, y), r')))"

definition dec_map :: "('a \<Rightarrow> 'b) \<Rightarrow> 'a dec \<Rightarrow> 'b dec" where
  "dec_map f d bs = map_option (\<lambda>(x, r). (f x, r)) (d bs)"

fun enc_list :: "('a \<Rightarrow> bytes) \<Rightarrow> 'a list \<Rightarrow> bytes" where
  "enc_list e [] = [CHR 0x00]"
| "enc_list e (x # xs) = CHR 0x01 # e x @ enc_list e xs"

text \<open>The length of the input bounds the number of elements.\<close>

fun dec_list :: "nat \<Rightarrow> 'a dec \<Rightarrow> 'a list dec" where
  "dec_list n d [] = None"
| "dec_list 0 d (m # bs) = (if m = CHR 0x00 then Some ([], bs) else None)"
| "dec_list (Suc n) d (m # bs) =
     (if m = CHR 0x00 then Some ([], bs)
      else case d bs of None \<Rightarrow> None
           | Some (x, r) \<Rightarrow> (case dec_list n d r of None \<Rightarrow> None | Some (xs, r') \<Rightarrow> Some (x # xs, r')))"

lemma inverts_string [simp]: "inverts dec_string enc_string"
  unfolding inverts_def
proof (intro allI)
  fix x rest show "dec_string (enc_string x @ rest) = Some (x, rest)" by (induction x) auto
qed

lemma inverts_u64 [simp]: "inverts dec_u64 to_be_bytes"
  by (simp add: inverts_def dec_u64_def)

lemma inverts_bool [simp]: "inverts dec_bool enc_bool"
  by (simp add: inverts_def dec_bool_def enc_bool_def)

lemma inverts_pair [simp]: "inverts d e \<Longrightarrow> inverts d' e' \<Longrightarrow> inverts (dec_pair d d') (enc_pair e e')"
  by (simp add: inverts_def dec_pair_def enc_pair_def)

lemma inverts_map: "inverts d e \<Longrightarrow> (\<And>x. f (g x) = x) \<Longrightarrow> inverts (dec_map f d) (e \<circ> g)"
  by (simp add: inverts_def dec_map_def)

lemma inverts_list: "inverts d e \<Longrightarrow> inverts (\<lambda>bs. dec_list (length bs) d bs) (enc_list e)"
  unfolding inverts_def
proof (intro allI)
  fix xs rest assume d: "\<forall>x rest. d (e x @ rest) = Some (x, rest)"
  have len: "length xs < length (enc_list e xs)" for xs by (induction xs) auto
  have "length xs \<le> n \<Longrightarrow> dec_list n d (enc_list e xs @ rest) = Some (xs, rest)" for n
    by (induction xs arbitrary: n) (case_tac n; auto simp: d)+
  then show "dec_list (length (enc_list e xs @ rest)) d (enc_list e xs @ rest) = Some (xs, rest)"
    using len [of xs] by simp
qed


section \<open>The records\<close>

type_synonym str4 = "string \<times> string \<times> string \<times> string"

fun subject_fields :: "subject \<Rightarrow> str4" where
  "subject_fields (Entity d) = (''e'', as_str d, [], [])"
| "subject_fields (EntitySet r ob l) = (''s'', r, ob, l)"
| "subject_fields (TypedWildcard r) = (''t'', r, [], [])"
| "subject_fields Wildcard = (''w'', [], [], [])"

definition subject_of :: "str4 \<Rightarrow> subject" where
  "subject_of f = (case f of (t, a, b, c) \<Rightarrow>
     if t = ''e'' then Entity (Did a) else if t = ''s'' then EntitySet a b c
     else if t = ''t'' then TypedWildcard a else Wildcard)"

definition enc_str4 :: "str4 \<Rightarrow> bytes" where
  "enc_str4 = enc_pair enc_string (enc_pair enc_string (enc_pair enc_string enc_string))"

definition dec_str4 :: "str4 dec" where
  "dec_str4 = dec_pair dec_string (dec_pair dec_string (dec_pair dec_string dec_string))"

definition enc_subject :: "subject \<Rightarrow> bytes" where
  "enc_subject = enc_str4 \<circ> subject_fields"

definition dec_subject :: "subject dec" where
  "dec_subject = dec_map subject_of dec_str4"

type_synonym md_fields = "(u64 \<times> u64) \<times> bytes \<times> string \<times> string"

definition metadata_fields :: "record_metadata \<Rightarrow> md_fields" where
  "metadata_fields md =
     ((ts_seconds (md_creation_ts md), ts_block_height (md_creation_ts md)), md_tx_hash md, md_tx_signer md,
      md_owner_did md)"

definition metadata_of :: "md_fields \<Rightarrow> record_metadata" where
  "metadata_of f = (case f of ((s, h), t, g, w) \<Rightarrow>
     \<lparr>md_creation_ts = \<lparr>ts_seconds = s, ts_block_height = h\<rparr>, md_tx_hash = t, md_tx_signer = g, md_owner_did = w\<rparr>)"

definition enc_metadata :: "record_metadata \<Rightarrow> bytes" where
  "enc_metadata = enc_pair (enc_pair to_be_bytes to_be_bytes) (enc_pair enc_string (enc_pair enc_string enc_string))
     \<circ> metadata_fields"

definition dec_metadata :: "record_metadata dec" where
  "dec_metadata = dec_map metadata_of
     (dec_pair (dec_pair dec_u64 dec_u64) (dec_pair dec_string (dec_pair dec_string dec_string)))"

type_synonym rel_fields = "(string \<times> string \<times> string \<times> string) \<times> subject \<times> bool \<times> record_metadata"

definition relationship_fields :: "relationship_record \<Rightarrow> rel_fields" where
  "relationship_fields rec =
     (let rel = rr_relationship rec in
      ((rr_policy_id rec, rel_resource rel, rel_object_id rel, rel_relation rel), rel_subject rel, rr_archived rec,
       rr_metadata rec))"

definition relationship_of :: "rel_fields \<Rightarrow> relationship_record" where
  "relationship_of f = (case f of ((p, r, ob, l), s, a, md) \<Rightarrow>
     \<lparr>rr_policy_id = p,
      rr_relationship = \<lparr>rel_resource = r, rel_object_id = ob, rel_relation = l, rel_subject = s\<rparr>,
      rr_archived = a, rr_metadata = md\<rparr>)"

definition enc_relationship :: "relationship_record \<Rightarrow> bytes" where
  "enc_relationship = enc_pair enc_str4 (enc_pair enc_subject (enc_pair enc_bool enc_metadata)) \<circ> relationship_fields"

definition dec_relationship :: "relationship_record dec" where
  "dec_relationship = dec_map relationship_of (dec_pair dec_str4 (dec_pair dec_subject (dec_pair dec_bool dec_metadata)))"

definition duration_fields :: "duration \<Rightarrow> bool \<times> u64" where
  "duration_fields d = (case d of Seconds x \<Rightarrow> (True, x) | Blocks x \<Rightarrow> (False, x))"

definition duration_of :: "bool \<times> u64 \<Rightarrow> duration" where
  "duration_of f = (if fst f then Seconds (snd f) else Blocks (snd f))"

type_synonym com_fields = "u64 \<times> string \<times> bytes \<times> bool \<times> (bool \<times> u64) \<times> record_metadata"

definition commitment_fields :: "registrations_commitment \<Rightarrow> com_fields" where
  "commitment_fields c =
     (rc_id c, rc_policy_id c, rc_commitment c, rc_expired c, duration_fields (rc_validity c), rc_metadata c)"

definition commitment_of :: "com_fields \<Rightarrow> registrations_commitment" where
  "commitment_of f = (case f of (i, p, c, x, v, md) \<Rightarrow>
     \<lparr>rc_id = i, rc_policy_id = p, rc_commitment = c, rc_expired = x, rc_validity = duration_of v, rc_metadata = md\<rparr>)"

definition enc_commitment :: "registrations_commitment \<Rightarrow> bytes" where
  "enc_commitment = enc_pair to_be_bytes (enc_pair enc_string (enc_pair enc_string (enc_pair enc_bool
     (enc_pair (enc_pair enc_bool to_be_bytes) enc_metadata)))) \<circ> commitment_fields"

definition dec_commitment :: "registrations_commitment dec" where
  "dec_commitment = dec_map commitment_of (dec_pair dec_u64 (dec_pair dec_string (dec_pair dec_string (dec_pair dec_bool
     (dec_pair (dec_pair dec_bool dec_u64) dec_metadata)))))"

type_synonym ev_fields = "(u64 \<times> string) \<times> (string \<times> string) \<times> (string \<times> string) \<times> u64 \<times> bool \<times> record_metadata"

definition event_fields :: "amendment_event \<Rightarrow> ev_fields" where
  "event_fields e =
     ((ae_id e, ae_policy_id e), (obj_resource (ae_object e), obj_id (ae_object e)),
      (as_str (ae_new_owner e), as_str (ae_previous_owner e)), ae_commitment_id e, ae_hijack_flag e, ae_metadata e)"

definition event_of :: "ev_fields \<Rightarrow> amendment_event" where
  "event_of f = (case f of ((i, p), (r, ob), (n, q), c, h, md) \<Rightarrow>
     \<lparr>ae_id = i, ae_policy_id = p, ae_object = \<lparr>obj_resource = r, obj_id = ob\<rparr>, ae_new_owner = Did n,
      ae_previous_owner = Did q, ae_commitment_id = c, ae_hijack_flag = h, ae_metadata = md\<rparr>)"

definition enc_event :: "amendment_event \<Rightarrow> bytes" where
  "enc_event = enc_pair (enc_pair to_be_bytes enc_string) (enc_pair (enc_pair enc_string enc_string)
     (enc_pair (enc_pair enc_string enc_string) (enc_pair to_be_bytes (enc_pair enc_bool enc_metadata)))) \<circ> event_fields"

definition dec_event :: "amendment_event dec" where
  "dec_event = dec_map event_of (dec_pair (dec_pair dec_u64 dec_string) (dec_pair (dec_pair dec_string dec_string)
     (dec_pair (dec_pair dec_string dec_string) (dec_pair dec_u64 (dec_pair dec_bool dec_metadata)))))"

lemma inverts_str4 [simp]: "inverts dec_str4 enc_str4"
  by (simp add: dec_str4_def enc_str4_def)

lemma inverts_subject [simp]: "inverts dec_subject enc_subject"
  unfolding dec_subject_def enc_subject_def
proof (rule inverts_map)
  show "subject_of (subject_fields x) = x" for x by (cases x) (simp_all add: subject_of_def)
qed simp

lemma inverts_metadata [simp]: "inverts dec_metadata enc_metadata"
  unfolding dec_metadata_def enc_metadata_def
  by (rule inverts_map) (simp_all add: metadata_of_def metadata_fields_def)

lemma inverts_relationship [simp]: "inverts dec_relationship enc_relationship"
  unfolding dec_relationship_def enc_relationship_def
  by (rule inverts_map) (simp_all add: relationship_of_def relationship_fields_def Let_def)

lemma inverts_commitment [simp]: "inverts dec_commitment enc_commitment"
  unfolding dec_commitment_def enc_commitment_def
proof (rule inverts_map)
  have "duration_of (duration_fields d) = d" for d by (cases d) (simp_all add: duration_of_def duration_fields_def)
  then show "commitment_of (commitment_fields x) = x" for x by (simp add: commitment_of_def commitment_fields_def)
qed simp

lemma inverts_event [simp]: "inverts dec_event enc_event"
  unfolding dec_event_def enc_event_def
  by (rule inverts_map) (simp_all add: event_of_def event_fields_def)


section \<open>The instance\<close>

text \<open>A hash of 32 bytes: the last 32 bytes of its input, reversed and padded.\<close>

definition pad32 :: "bytes \<Rightarrow> bytes" where
  "pad32 bs = take 32 (rev bs @ replicate 32 (CHR 0x00))"

lemma pad32_length [simp]: "length (pad32 bs) = 32"
  by (simp add: pad32_def)

definition demo_policy :: policy where
  "demo_policy = with_resource (policy_new [] ''demo'')
     (with_relation (with_relation (resource_new ''file'') (relation_direct ''owner''))
        (relation_computed ''read'' (ComputedUserset ''owner'')))"

definition demo_parsed :: parsed_policy where
  "demo_parsed = \<lparr>pp_name = ''demo'', pp_description = [], pp_spec = NoSpec, pp_meta = [],
     pp_actor = \<lparr>pact_relations = []\<rparr>, pp_resources = []\<rparr>"

text \<open>The DIDs a record can be read back with: \<open>Did\<close> is deserialised through \<open>Did::new\<close>, so the subject of a
  decoded record is a valid DID, and a record with any other actor is not decoded.\<close>

definition did_ok :: "did \<Rightarrow> bool" where
  "did_ok d \<longleftrightarrow> is_ok (did_new (as_str d))"

fun subject_ok :: "subject \<Rightarrow> bool" where
  "subject_ok (Entity d) = did_ok d"
| "subject_ok _ = True"

abbreviation record_dids :: "relationship_record \<Rightarrow> bool" where
  "record_dids rec \<equiv> subject_ok (rel_subject (rr_relationship rec))"

definition demo_libs :: acp_libs where
  "demo_libs = \<lparr>hex_encode = hex_lower, sha256 = pad32, json_subject = enc_subject,
     json_relationship = enc_relationship,
     unjson_relationship = (\<lambda>bs. res_bind (decode_all dec_relationship bs) (\<lambda>rec.
       if record_dids rec then Inr rec else Inl ''invalid DID'')),
     json_policy_record = (\<lambda>rec. enc_pair enc_string enc_metadata (pol_id (pr_policy rec), pr_metadata rec)),
     unjson_policy_record = (\<lambda>bs. res_bind (decode_all (dec_pair dec_string dec_metadata) bs) (\<lambda>(i, md).
       Inr \<lparr>pr_policy = demo_policy\<lparr>pol_id := i\<rparr>, pr_raw_policy = [], pr_marshal_type = ShortYaml, pr_metadata = md\<rparr>)),
     json_policy = (\<lambda>p. Inr (pol_id p)), json_proof = (\<lambda>_. None),
     borsh_params = (\<lambda>_. Inr []), unborsh_params = (\<lambda>_. Inr acp_params_default),
     borsh_commitment = (\<lambda>c. Inr (enc_commitment c)), unborsh_commitment = decode_all dec_commitment,
     borsh_event = (\<lambda>e. Inr (enc_event e)), unborsh_event = decode_all dec_event,
     borsh_decision = (\<lambda>_. Inr []), unborsh_decision = (\<lambda>_. Inl ''invalid''),
     borsh_leaf = (\<lambda>f. Inr (enc_str4 f)), borsh_decision_request = (\<lambda>_. Inr []),
     policy_codecs = \<lparr>yaml_document = (\<lambda>_. InUnit), yaml_value_eq = (=), yaml_from_value = (\<lambda>_. Inr demo_parsed),
       json_parsed_policy = (\<lambda>_. Inr demo_parsed)\<rparr>\<rparr>"

text \<open>What the module's theorems ask of the codecs of relationship records, commitments and events. A record is
  read back as it was written when its subject is valid, and only such records are read.\<close>

definition relationship_codec_ok :: "acp_libs \<Rightarrow> bool" where
  "relationship_codec_ok libs \<longleftrightarrow>
     (\<forall>rec. record_dids rec \<longrightarrow> unjson_relationship libs (json_relationship libs rec) = Inr rec) \<and>
     (\<forall>bs rec. unjson_relationship libs bs = Inr rec \<longrightarrow> record_dids rec)"

definition commitment_codec_ok :: "acp_libs \<Rightarrow> bool" where
  "commitment_codec_ok libs \<longleftrightarrow>
     (\<forall>c. \<exists>bs. borsh_commitment libs c = Inr bs \<and> unborsh_commitment libs bs = Inr c)"

definition event_codec_ok :: "acp_libs \<Rightarrow> bool" where
  "event_codec_ok libs \<longleftrightarrow> (\<forall>e. \<exists>bs. borsh_event libs e = Inr bs \<and> unborsh_event libs bs = Inr e)"

lemma demo_codecs:
  "relationship_codec_ok demo_libs" "commitment_codec_ok demo_libs" "event_codec_ok demo_libs"
  by (auto simp: relationship_codec_ok_def commitment_codec_ok_def event_codec_ok_def demo_libs_def
        decode_all_inverts result_simps split: if_splits)

lemma demo_leaf_inj: "borsh_leaf demo_libs f = borsh_leaf demo_libs f' \<Longrightarrow> f = f'"
proof -
  assume "borsh_leaf demo_libs f = borsh_leaf demo_libs f'"
  then have "enc_str4 f = enc_str4 f'" by (simp add: demo_libs_def)
  then show "f = f'" by (metis decode_all_inverts inverts_str4 sum.inject(2))
qed

lemma demo_sha: "\<forall>bs. length (sha256 demo_libs bs) = 32"
  by (simp add: demo_libs_def)

lemma demo_hex_ok: "hex_ok demo_libs"
  using hex_lower_inj hex_lower_no_slash by (simp add: hex_ok_def demo_libs_def)

end
