(* ===== verification/Acp_Merkle.thy ===== *)
theory Acp_Merkle
  imports Demo_Libs
begin

text \<open>
  The registration commitments of the ACP module: the Merkle helpers of \<open>acp/mod.rs\<close> and the generation
  of commitments in \<open>registration_queries.rs\<close>.

  A tree over \<open>n\<close> leaf hashes is built level by level, an odd last node being promoted. Building ends:
  each level halves the width. Every generated proof is accepted for its own leaf, and, as long as the
  hash has no collision among the inputs hashed on the two sides, a proof is accepted for the leaves of
  the tree only, whatever leaf count and index the proof claims.
\<close>

section \<open>Leaves and hashes\<close>

definition LEAF_DOMAIN :: bytes where
  "LEAF_DOMAIN = ''vera/registration-leaf/v1'' @ [CHR 0x00]"

definition registration_leaf :: "acp_libs \<Rightarrow> string \<Rightarrow> object \<Rightarrow> string \<Rightarrow> acp_error + bytes" where
  "registration_leaf libs policy ob actor =
     res_bind (map_err StateError (borsh_leaf libs (policy, obj_resource ob, obj_id ob, actor))) (\<lambda>bs.
     Inr (LEAF_DOMAIN @ bs))"

definition compute_leaf_hash :: "acp_libs \<Rightarrow> bytes \<Rightarrow> bytes" where
  "compute_leaf_hash libs data = sha256 libs (CHR 0x00 # data)"

definition compute_inner_hash :: "acp_libs \<Rightarrow> bytes \<Rightarrow> bytes \<Rightarrow> bytes" where
  "compute_inner_hash libs left right = sha256 libs (CHR 0x01 # left @ right)"


section \<open>Building the tree\<close>

fun next_level :: "acp_libs \<Rightarrow> bytes list \<Rightarrow> bytes list" where
  "next_level libs (a # b # prev) = compute_inner_hash libs a b # next_level libs prev"
| "next_level libs prev = prev"

lemma next_level_length [simp]: "length (next_level libs hs) = (length hs + 1) div 2"
  by (induction libs hs rule: next_level.induct) auto

function build_merkle_levels :: "acp_libs \<Rightarrow> bytes list \<Rightarrow> bytes list list" where
  "build_merkle_levels libs prev =
     (if length prev > 1 then prev # build_merkle_levels libs (next_level libs prev) else [prev])"
  by pat_completeness auto
termination by (relation "measure (\<lambda>(libs, prev). length prev)") auto

declare build_merkle_levels.simps [simp del]

fun proof_loop :: "nat \<Rightarrow> bytes list list \<Rightarrow> bytes list" where
  "proof_loop idx [] = []"
| "proof_loop idx (level # levels) =
     (let sibling_idx = (if even idx then idx + 1 else idx - 1) in
      (if sibling_idx < length level then [level ! sibling_idx] else []) @ proof_loop (idx div 2) levels)"

definition generate_merkle_proof :: "nat \<Rightarrow> bytes list list \<Rightarrow> bytes list" where
  "generate_merkle_proof leaf_index levels = proof_loop leaf_index (take (length levels - 1) levels)"


section \<open>Verifying a proof\<close>

definition div_ceil_2 :: "u64 \<Rightarrow> u64" where
  "div_ceil_2 w = (if w mod 2 > 0 then w div 2 + 1 else w div 2)"

lemma div_ceil_2_unat: "unat (div_ceil_2 w) = (unat w + 1) div 2"
proof -
  have "unat w div 2 + 1 < 2 ^ 64" using u64_bound [of w] by simp
  moreover have "w mod 2 > 0 \<longleftrightarrow> odd (unat w)"
    by (simp add: word_less_nat_alt unat_mod odd_iff_mod_2_eq_one)
  ultimately show ?thesis
    by (auto simp: div_ceil_2_def unat_word_ariths unat_div unat_mod elim: oddE)
qed

function verify_loop ::
  "acp_libs \<Rightarrow> bytes \<Rightarrow> u64 \<Rightarrow> u64 \<Rightarrow> bytes list \<Rightarrow> (bytes \<times> bytes list) option" where
  "verify_loop libs current index width siblings =
     (if width > 1
      then if \<not> 2 dvd unat index
           then (case siblings of
                   [] \<Rightarrow> None
                 | sibling # rest \<Rightarrow>
                     verify_loop libs (compute_inner_hash libs sibling current) (index div 2) (div_ceil_2 width) rest)
           else if index + 1 < width
           then (case siblings of
                   [] \<Rightarrow> None
                 | sibling # rest \<Rightarrow>
                     verify_loop libs (compute_inner_hash libs current sibling) (index div 2) (div_ceil_2 width) rest)
           else verify_loop libs current (index div 2) (div_ceil_2 width) siblings
      else Some (current, siblings))"
  by pat_completeness auto
termination
  by (relation "measure (\<lambda>(libs, current, index, width, siblings). unat width)")
    (auto simp: div_ceil_2_unat word_less_nat_alt)

declare verify_loop.simps [simp del]

definition verify_merkle_proof :: "acp_libs \<Rightarrow> bytes \<Rightarrow> registration_proof \<Rightarrow> bytes \<Rightarrow> bool" where
  "verify_merkle_proof libs root proof leaf_data =
     (if length root \<noteq> 32 \<or> rp_leaf_count proof = 0 \<or> rp_leaf_index proof \<ge> rp_leaf_count proof
        \<or> length (rp_merkle_proof proof) > 64 \<or> list_ex (\<lambda>sibling. length sibling \<noteq> 32) (rp_merkle_proof proof)
      then False
      else (case verify_loop libs (compute_leaf_hash libs leaf_data) (rp_leaf_index proof) (rp_leaf_count proof)
                   (rp_merkle_proof proof) of
              None \<Rightarrow> False
            | Some (current, siblings) \<Rightarrow> siblings = [] \<and> current = root))"


section \<open>Generating commitments\<close>

definition MAX_REGISTRATION_OBJECTS :: nat where "MAX_REGISTRATION_OBJECTS = 256"
definition MAX_REGISTRATION_LEAF_BYTES :: nat where "MAX_REGISTRATION_LEAF_BYTES = 64 * 1024"

fun leaf_bytes_loop :: "nat \<Rightarrow> nat \<Rightarrow> object list \<Rightarrow> acp_error + unit" where
  "leaf_bytes_loop base byts [] = Inr ()"
| "leaf_bytes_loop base byts (ob # objects) =
     (if obj_id ob = [] then Inl (InvalidAccessRequest ''object ID must not be empty'')
      else let byts' = byts + base + length (obj_resource ob) + length (obj_id ob) in
           if byts' > MAX_REGISTRATION_LEAF_BYTES
           then Inl (InvalidAccessRequest ''registration leaf byte budget exceeded'')
           else leaf_bytes_loop base byts' objects)"

definition validate_commitment_input :: "string \<Rightarrow> object list \<Rightarrow> string \<Rightarrow> acp_error + unit" where
  "validate_commitment_input policy objects actor =
     (if objects = [] \<or> length objects > MAX_REGISTRATION_OBJECTS
      then Inl (InvalidAccessRequest ''registration object count must be between 1 and 256'')
      else leaf_bytes_loop (length policy + length actor + (length LEAF_DOMAIN + 16)) 0 objects)"

definition registration_proofs :: "object list \<Rightarrow> bytes list list \<Rightarrow> registration_proof list" where
  "registration_proofs objects levels =
     map (\<lambda>(i, ob). \<lparr>rp_object = ob, rp_merkle_proof = generate_merkle_proof i levels,
                     rp_leaf_count = of_nat (length objects), rp_leaf_index = of_nat i\<rparr>)
       (zip [0..<length objects] objects)"

definition generate_registration_commitment ::
  "acp_libs \<Rightarrow> string \<Rightarrow> object list \<Rightarrow> did \<Rightarrow> acp_error + generate_commitment_result" where
  "generate_registration_commitment libs policy_id objects actor =
     res_bind (validate_commitment_input policy_id objects (as_str actor)) (\<lambda>_.
     res_bind (map_res (\<lambda>ob.
       res_bind (registration_leaf libs policy_id ob (as_str actor)) (\<lambda>data.
       Inr (compute_leaf_hash libs data))) objects) (\<lambda>leaf_hashes.
     let levels = build_merkle_levels libs leaf_hashes;
         root = last levels ! 0;
         proofs = registration_proofs objects levels
     in Inr \<lparr>gc_commitment = root, gc_commitment_hex = hex_encode libs root, gc_proofs = proofs,
             gc_proofs_json = map (\<lambda>p. case json_proof libs p of None \<Rightarrow> [] | Some s \<Rightarrow> s) proofs\<rparr>))"


section \<open>Facts about levels\<close>

lemma build_levels_nonempty [simp]: "build_merkle_levels libs hs \<noteq> []"
  by (subst build_merkle_levels.simps) simp

lemma build_levels_hd [simp]: "hd (build_merkle_levels libs hs) = hs"
  by (subst build_merkle_levels.simps) simp

lemma next_level_nth:
  "i < length hs \<Longrightarrow> next_level libs hs ! (i div 2) =
     (if odd i then compute_inner_hash libs (hs ! (i - 1)) (hs ! i)
      else if i + 1 < length hs then compute_inner_hash libs (hs ! i) (hs ! (i + 1)) else hs ! i)"
proof (induction libs hs arbitrary: i rule: next_level.induct)
  case (1 libs a b prev)
  show ?case
  proof (cases "i < 2")
    case True
    then have "i = 0 \<or> i = 1" by auto
    then show ?thesis by auto
  next
    case False
    then obtain j where j: "i = j + 2" by (metis add.commute le_Suc_ex not_less)
    with 1 have "j < length prev" by simp
    from 1(1) [OF this] j show ?thesis by (cases j) auto
  qed
qed auto

lemma next_level_sub:
  "h \<in> set (next_level libs hs) \<Longrightarrow>
     h \<in> set hs \<or> (\<exists>l \<in> set hs. \<exists>r \<in> set hs. h = compute_inner_hash libs l r)"
  by (induction libs hs rule: next_level.induct) auto

lemma last_level:
  "hs \<noteq> [] \<Longrightarrow> length (last (build_merkle_levels libs hs)) = 1"
proof (induction libs hs rule: build_merkle_levels.induct)
  case (1 libs hs)
  show ?case
  proof (cases "length hs > 1")
    case True
    then have "next_level libs hs \<noteq> []" by (simp flip: length_greater_0_conv)
    with 1 True show ?thesis by (subst build_merkle_levels.simps) simp
  next
    case False
    with 1 show ?thesis by (subst build_merkle_levels.simps) (cases hs, auto)
  qed
qed

text \<open>The height of a tree: \<open>n\<close> leaves with \<open>n \<le> 2 ^ k\<close> have at most \<open>k\<close> levels above them.\<close>

lemma levels_bound:
  "length hs \<le> 2 ^ k \<Longrightarrow> length (build_merkle_levels libs hs) \<le> Suc k"
proof (induction libs hs arbitrary: k rule: build_merkle_levels.induct)
  case (1 libs hs)
  show ?case
  proof (cases "length hs > 1")
    case True
    with 1(2) obtain j where j: "k = Suc j" by (cases k) auto
    with 1(2) have "length (next_level libs hs) \<le> 2 ^ j" by simp
    from 1(1) [OF True this] True j show ?thesis by (subst build_merkle_levels.simps) simp
  qed (subst build_merkle_levels.simps, simp)
qed

lemma proof_loop_length: "length (proof_loop i levels) \<le> length levels"
  by (induction i levels rule: proof_loop.induct) (auto simp: Let_def)

lemma generated_step:
  assumes "length hs > 1"
  shows "generate_merkle_proof i (build_merkle_levels libs hs) =
     (let s = (if even i then i + 1 else i - 1) in
       (if s < length hs then [hs ! s] else [])
         @ generate_merkle_proof (i div 2) (build_merkle_levels libs (next_level libs hs)))"
proof -
  let ?up = "build_merkle_levels libs (next_level libs hs)"
  have "build_merkle_levels libs hs = hs # ?up" using assms by (subst build_merkle_levels.simps) simp
  moreover have "take (length ?up) (hs # ?up) = hs # take (length ?up - 1) ?up"
    by (cases "length ?up") auto
  ultimately show ?thesis by (simp add: generate_merkle_proof_def Let_def)
qed

text \<open>Walking a generated proof upwards from a node of the lowest level ends in the root.\<close>

lemma verify_generated:
  assumes "unat i < length hs" and "unat w = length hs"
  shows "verify_loop libs (hs ! unat i) i w (generate_merkle_proof (unat i) (build_merkle_levels libs hs)) =
     Some (last (build_merkle_levels libs hs) ! 0, [])"
  using assms
proof (induction libs hs arbitrary: i w rule: build_merkle_levels.induct)
  case (1 libs hs)
  show ?case
  proof (cases "length hs > 1")
    case True
    let ?up = "next_level libs hs" and ?n = "length hs"
    have w: "1 < w" using True 1(3) by (simp add: word_less_nat_alt)
    have half: "unat (i div 2) = unat i div 2" "unat (div_ceil_2 w) = length ?up"
      using 1(3) by (simp_all add: unat_div div_ceil_2_unat)
    have lt: "unat (i div 2) < length ?up" using 1(2) half by simp
    have next1: "i + 1 < w \<longleftrightarrow> unat i + 1 < ?n"
      using 1(2,3) u64_bound [of w] by (simp add: word_less_nat_alt unat_word_ariths)
    note IH = 1(1) [OF True lt half(2)]
    note nth = next_level_nth [OF 1(2), of libs]
    have last: "last (build_merkle_levels libs hs) = last (build_merkle_levels libs ?up)"
      using True by (subst build_merkle_levels.simps) simp
    show ?thesis
      unfolding generated_step [OF True] last
      using IH nth w half(1) next1 1(2)
      by (subst verify_loop.simps) (auto simp: Let_def split: if_splits)
  next
    case False
    with 1 have one: "unat i = 0" "length hs = 1" by auto
    have "\<not> 1 < w" using 1(3) one by (simp add: word_less_nat_alt)
    moreover have "build_merkle_levels libs hs = [hs]" using False by (subst build_merkle_levels.simps) simp
    ultimately show ?thesis using one
      by (subst verify_loop.simps) (simp add: generate_merkle_proof_def)
  qed
qed


section \<open>Binding\<close>

text \<open>The inputs hashed while a tree is built, and while a proof is verified.\<close>

fun level_inputs :: "bytes list \<Rightarrow> bytes list" where
  "level_inputs (a # b # prev) = (CHR 0x01 # a @ b) # level_inputs prev"
| "level_inputs prev = []"

definition tree_inputs :: "acp_libs \<Rightarrow> bytes list \<Rightarrow> bytes set" where
  "tree_inputs libs ds =
     (#) (CHR 0x00) ` set ds
       \<union> (\<Union>level \<in> set (build_merkle_levels libs (map (compute_leaf_hash libs) ds)). set (level_inputs level))"

function path_inputs :: "acp_libs \<Rightarrow> bytes \<Rightarrow> u64 \<Rightarrow> u64 \<Rightarrow> bytes list \<Rightarrow> bytes set" where
  "path_inputs libs current index width siblings =
     (if width > 1
      then if \<not> 2 dvd unat index
           then (case siblings of
                   [] \<Rightarrow> {}
                 | sibling # rest \<Rightarrow> insert (CHR 0x01 # sibling @ current)
                     (path_inputs libs (compute_inner_hash libs sibling current) (index div 2) (div_ceil_2 width) rest))
           else if index + 1 < width
           then (case siblings of
                   [] \<Rightarrow> {}
                 | sibling # rest \<Rightarrow> insert (CHR 0x01 # current @ sibling)
                     (path_inputs libs (compute_inner_hash libs current sibling) (index div 2) (div_ceil_2 width) rest))
           else path_inputs libs current (index div 2) (div_ceil_2 width) siblings
      else {})"
  by pat_completeness auto
termination
  by (relation "measure (\<lambda>(libs, current, index, width, siblings). unat width)")
    (auto simp: div_ceil_2_unat word_less_nat_alt)

declare path_inputs.simps [simp del]

definition verify_inputs :: "acp_libs \<Rightarrow> registration_proof \<Rightarrow> bytes \<Rightarrow> bytes set" where
  "verify_inputs libs proof leaf_data =
     insert (CHR 0x00 # leaf_data)
       (path_inputs libs (compute_leaf_hash libs leaf_data) (rp_leaf_index proof) (rp_leaf_count proof)
          (rp_merkle_proof proof))"

text \<open>A set of nodes closed downwards: each is the hash of a leaf or of two nodes.\<close>

definition tree_nodes :: "acp_libs \<Rightarrow> bytes set \<Rightarrow> bytes set \<Rightarrow> bytes set \<Rightarrow> bool" where
  "tree_nodes libs D I N \<longleftrightarrow>
     (\<forall>h \<in> N. length h = 32 \<and>
       ((\<exists>d \<in> D. h = compute_leaf_hash libs d \<and> CHR 0x00 # d \<in> I) \<or>
        (\<exists>l \<in> N. \<exists>r \<in> N. h = compute_inner_hash libs l r \<and> CHR 0x01 # l @ r \<in> I)))"

lemma inner_children:
  assumes N: "tree_nodes libs D I N" and inj: "inj_on (sha256 libs) I"
    and h: "compute_inner_hash libs x y \<in> N" and I: "CHR 0x01 # x @ y \<in> I" and len: "length x = 32"
  shows "x \<in> N \<and> y \<in> N"
proof -
  from N h consider d where "compute_inner_hash libs x y = compute_leaf_hash libs d" "CHR 0x00 # d \<in> I"
    | l r where "l \<in> N" "r \<in> N" "compute_inner_hash libs x y = compute_inner_hash libs l r" "CHR 0x01 # l @ r \<in> I"
    unfolding tree_nodes_def by blast
  then show ?thesis
  proof cases
    case 1
    then have "CHR 0x01 # x @ y = CHR 0x00 # d"
      using inj I unfolding compute_inner_hash_def compute_leaf_hash_def by (metis inj_onD)
    then show ?thesis by simp
  next
    case 2
    then have "CHR 0x01 # x @ y = CHR 0x01 # l @ r"
      using inj I unfolding compute_inner_hash_def by (metis inj_onD)
    moreover have "length l = 32" using N 2(1) by (simp add: tree_nodes_def)
    ultimately show ?thesis using 2 len by simp
  qed
qed

lemma loop_steps:
  "\<not> 1 < w \<Longrightarrow> verify_loop libs c i w ss = Some (c, ss)"
  "1 < w \<Longrightarrow> odd (unat i) \<Longrightarrow> verify_loop libs c i w [] = None"
  "1 < w \<Longrightarrow> odd (unat i) \<Longrightarrow> verify_loop libs c i w (s # ss) =
     verify_loop libs (compute_inner_hash libs s c) (i div 2) (div_ceil_2 w) ss"
  "1 < w \<Longrightarrow> even (unat i) \<Longrightarrow> i + 1 < w \<Longrightarrow> verify_loop libs c i w [] = None"
  "1 < w \<Longrightarrow> even (unat i) \<Longrightarrow> i + 1 < w \<Longrightarrow> verify_loop libs c i w (s # ss) =
     verify_loop libs (compute_inner_hash libs c s) (i div 2) (div_ceil_2 w) ss"
  "1 < w \<Longrightarrow> even (unat i) \<Longrightarrow> \<not> i + 1 < w \<Longrightarrow> verify_loop libs c i w ss =
     verify_loop libs c (i div 2) (div_ceil_2 w) ss"
  by (subst verify_loop.simps, simp)+

lemma input_steps:
  "1 < w \<Longrightarrow> odd (unat i) \<Longrightarrow> path_inputs libs c i w (s # ss) = insert (CHR 0x01 # s @ c)
     (path_inputs libs (compute_inner_hash libs s c) (i div 2) (div_ceil_2 w) ss)"
  "1 < w \<Longrightarrow> even (unat i) \<Longrightarrow> i + 1 < w \<Longrightarrow> path_inputs libs c i w (s # ss) = insert (CHR 0x01 # c @ s)
     (path_inputs libs (compute_inner_hash libs c s) (i div 2) (div_ceil_2 w) ss)"
  "1 < w \<Longrightarrow> even (unat i) \<Longrightarrow> \<not> i + 1 < w \<Longrightarrow> path_inputs libs c i w ss =
     path_inputs libs c (i div 2) (div_ceil_2 w) ss"
  by (subst path_inputs.simps, simp)+

lemma path_stays_in_tree:
  assumes N: "tree_nodes libs D I N" and inj: "inj_on (sha256 libs) I" and sha: "\<forall>bs. length (sha256 libs bs) = 32"
    and "verify_loop libs current index width siblings = Some (root, rest)" and "root \<in> N"
    and "path_inputs libs current index width siblings \<subseteq> I"
    and "length current = 32" and "\<forall>sib \<in> set siblings. length sib = 32"
  shows "current \<in> N"
  using assms(4-)
proof (induction "unat width" arbitrary: current index width siblings rule: less_induct)
  case less
  note prem = less.prems
  have smaller: "1 < width \<Longrightarrow> unat (div_ceil_2 width) < unat width"
    by (simp add: div_ceil_2_unat word_less_nat_alt)
  have len: "length (compute_inner_hash libs x y) = 32" for x y
    using sha by (simp add: compute_inner_hash_def)
  note child = inner_children [OF N inj]
  consider (leaf) "\<not> 1 < width" | (odd) "1 < width" "odd (unat index)"
    | (even) "1 < width" "even (unat index)" "index + 1 < width"
    | (promoted) "1 < width" "even (unat index)" "\<not> index + 1 < width" by blast
  then show ?case
  proof cases
    case leaf
    from prem(1,2) loop_steps(1) [OF leaf] show ?thesis by simp
  next
    case odd
    from prem(1) loop_steps(2) [OF odd] obtain s ss where s: "siblings = s # ss" by (cases siblings) simp_all
    note step = prem [unfolded s loop_steps(3) [OF odd] input_steps(1) [OF odd]]
    have "compute_inner_hash libs s current \<in> N"
      by (rule less.hyps [OF smaller [OF odd(1)] step(1,2)]) (use step(3,5) len in simp_all)
    from child [OF this] step(3,5) show ?thesis by simp
  next
    case even
    from prem(1) loop_steps(4) [OF even] obtain s ss where s: "siblings = s # ss" by (cases siblings) simp_all
    note step = prem [unfolded s loop_steps(5) [OF even] input_steps(2) [OF even]]
    have "compute_inner_hash libs current s \<in> N"
      by (rule less.hyps [OF smaller [OF even(1)] step(1,2)]) (use step(3,5) len in simp_all)
    from child [OF this] step(3,4) show ?thesis by simp
  next
    case promoted
    note step = prem [unfolded loop_steps(6) [OF promoted] input_steps(3) [OF promoted]]
    show ?thesis by (rule less.hyps [OF smaller [OF promoted(1)] step])
  qed
qed


lemma tree_nodes_insert:
  assumes "tree_nodes libs D I N" and "l \<in> N" and "r \<in> N" and "CHR 0x01 # l @ r \<in> I"
    and "\<forall>bs. length (sha256 libs bs) = 32"
  shows "tree_nodes libs D I (insert (compute_inner_hash libs l r) N)"
  using assms unfolding tree_nodes_def by (auto simp: compute_inner_hash_def)

lemma tree_nodes_level:
  assumes "tree_nodes libs D I N" and "set hs \<subseteq> N" and "set (level_inputs hs) \<subseteq> I"
    and sha: "\<forall>bs. length (sha256 libs bs) = 32"
  shows "tree_nodes libs D I (N \<union> set (next_level libs hs))"
  using assms(1-3)
proof (induction hs arbitrary: N rule: level_inputs.induct)
  case (1 a b hs)
  let ?N = "insert (compute_inner_hash libs a b) N"
  have "tree_nodes libs D I ?N" by (rule tree_nodes_insert [OF 1(2) _ _ _ sha]) (use 1(3,4) in auto)
  moreover have "set hs \<subseteq> ?N" "set (level_inputs hs) \<subseteq> I" using 1(3,4) by auto
  ultimately show ?case using 1(1) [of ?N] by simp
qed (auto simp: Un_absorb2 insert_absorb)

lemma built_nodes:
  assumes "tree_nodes libs D I N" and "set hs \<subseteq> N" and "\<forall>bs. length (sha256 libs bs) = 32"
    and "(\<Union>level \<in> set (build_merkle_levels libs hs). set (level_inputs level)) \<subseteq> I"
  shows "\<exists>N. tree_nodes libs D I N \<and> set (last (build_merkle_levels libs hs)) \<subseteq> N"
  using assms
proof (induction libs hs arbitrary: N rule: build_merkle_levels.induct)
  case (1 libs hs)
  show ?case
  proof (cases "length hs > 1")
    case True
    then have b: "build_merkle_levels libs hs = hs # build_merkle_levels libs (next_level libs hs)"
      by (subst build_merkle_levels.simps) simp
    have "tree_nodes libs D I (N \<union> set (next_level libs hs))"
      by (rule tree_nodes_level [OF 1(2,3) _ 1(4)]) (use 1(5) b in simp)
    from 1(1) [OF True this] 1(4,5) b show ?thesis by simp
  next
    case False
    then have "build_merkle_levels libs hs = [hs]" by (subst build_merkle_levels.simps) simp
    with 1(2,3) show ?thesis by auto
  qed
qed

lemma root_in_last: "hs \<noteq> [] \<Longrightarrow> last (build_merkle_levels libs hs) ! 0 \<in> set (last (build_merkle_levels libs hs))"
  using last_level [of hs libs] by (simp add: nth_mem)

lemma accepted_leaf:
  assumes sha: "\<forall>bs. length (sha256 libs bs) = 32" and ne: "ds \<noteq> []"
    and inj: "inj_on (sha256 libs) (tree_inputs libs ds \<union> verify_inputs libs proof leaf_data)"
    and v: "verify_merkle_proof libs (last (build_merkle_levels libs (map (compute_leaf_hash libs) ds)) ! 0) proof leaf_data"
  shows "leaf_data \<in> set ds"
proof -
  let ?hs = "map (compute_leaf_hash libs) ds" and ?I = "tree_inputs libs ds \<union> verify_inputs libs proof leaf_data"
  have leaves: "tree_nodes libs (set ds) ?I (set ?hs)"
    unfolding tree_nodes_def tree_inputs_def using sha by (auto simp: compute_leaf_hash_def)
  obtain N where N: "tree_nodes libs (set ds) ?I N" and root: "last (build_merkle_levels libs ?hs) ! 0 \<in> N"
    using built_nodes [OF leaves subset_refl sha] root_in_last [of ?hs libs] ne unfolding tree_inputs_def by blast
  from v have
    run: "verify_loop libs (compute_leaf_hash libs leaf_data) (rp_leaf_index proof) (rp_leaf_count proof)
       (rp_merkle_proof proof) = Some (last (build_merkle_levels libs ?hs) ! 0, [])"
    and sib: "\<forall>sib \<in> set (rp_merkle_proof proof). length sib = 32"
    by (auto simp: verify_merkle_proof_def list_ex_iff split: if_splits option.splits)
  have "compute_leaf_hash libs leaf_data \<in> N"
    by (rule path_stays_in_tree [OF N inj sha run root _ _ sib])
      (use sha in \<open>auto simp: verify_inputs_def compute_leaf_hash_def\<close>)
  moreover have own: "CHR 0x00 # leaf_data \<in> ?I" by (simp add: verify_inputs_def)
  ultimately consider d where "d \<in> set ds" "compute_leaf_hash libs leaf_data = compute_leaf_hash libs d" "CHR 0x00 # d \<in> ?I"
    | l r where "compute_leaf_hash libs leaf_data = compute_inner_hash libs l r" "CHR 0x01 # l @ r \<in> ?I"
    using N unfolding tree_nodes_def by blast
  then show ?thesis
  proof cases
    case 1
    have "CHR 0x00 # leaf_data = CHR 0x00 # d"
      by (rule inj_onD [OF inj 1(2) [unfolded compute_leaf_hash_def] own 1(3)])
    with 1 show ?thesis by simp
  next
    case 2
    have "CHR 0x00 # leaf_data = CHR 0x01 # l @ r"
      by (rule inj_onD [OF inj 2(1) [unfolded compute_leaf_hash_def compute_inner_hash_def] own 2(2)])
    then show ?thesis by simp
  qed
qed


section \<open>Properties\<close>

lemma leaf_hashes:
  "list_all2 (\<lambda>ob h. res_bind (f ob) (\<lambda>d. Inr (g d)) = Inr h) objects hs \<longleftrightarrow>
     (\<exists>leaves. list_all2 (\<lambda>ob d. f ob = Inr d) objects leaves \<and> hs = map g leaves)"
proof (induction objects arbitrary: hs)
  case (Cons ob obs)
  show ?case
  proof
    assume "list_all2 (\<lambda>ob h. res_bind (f ob) (\<lambda>d. Inr (g d)) = Inr h) (ob # obs) hs"
    then obtain d hs' where "f ob = Inr d" "hs = g d # hs'"
      "list_all2 (\<lambda>ob h. res_bind (f ob) (\<lambda>d. Inr (g d)) = Inr h) obs hs'"
      by (auto simp: list_all2_Cons1)
    moreover from this(3) obtain leaves where "list_all2 (\<lambda>ob d. f ob = Inr d) obs leaves" "hs' = map g leaves"
      unfolding Cons.IH by blast
    ultimately show "\<exists>leaves. list_all2 (\<lambda>ob d. f ob = Inr d) (ob # obs) leaves \<and> hs = map g leaves"
      by (intro exI [of _ "d # leaves"]) simp
  next
    assume "\<exists>leaves. list_all2 (\<lambda>ob d. f ob = Inr d) (ob # obs) leaves \<and> hs = map g leaves"
    then obtain d leaves where "f ob = Inr d" "list_all2 (\<lambda>ob d. f ob = Inr d) obs leaves" "hs = g d # map g leaves"
      by (auto simp: list_all2_Cons1)
    moreover from this(2) have "list_all2 (\<lambda>ob h. res_bind (f ob) (\<lambda>d. Inr (g d)) = Inr h) obs (map g leaves)"
      unfolding Cons.IH by blast
    ultimately show "list_all2 (\<lambda>ob h. res_bind (f ob) (\<lambda>d. Inr (g d)) = Inr h) (ob # obs) hs" by simp
  qed
qed simp

lemma generate_parts:
  assumes "generate_registration_commitment libs pid objects actor = Inr g"
  obtains leaves where "map_res (\<lambda>ob. registration_leaf libs pid ob (as_str actor)) objects = Inr leaves"
    and "objects \<noteq> []" and "length objects \<le> 256"
    and "gc_commitment g = last (build_merkle_levels libs (map (compute_leaf_hash libs) leaves)) ! 0"
    and "gc_proofs g = registration_proofs objects (build_merkle_levels libs (map (compute_leaf_hash libs) leaves))"
proof -
  from assms obtain hs where in_ok: "validate_commitment_input pid objects (as_str actor) = Inr ()"
    and hs: "list_all2 (\<lambda>ob h. res_bind (registration_leaf libs pid ob (as_str actor))
      (\<lambda>d. Inr (compute_leaf_hash libs d)) = Inr h) objects hs"
    and g: "gc_commitment g = last (build_merkle_levels libs hs) ! 0"
      "gc_proofs g = registration_proofs objects (build_merkle_levels libs hs)"
    unfolding generate_registration_commitment_def Let_def res_bind_eq_Inr map_res_ok by fastforce
  from hs obtain leaves where leaves: "list_all2 (\<lambda>ob d. registration_leaf libs pid ob (as_str actor) = Inr d) objects leaves"
    "hs = map (compute_leaf_hash libs) leaves"
    unfolding leaf_hashes by blast
  from in_ok have "objects \<noteq> []" "length objects \<le> 256"
    by (auto simp: validate_commitment_input_def MAX_REGISTRATION_OBJECTS_def split: if_splits)
  with that g leaves show thesis by (simp add: map_res_ok)
qed

lemma registration_proofs_nth:
  "i < length objects \<Longrightarrow> registration_proofs objects levels ! i =
     \<lparr>rp_object = objects ! i, rp_merkle_proof = generate_merkle_proof i levels,
      rp_leaf_count = of_nat (length objects), rp_leaf_index = of_nat i\<rparr>"
  "length (registration_proofs objects levels) = length objects"
  by (simp_all add: registration_proofs_def)

lemma generated_siblings:
  assumes "\<forall>bs. length (sha256 libs bs) = 32" and "\<forall>h \<in> set hs. length h = 32"
  shows "\<forall>sib \<in> set (generate_merkle_proof i (build_merkle_levels libs hs)). length sib = 32"
  using assms
proof (induction libs hs arbitrary: i rule: build_merkle_levels.induct)
  case (1 libs hs)
  show ?case
  proof (cases "length hs > 1")
    case True
    have "\<forall>h \<in> set (next_level libs hs). length h = 32"
      using 1(2,3) next_level_sub [of _ libs hs] by (fastforce simp: compute_inner_hash_def)
    from 1(1) [OF True 1(2) this] 1(3) show ?thesis
      unfolding generated_step [OF True] by (auto simp: Let_def)
  next
    case False
    then have "build_merkle_levels libs hs = [hs]" by (subst build_merkle_levels.simps) simp
    then show ?thesis by (simp add: generate_merkle_proof_def)
  qed
qed

text \<open>C26. Completeness of registration commitments. When \<open>generate_registration_commitment\<close> returns
  commitment material for a list of objects, there is one proof per object, in order, and the proof of
  each object is accepted by \<open>verify_merkle_proof\<close> against the commitment for the leaf of that object,
  policy and actor. SHA-256 is any function with 32-byte results.\<close>

theorem generated_proofs_verify:
  assumes sha: "\<forall>bs. length (sha256 libs bs) = 32"
    and gen: "generate_registration_commitment libs pid objects actor = Inr g" and i: "i < length objects"
  shows "length (gc_proofs g) = length objects \<and> rp_object (gc_proofs g ! i) = objects ! i \<and>
    (\<exists>leaf. registration_leaf libs pid (objects ! i) (as_str actor) = Inr leaf \<and>
       verify_merkle_proof libs (gc_commitment g) (gc_proofs g ! i) leaf)"
proof -
  obtain leaves where l: "map_res (\<lambda>ob. registration_leaf libs pid ob (as_str actor)) objects = Inr leaves"
    and n: "length objects \<le> 256"
    and root: "gc_commitment g = last (build_merkle_levels libs (map (compute_leaf_hash libs) leaves)) ! 0"
    and proofs: "gc_proofs g = registration_proofs objects (build_merkle_levels libs (map (compute_leaf_hash libs) leaves))"
    by (rule generate_parts [OF gen])
  let ?hs = "map (compute_leaf_hash libs) leaves"
  have len: "length leaves = length objects" using l by (simp add: map_res_ok list_all2_lengthD)
  have leaf: "registration_leaf libs pid (objects ! i) (as_str actor) = Inr (leaves ! i)"
    using l i by (simp add: map_res_ok list_all2_conv_all_nth)
  have u: "unat (of_nat i :: u64) = i" "unat (of_nat (length objects) :: u64) = length objects"
    using i n by (simp_all add: unsigned_of_nat take_bit_nat_eq_self)
  have hs32: "\<forall>h \<in> set ?hs. length h = 32" using sha by (simp add: compute_leaf_hash_def)
  have run: "verify_loop libs (compute_leaf_hash libs (leaves ! i)) (of_nat i) (of_nat (length objects))
      (generate_merkle_proof i (build_merkle_levels libs ?hs)) = Some (gc_commitment g, [])"
    using verify_generated [of "of_nat i" ?hs "of_nat (length objects)" libs] i len u root by simp
  have short: "length (generate_merkle_proof i (build_merkle_levels libs ?hs)) \<le> 64"
    using levels_bound [of ?hs 8 libs] n len
      proof_loop_length [of i "take (length (build_merkle_levels libs ?hs) - 1) (build_merkle_levels libs ?hs)"]
    by (simp add: generate_merkle_proof_def)
  have "gc_commitment g \<in> set (last (build_merkle_levels libs ?hs))"
    unfolding root using root_in_last [of ?hs libs] i len by fastforce
  then have "length (gc_commitment g) = 32"
    using built_nodes [of libs "set leaves" UNIV "set ?hs" ?hs] sha hs32
    by (fastforce simp: tree_nodes_def)
  moreover have "\<not> (of_nat (length objects) :: u64) = 0" "\<not> (of_nat (length objects) :: u64) \<le> of_nat i"
    using u i by (auto simp: word_le_nat_alt unat_eq_0 [symmetric])
  ultimately have "verify_merkle_proof libs (gc_commitment g) (gc_proofs g ! i) (leaves ! i)"
    using run short generated_siblings [OF sha hs32, of i] i proofs
    by (simp add: verify_merkle_proof_def list_ex_iff registration_proofs_nth)
  with leaf proofs i show ?thesis by (simp add: registration_proofs_nth)
qed


text \<open>C25. Binding of registration commitments. Take a generated commitment and any proof, with any
  claimed leaf count, index and siblings. If the proof is accepted for the leaf of a policy, object and
  actor, then these are the policy and the actor of the commitment and one of its objects. The hash is
  only assumed to be free of collisions among the inputs hashed while the tree was built and the proof
  verified, and the Borsh encoding of a leaf to be injective.\<close>

theorem accepted_proof_is_committed:
  assumes sha: "\<forall>bs. length (sha256 libs bs) = 32"
    and gen: "generate_registration_commitment libs pid objects actor = Inr g"
    and leaves: "map_res (\<lambda>ob. registration_leaf libs pid ob (as_str actor)) objects = Inr leaves"
    and coll: "inj_on (sha256 libs) (tree_inputs libs leaves \<union> verify_inputs libs proof leaf)"
    and borsh: "\<forall>f f'. is_ok (borsh_leaf libs f) \<longrightarrow> borsh_leaf libs f = borsh_leaf libs f' \<longrightarrow> f = f'"
    and leaf: "registration_leaf libs pid' ob' actor' = Inr leaf"
    and acc: "verify_merkle_proof libs (gc_commitment g) proof leaf"
  shows "pid' = pid \<and> actor' = as_str actor \<and> ob' \<in> set objects"
proof -
  obtain leaves' where l: "map_res (\<lambda>ob. registration_leaf libs pid ob (as_str actor)) objects = Inr leaves'"
    and ne: "objects \<noteq> []"
    and root: "gc_commitment g = last (build_merkle_levels libs (map (compute_leaf_hash libs) leaves')) ! 0"
    by (rule generate_parts [OF gen])
  from l leaves have eq: "leaves' = leaves" by simp
  have "leaves \<noteq> []" using leaves ne by (auto simp: map_res_ok)
  from accepted_leaf [OF sha this coll] acc root eq have "leaf \<in> set leaves" by simp
  then obtain ob where ob: "ob \<in> set objects" "registration_leaf libs pid ob (as_str actor) = Inr leaf"
    using leaves list_all2_in_right [of _ objects leaves leaf] by (auto simp: map_res_ok)
  from leaf ob(2) obtain bs where "borsh_leaf libs (pid', obj_resource ob', obj_id ob', actor') = Inr bs"
    "borsh_leaf libs (pid, obj_resource ob, obj_id ob, as_str actor) = Inr bs"
    by (auto simp: registration_leaf_def)
  with borsh have "(pid', obj_resource ob', obj_id ob', actor') = (pid, obj_resource ob, obj_id ob, as_str actor)"
    by (metis is_ok_simps(2))
  moreover from this have "ob' = ob" by (cases ob; cases ob') simp
  ultimately show ?thesis using ob(1) by simp
qed

text \<open>C27. Building a Merkle tree ends, with one root, after at most \<open>k\<close> rounds for at most \<open>2 ^ k\<close>
  leaves; a generated proof has at most \<open>k\<close> siblings. For the 256 objects a commitment may have this is
  eight, far below the 64 siblings that verification admits.\<close>

theorem merkle_tree_building_ends:
  assumes "hs \<noteq> []" and "length hs \<le> 2 ^ k"
  shows "length (build_merkle_levels libs hs) \<le> Suc k \<and> length (last (build_merkle_levels libs hs)) = 1 \<and>
    length (generate_merkle_proof i (build_merkle_levels libs hs)) \<le> k"
  using last_level [OF assms(1), of libs] levels_bound [OF assms(2), of libs]
    proof_loop_length [of i "take (length (build_merkle_levels libs hs) - 1) (build_merkle_levels libs hs)"]
  by (simp add: generate_merkle_proof_def)


section \<open>Concrete commitments\<close>

definition m_objects :: "object list" where
  "m_objects = [\<lparr>obj_resource = ''file'', obj_id = ''1''\<rparr>, \<lparr>obj_resource = ''file'', obj_id = ''2''\<rparr>]"

definition m_actor :: did where "m_actor = Did ''did:key:o''"

definition m_leaf :: "string \<Rightarrow> bytes" where
  "m_leaf i = LEAF_DOMAIN @ enc_str4 (''p'', ''file'', i, ''did:key:o'')"

lemma m_leaves:
  "map_res (\<lambda>ob. registration_leaf demo_libs ''p'' ob (as_str m_actor)) m_objects = Inr [m_leaf ''1'', m_leaf ''2'']"
  by (simp add: m_objects_def registration_leaf_def demo_libs_def m_leaf_def m_actor_def)

lemma m_generated: "is_ok (generate_registration_commitment demo_libs ''p'' m_objects m_actor)"
  by (simp add: generate_registration_commitment_def validate_commitment_input_def m_objects_def m_actor_def
        MAX_REGISTRATION_OBJECTS_def MAX_REGISTRATION_LEAF_BYTES_def LEAF_DOMAIN_def registration_leaf_def
        demo_libs_def Let_def)

theorem generated_proofs_verify_witness:
  "\<exists>g. generate_registration_commitment demo_libs ''p'' m_objects m_actor = Inr g \<and>
     verify_merkle_proof demo_libs (gc_commitment g) (gc_proofs g ! 1) (m_leaf ''2'')"
proof -
  from m_generated obtain g where g: "generate_registration_commitment demo_libs ''p'' m_objects m_actor = Inr g"
    by (auto simp: is_ok_iff)
  have "registration_leaf demo_libs ''p'' (m_objects ! 1) (as_str m_actor) = Inr (m_leaf ''2'')"
    by (simp add: m_objects_def registration_leaf_def demo_libs_def m_leaf_def m_actor_def)
  with generated_proofs_verify [OF demo_sha g, of 1] g show ?thesis by (auto simp: m_objects_def)
qed

lemma m_levels: "build_merkle_levels libs [a, b] = [[a, b], [compute_inner_hash libs a b]]"
  by (simp add: build_merkle_levels.simps)

definition m_proof :: registration_proof where
  "m_proof = \<lparr>rp_object = \<lparr>obj_resource = ''file'', obj_id = ''1''\<rparr>,
     rp_merkle_proof = [compute_leaf_hash demo_libs (m_leaf ''2'')], rp_leaf_count = 2, rp_leaf_index = 0\<rparr>"

lemma m_inputs:
  "tree_inputs demo_libs [m_leaf ''1'', m_leaf ''2''] \<union> verify_inputs demo_libs m_proof (m_leaf ''1'') =
     {CHR 0x00 # m_leaf ''1'', CHR 0x00 # m_leaf ''2'',
      CHR 0x01 # compute_leaf_hash demo_libs (m_leaf ''1'') @ compute_leaf_hash demo_libs (m_leaf ''2'')}"
proof -
  have "path_inputs demo_libs c 0 2 [d] = {CHR 0x01 # c @ d}" for c d
    by (simp add: path_inputs.simps [of _ _ _ 2] path_inputs.simps [of _ _ _ 1] div_ceil_2_def)
  then show ?thesis by (simp add: tree_inputs_def verify_inputs_def m_levels m_proof_def) blast
qed

lemmas m_eval = demo_libs_def pad32_def m_leaf_def enc_str4_def enc_pair_def LEAF_DOMAIN_def compute_leaf_hash_def

lemma m_no_collision:
  "inj_on (sha256 demo_libs)
     (tree_inputs demo_libs [m_leaf ''1'', m_leaf ''2''] \<union> verify_inputs demo_libs m_proof (m_leaf ''1''))"
proof -
  let ?s = "sha256 demo_libs" and ?a = "CHR 0x00 # m_leaf ''1''" and ?b = "CHR 0x00 # m_leaf ''2''"
    and ?c = "CHR 0x01 # compute_leaf_hash demo_libs (m_leaf ''1'') @ compute_leaf_hash demo_libs (m_leaf ''2'')"
  have "?s ?a \<noteq> ?s ?b" by (simp add: m_eval)
  moreover have "?s ?a \<noteq> ?s ?c" by (simp add: m_eval)
  moreover have "?s ?b \<noteq> ?s ?c" by (simp add: m_eval)
  ultimately show ?thesis unfolding m_inputs by (simp add: inj_on_def)
qed

lemma m_accepted:
  assumes "generate_registration_commitment demo_libs ''p'' m_objects m_actor = Inr g"
  shows "verify_merkle_proof demo_libs (gc_commitment g) m_proof (m_leaf ''1'')"
proof -
  let ?h = "\<lambda>i. compute_leaf_hash demo_libs (m_leaf i)"
  obtain leaves where l: "map_res (\<lambda>ob. registration_leaf demo_libs ''p'' ob (as_str m_actor)) m_objects = Inr leaves"
    and root: "gc_commitment g = last (build_merkle_levels demo_libs (map (compute_leaf_hash demo_libs) leaves)) ! 0"
    by (rule generate_parts [OF assms])
  from l m_leaves have "leaves = [m_leaf ''1'', m_leaf ''2'']" by simp
  with root have g: "gc_commitment g = compute_inner_hash demo_libs (?h ''1'') (?h ''2'')" by (simp add: m_levels)
  have len: "length (compute_leaf_hash demo_libs d) = 32" "length (compute_inner_hash demo_libs c d) = 32" for c d
    using demo_sha by (simp_all add: compute_leaf_hash_def compute_inner_hash_def)
  have "verify_loop demo_libs c 0 2 [d] = Some (compute_inner_hash demo_libs c d, [])" for c d
    by (simp add: loop_steps(5) div_ceil_2_def loop_steps(1))
  then show ?thesis using g len by (simp add: verify_merkle_proof_def m_proof_def)
qed

theorem accepted_proof_is_committed_witness:
  "\<lparr>obj_resource = ''file'', obj_id = ''1''\<rparr> \<in> set m_objects"
proof -
  from m_generated obtain g where g: "generate_registration_commitment demo_libs ''p'' m_objects m_actor = Inr g"
    by (auto simp: is_ok_iff)
  have leaf: "registration_leaf demo_libs ''p'' \<lparr>obj_resource = ''file'', obj_id = ''1''\<rparr> ''did:key:o'' = Inr (m_leaf ''1'')"
    by (simp add: registration_leaf_def demo_libs_def m_leaf_def)
  show ?thesis
    using accepted_proof_is_committed [OF demo_sha g m_leaves m_no_collision _ leaf m_accepted [OF g]] demo_leaf_inj
    by blast
qed

theorem merkle_tree_building_ends_witness:
  "length (build_merkle_levels demo_libs [''a'', ''b'', ''c'']) \<le> 3 \<and>
     length (generate_merkle_proof 2 (build_merkle_levels demo_libs [''a'', ''b'', ''c''])) \<le> 2"
  using merkle_tree_building_ends [of "[''a'', ''b'', ''c'']" 2 demo_libs 2] by simp

end
