(* ===== verification/Acp_Module.thy ===== *)
theory Acp_Module
  imports Acp_Merkle Qmdb_Store
begin

text \<open>
  The state of the ACP module and its storage access: \<open>AcpModule\<close> of \<open>acp/mod.rs\<close> with the stored policy and
  relationship records, the parameters, the stored access decisions, the indexed registration commitments
  (\<open>commitment_expiry.rs\<close>, \<open>commitment_lookup.rs\<close>), the amendment events (\<open>amendment_history.rs\<close>) and the
  operations on policies. A method on \<open>&mut self\<close> is a computation over \<open>acp_module\<close>, one on
  \<open>&self\<close> a function of it.
\<close>

section \<open>The module\<close>

record acp_module =
  am_store :: kv_store
  am_policies :: "policy ordmap"

type_synonym 'a acp = "(acp_module, acp_error, 'a) stm"

definition acp_new :: acp_module where
  "acp_new = \<lparr>am_store = kv_default, am_policies = []\<rparr>"

definition acp_from_store :: "acp_libs \<Rightarrow> kv_store \<Rightarrow> acp_module" where
  "acp_from_store libs store =
     \<lparr>am_store = store,
      am_policies = fold (\<lambda>(_, bs) ps.
        case unjson_policy_record libs bs of
          Inr record \<Rightarrow> ord_insert (pol_id (pr_policy record)) (pr_policy record) ps
        | Inl _ \<Rightarrow> ps) (prefix_iter store POLICY_PREFIX) []\<rparr>"

definition acp_put :: "bytes \<Rightarrow> bytes \<Rightarrow> unit acp" where
  "acp_put key v = st_modify (\<lambda>m. m\<lparr>am_store := kv_put key v (am_store m)\<rparr>)"

definition acp_delete :: "bytes \<Rightarrow> unit acp" where
  "acp_delete key = st_modify (\<lambda>m. m\<lparr>am_store := kv_delete key (am_store m)\<rparr>)"

definition cache_policy :: "string \<Rightarrow> policy \<Rightarrow> unit acp" where
  "cache_policy i p = st_modify (\<lambda>m. m\<lparr>am_policies := ord_insert i p (am_policies m)\<rparr>)"

definition cached_policy :: "acp_module \<Rightarrow> string \<Rightarrow> acp_error + policy" where
  "cached_policy m policy_id = ok_or (AcpPolicyNotFound policy_id) (map_of (am_policies m) policy_id)"

definition has_policy_id :: "acp_module \<Rightarrow> string \<Rightarrow> bool" where
  "has_policy_id m policy_id = (map_of (am_policies m) policy_id \<noteq> None)"


section \<open>Storage: policy records\<close>

definition get_policy_record :: "acp_libs \<Rightarrow> acp_module \<Rightarrow> string \<Rightarrow> acp_error + policy_record option" where
  "get_policy_record libs m i =
     (case get_ref (am_store m) (policy_key i) of
        None \<Rightarrow> Inr None
      | Some bs \<Rightarrow>
          res_bind (map_err (\<lambda>e. StateError (''invalid policy record: '' @ e)) (unjson_policy_record libs bs)) (\<lambda>record.
          if pol_id (pr_policy record) \<noteq> i then Inl (StateError ''policy record identity mismatch'')
          else Inr (Some record)))"

definition set_policy_record :: "acp_libs \<Rightarrow> string \<Rightarrow> policy_record \<Rightarrow> unit acp" where
  "set_policy_record libs i record = acp_put (policy_key i) (json_policy_record libs record)"

definition decode_counter :: "acp_error \<Rightarrow> bytes option \<Rightarrow> acp_error + u64" where
  "decode_counter e stored = (case stored of None \<Rightarrow> Inr 0 | Some bs \<Rightarrow> ok_or e (from_be_bytes bs))"

definition next_policy_counter :: "acp_module \<Rightarrow> acp_error + u64" where
  "next_policy_counter m =
     res_bind (decode_counter (StateError ''policy counter must contain exactly 8 bytes'')
                 (kv_get (am_store m) POLICY_COUNTER_KEY)) (\<lambda>counter.
     ok_or (StateError ''policy counter exhausted'') (checked_add counter 1))"


section \<open>Storage: relationships\<close>

definition get_relationship ::
  "acp_libs \<Rightarrow> acp_module \<Rightarrow> string \<Rightarrow> relationship \<Rightarrow> acp_error + relationship_record option" where
  "get_relationship libs m policy_id rel =
     (case get_ref (am_store m) (relationship_key policy_id (relationship_storage_key libs rel)) of
        None \<Rightarrow> Inr None
      | Some bs \<Rightarrow>
          res_bind (map_err (\<lambda>e. StateError (''invalid relationship record: '' @ e)) (unjson_relationship libs bs))
            (\<lambda>record.
          if rr_policy_id record \<noteq> policy_id \<or> rr_relationship record \<noteq> rel
          then Inl (StateError ''relationship record identity mismatch'')
          else Inr (Some record)))"

definition set_relationship :: "acp_libs \<Rightarrow> string \<Rightarrow> string \<Rightarrow> relationship_record \<Rightarrow> unit acp" where
  "set_relationship libs policy_id skey record =
     acp_put (relationship_key policy_id skey) (json_relationship libs record)"

definition delete_relationship :: "string \<Rightarrow> string \<Rightarrow> unit acp" where
  "delete_relationship policy_id skey = acp_delete (relationship_key policy_id skey)"

definition has_relationship :: "acp_module \<Rightarrow> string \<Rightarrow> string \<Rightarrow> bool" where
  "has_relationship m policy_id skey = kv_has (am_store m) (relationship_key policy_id skey)"


section \<open>Storage: parameters and access decisions\<close>

definition get_params :: "acp_libs \<Rightarrow> acp_module \<Rightarrow> acp_error + acp_params" where
  "get_params libs m =
     (case get_ref (am_store m) PARAMS_KEY of
        None \<Rightarrow> Inr acp_params_default
      | Some bs \<Rightarrow> map_err (\<lambda>e. StateError (''invalid ACP parameters: '' @ e)) (unborsh_params libs bs))"

definition set_params :: "acp_libs \<Rightarrow> acp_params \<Rightarrow> unit acp" where
  "set_params libs params =
     st_bind (st_lift (map_err (\<lambda>e. StateError (''serialize params: '' @ e)) (borsh_params libs params))) (\<lambda>bs.
     acp_put PARAMS_KEY bs)"

definition decode_decision :: "acp_libs \<Rightarrow> bytes \<Rightarrow> acp_error + access_decision" where
  "decode_decision libs bs =
     (if length bs > 128 * 1024 then Inl (InvalidAccessRequest ''access decision exceeds byte limit'')
      else map_err (\<lambda>e. StateError (''invalid access decision: '' @ e)) (unborsh_decision libs bs))"

definition set_access_decision :: "acp_libs \<Rightarrow> access_decision \<Rightarrow> unit acp" where
  "set_access_decision libs decision =
     st_bind (st_lift (map_err (\<lambda>e. StateError (''serialize AccessDecision: '' @ e)) (borsh_decision libs decision)))
       (\<lambda>bs. acp_put (access_decision_key (ad_id decision)) bs)"

definition get_access_decision :: "acp_libs \<Rightarrow> acp_module \<Rightarrow> string \<Rightarrow> acp_error + access_decision option" where
  "get_access_decision libs m i =
     (case get_ref (am_store m) (access_decision_key i) of
        None \<Rightarrow> Inr None
      | Some bs \<Rightarrow>
          res_bind (decode_decision libs bs) (\<lambda>decision.
          if ad_id decision \<noteq> i then Inl (StateError ''access decision identity mismatch'')
          else Inr (Some decision)))"


section \<open>Storage: registration commitments\<close>

definition SECONDS_PREFIX :: bytes where "SECONDS_PREFIX = ''commitment_expiry/seconds/''"
definition HEIGHT_PREFIX :: bytes where "HEIGHT_PREFIX = ''commitment_expiry/height/''"
definition EXPIRY_BATCH_SIZE :: nat where "EXPIRY_BATCH_SIZE = 128"

text \<open>The prefix and the deadline of a commitment.\<close>

definition expiry_prefix :: "registrations_commitment \<Rightarrow> bytes" where
  "expiry_prefix c = (case rc_validity c of Seconds _ \<Rightarrow> SECONDS_PREFIX | Blocks _ \<Rightarrow> HEIGHT_PREFIX)"

definition expiry_deadline :: "registrations_commitment \<Rightarrow> u64" where
  "expiry_deadline c =
     (case rc_validity c of
        Seconds delta \<Rightarrow> saturating_add (ts_seconds (md_creation_ts (rc_metadata c))) delta
      | Blocks delta \<Rightarrow> saturating_add (ts_block_height (md_creation_ts (rc_metadata c))) delta)"

definition commitment_expiry_key :: "registrations_commitment \<Rightarrow> bytes" where
  "commitment_expiry_key c = expiry_prefix c @ to_be_bytes (expiry_deadline c) @ to_be_bytes (rc_id c)"

definition get_commitment_by_id ::
  "acp_libs \<Rightarrow> acp_module \<Rightarrow> u64 \<Rightarrow> acp_error + registrations_commitment option" where
  "get_commitment_by_id libs m i =
     (case get_ref (am_store m) (commitment_key i) of
        None \<Rightarrow> Inr None
      | Some bs \<Rightarrow>
          res_bind (map_err (\<lambda>e. StateError (''invalid commitment: '' @ e)) (unborsh_commitment libs bs)) (\<lambda>record.
          if i = 0 \<or> rc_id record \<noteq> i \<or> length (rc_commitment record) \<noteq> 32
          then Inl (StateError ''commitment identity or root mismatch'')
          else Inr (Some record)))"

definition update_commitment :: "acp_libs \<Rightarrow> registrations_commitment \<Rightarrow> unit acp" where
  "update_commitment libs commitment =
     st_bind (st_lift (map_err (\<lambda>e. StateError (''serialize commitment: '' @ e)) (borsh_commitment libs commitment)))
       (\<lambda>bs.
     st_bind (st_read (\<lambda>m. get_commitment_by_id libs m (rc_id commitment))) (\<lambda>found.
     st_bind (case found of
                None \<Rightarrow> st_ret ()
              | Some previous \<Rightarrow>
                  st_bind (acp_delete (commitment_expiry_key previous)) (\<lambda>_.
                  acp_delete (commitment_by_commitment_index_key (rc_commitment previous) (rc_id previous)))) (\<lambda>_.
     st_bind (if \<not> rc_expired commitment then acp_put (commitment_expiry_key commitment) [] else st_ret ()) (\<lambda>_.
     st_bind (acp_put (commitment_by_commitment_index_key (rc_commitment commitment) (rc_id commitment)) []) (\<lambda>_.
     acp_put (commitment_key (rc_id commitment)) bs)))))"

definition create_commitment :: "acp_libs \<Rightarrow> registrations_commitment \<Rightarrow> registrations_commitment acp" where
  "create_commitment libs commitment =
     st_bind (st_read (\<lambda>m. decode_counter (StateError ''invalid record counter'')
                             (kv_get (am_store m) commitment_counter_key))) (\<lambda>counter.
     st_bind (st_lift (ok_or (StateError ''record counter exhausted'') (checked_add counter 1))) (\<lambda>next'.
     st_bind (st_read (\<lambda>m. if kv_has (am_store m) (commitment_key next')
                            then Inl (StateError ''commitment identifier already exists'') else Inr ())) (\<lambda>_.
     let commitment' = commitment\<lparr>rc_id := next'\<rparr> in
     st_bind (update_commitment libs commitment') (\<lambda>_.
     st_bind (acp_put commitment_counter_key (to_be_bytes next')) (\<lambda>_.
     st_ret commitment')))))"


text \<open>The due entries of one expiry index: the loop stops at the first deadline that is not past.\<close>

fun expiry_loop ::
  "acp_libs \<Rightarrow> acp_module \<Rightarrow> bytes \<Rightarrow> u64 \<Rightarrow> (bytes \<times> bytes) list \<Rightarrow> acp_error + registrations_commitment list" where
  "expiry_loop libs m pre current [] = Inr []"
| "expiry_loop libs m pre current ((index, v) # rest) =
     (if length index \<noteq> length pre + 16 \<or> v \<noteq> [] then Inl (StateError ''invalid commitment expiry index'')
      else if take 8 (drop (length pre) index) \<ge> to_be_bytes current then Inr []
      else
        res_bind (ok_or (StateError ''invalid commitment expiry identifier'')
                    (from_be_bytes (drop (length pre + 8) index))) (\<lambda>i.
        res_bind (get_commitment_by_id libs m i) (\<lambda>stored.
        res_bind (ok_or (StateError ''expiry commitment missing'') stored) (\<lambda>record.
        if rc_expired record \<or> commitment_expiry_key record \<noteq> index
        then Inl (StateError ''commitment expiry index mismatch'')
        else res_bind (expiry_loop libs m pre current rest) (\<lambda>expired.
             Inr (record\<lparr>rc_expired := True\<rparr> # expired))))))"

fun update_commitments :: "acp_libs \<Rightarrow> registrations_commitment list \<Rightarrow> unit acp" where
  "update_commitments libs [] = st_ret ()"
| "update_commitments libs (record # records) =
     st_bind (update_commitment libs record) (\<lambda>_. update_commitments libs records)"

definition due_commitments ::
  "acp_libs \<Rightarrow> acp_module \<Rightarrow> timestamp \<Rightarrow> acp_error + registrations_commitment list" where
  "due_commitments libs m now =
     res_bind (expiry_loop libs m SECONDS_PREFIX (ts_seconds now)
                 (take EXPIRY_BATCH_SIZE (prefix_iter (am_store m) SECONDS_PREFIX))) (\<lambda>by_time.
     res_bind (expiry_loop libs m HEIGHT_PREFIX (ts_block_height now)
                 (take EXPIRY_BATCH_SIZE (prefix_iter (am_store m) HEIGHT_PREFIX))) (\<lambda>by_height.
     Inr (by_time @ by_height)))"

definition expire_commitments :: "acp_libs \<Rightarrow> timestamp \<Rightarrow> registrations_commitment list acp" where
  "expire_commitments libs now =
     st_bind (st_read (\<lambda>m. due_commitments libs m now)) (\<lambda>expired.
     st_bind (update_commitments libs expired) (\<lambda>_.
     st_ret expired))"

fun lookup_loop ::
  "acp_libs \<Rightarrow> acp_module \<Rightarrow> bytes \<Rightarrow> bytes \<Rightarrow> nat \<Rightarrow> nat \<Rightarrow> (bytes \<times> bytes) list \<Rightarrow>
     acp_error + registrations_commitment list" where
  "lookup_loop libs m root pre count byts [] = Inr []"
| "lookup_loop libs m root pre count byts ((index, v) # rest) =
     (if count = 128
      then Inl (InvalidAccessRequest ''commitment lookup exceeds limit; use certified prefix pages'')
      else if length index \<noteq> length pre + 8 \<or> v \<noteq> [] then Inl (StateError ''invalid commitment root index'')
      else
        res_bind (ok_or (StateError ''invalid commitment identifier'') (from_be_bytes (drop (length pre) index))) (\<lambda>i.
        res_bind (ok_or (StateError ''indexed commitment missing'') (get_ref (am_store m) (commitment_key i))) (\<lambda>bs.
        let byts' = byts + length bs in
        if byts' > 1048576
        then Inl (InvalidAccessRequest ''commitment lookup byte limit exceeded; use certified prefix pages'')
        else
          res_bind (map_err (\<lambda>e. StateError (''invalid commitment: '' @ e)) (unborsh_commitment libs bs)) (\<lambda>record.
          if rc_id record \<noteq> i \<or> rc_commitment record \<noteq> root
          then Inl (StateError ''commitment root index mismatch'')
          else res_bind (lookup_loop libs m root pre (count + 1) byts' rest) (\<lambda>records.
               Inr (record # records))))))"

definition filter_commitments_by_commitment ::
  "acp_libs \<Rightarrow> acp_module \<Rightarrow> bytes \<Rightarrow> acp_error + registrations_commitment list" where
  "filter_commitments_by_commitment libs m root =
     (if length root \<noteq> 32 then Inl (InvalidAccessRequest ''commitment must be 32 bytes'')
      else let pre = commitment_by_commitment_index_prefix root in
           lookup_loop libs m root pre 0 0 (take 129 (prefix_iter (am_store m) pre)))"


section \<open>Storage: amendment events\<close>

definition decode_event :: "acp_libs \<Rightarrow> bytes \<Rightarrow> u64 \<Rightarrow> acp_error + amendment_event" where
  "decode_event libs bs i =
     res_bind (map_err (\<lambda>e. StateError (''invalid amendment event: '' @ e)) (unborsh_event libs bs)) (\<lambda>event.
     if i = 0 \<or> ae_id event \<noteq> i then Inl (StateError ''amendment event identity mismatch'')
     else Inr event)"

definition get_amendment_event_by_id ::
  "acp_libs \<Rightarrow> acp_module \<Rightarrow> u64 \<Rightarrow> acp_error + amendment_event option" where
  "get_amendment_event_by_id libs m i =
     (case get_ref (am_store m) (amendment_event_key i) of
        None \<Rightarrow> Inr None
      | Some bs \<Rightarrow> res_bind (decode_event libs bs i) (\<lambda>event. Inr (Some event)))"

definition create_amendment_event :: "acp_libs \<Rightarrow> amendment_event \<Rightarrow> amendment_event acp" where
  "create_amendment_event libs event =
     st_bind (st_read (\<lambda>m. decode_counter (StateError ''invalid record counter'')
                             (kv_get (am_store m) amendment_event_counter_key))) (\<lambda>counter.
     st_bind (st_lift (ok_or (StateError ''record counter exhausted'') (checked_add counter 1))) (\<lambda>next'.
     st_bind (st_read (\<lambda>m. if kv_has (am_store m) (amendment_event_key next')
                            then Inl (StateError ''amendment identifier already exists'') else Inr ())) (\<lambda>_.
     let event' = event\<lparr>ae_id := next'\<rparr> in
     st_bind (st_lift (map_err (\<lambda>e. StateError (''serialize amendment event: '' @ e)) (borsh_event libs event'))) (\<lambda>bs.
     st_bind (acp_put amendment_event_counter_key (to_be_bytes next')) (\<lambda>_.
     st_bind (acp_put (amendment_event_key next') bs) (\<lambda>_.
     st_bind (acp_put (amendment_event_policy_index_key (ae_policy_id event') next') []) (\<lambda>_.
     st_ret event')))))))"

definition update_amendment_event :: "acp_libs \<Rightarrow> amendment_event \<Rightarrow> unit acp" where
  "update_amendment_event libs event =
     st_bind (st_lift (map_err (\<lambda>e. StateError (''serialize amendment event: '' @ e)) (borsh_event libs event))) (\<lambda>bs.
     acp_put (amendment_event_key (ae_id event)) bs)"

fun hijack_loop ::
  "acp_libs \<Rightarrow> acp_module \<Rightarrow> string \<Rightarrow> bytes \<Rightarrow> nat \<Rightarrow> nat \<Rightarrow> (bytes \<times> bytes) list \<Rightarrow>
     acp_error + amendment_event list" where
  "hijack_loop libs m policy pre count byts [] = Inr []"
| "hijack_loop libs m policy pre count byts ((index, v) # rest) =
     (if count = 128
      then Inl (InvalidAccessRequest ''amendment lookup exceeds limit; use certified prefix pages'')
      else if length index \<noteq> length pre + 8 \<or> v \<noteq> [] then Inl (StateError ''invalid amendment policy index'')
      else
        res_bind (ok_or (StateError ''invalid amendment identifier'') (from_be_bytes (drop (length pre) index))) (\<lambda>i.
        res_bind (ok_or (StateError ''indexed amendment missing'') (get_ref (am_store m) (amendment_event_key i))) (\<lambda>bs.
        let byts' = byts + length index + length (amendment_event_key i) + length bs in
        if byts' > 1048576
        then Inl (InvalidAccessRequest ''amendment lookup byte limit exceeded; use certified prefix pages'')
        else
          res_bind (decode_event libs bs i) (\<lambda>event.
          if ae_policy_id event \<noteq> policy then Inl (StateError ''amendment policy index mismatch'')
          else res_bind (hijack_loop libs m policy pre (count + 1) byts' rest) (\<lambda>events.
               Inr (if ae_hijack_flag event then event # events else events))))))"

definition list_hijack_events_by_policy ::
  "acp_libs \<Rightarrow> acp_module \<Rightarrow> string \<Rightarrow> acp_error + amendment_event list" where
  "list_hijack_events_by_policy libs m policy =
     (if length policy > 64 * 1024 then Inl (InvalidAccessRequest ''policy identifier exceeds lookup limit'')
      else let pre = amendment_event_policy_index_prefix policy in
           hijack_loop libs m policy pre 0 0 (take 129 (prefix_iter (am_store m) pre)))"


section \<open>Policies\<close>

definition with_spec :: "policy_specification option \<Rightarrow> parsed_policy \<Rightarrow> parsed_policy" where
  "with_spec original_specification parsed =
     (case original_specification of None \<Rightarrow> parsed | Some specification \<Rightarrow> parsed\<lparr>pp_spec := specification\<rparr>)"

definition compile_policy ::
  "acp_libs \<Rightarrow> string \<Rightarrow> policy_marshaling_type \<Rightarrow> u64 \<Rightarrow> policy_specification option \<Rightarrow> acp_error + policy" where
  "compile_policy libs policy marshal_type counter original_specification =
     (if length policy > 64 * 1024 then Inl (AcpInvalidPolicy ''policy definition exceeds 64 KiB'')
      else
        res_bind (case marshal_type of
            ShortYaml \<Rightarrow> map_err AcpInvalidPolicy (parse_policy_yaml (policy_codecs libs) policy)
          | ShortJson \<Rightarrow> map_err (\<lambda>e. AcpInvalidPolicy (''invalid policy JSON: '' @ e))
                           (json_parsed_policy (policy_codecs libs) policy)
          | UnknownType \<Rightarrow> Inl (AcpInvalidPolicy ''unknown policy marshal type'')) (\<lambda>parsed.
        res_bind (map_err (\<lambda>e. AcpInvalidPolicy (core_error_to_string e))
                    (build_policy (sha256 libs) (with_spec original_specification parsed) counter)) (\<lambda>built.
        res_bind (map_err (\<lambda>e. AcpInvalidPolicy (zerror_to_string e)) (policy_validate built)) (\<lambda>_.
        Inr built))))"

definition validate_policy_definition ::
  "acp_libs \<Rightarrow> string \<Rightarrow> policy_marshaling_type \<Rightarrow> acp_error + policy" where
  "validate_policy_definition libs policy marshal_type = compile_policy libs policy marshal_type 0 None"

definition query_validate_policy ::
  "acp_libs \<Rightarrow> string \<Rightarrow> policy_marshaling_type \<Rightarrow> bool \<times> string \<times> policy" where
  "query_validate_policy libs policy marshal_type =
     (case validate_policy_definition libs policy marshal_type of
        Inr built \<Rightarrow> (True, [], built)
      | Inl e \<Rightarrow> (False, acp_error_to_string e, policy_new [] []))"

definition create_policy_with_metadata ::
  "acp_libs \<Rightarrow> string \<Rightarrow> policy_marshaling_type \<Rightarrow> record_metadata \<Rightarrow> policy_record acp" where
  "create_policy_with_metadata libs policy marshal_type metadata =
     st_bind (st_read next_policy_counter) (\<lambda>counter.
     st_bind (st_lift (compile_policy libs policy marshal_type counter None)) (\<lambda>zanzibar_policy.
     let record = \<lparr>pr_policy = zanzibar_policy, pr_raw_policy = policy, pr_marshal_type = marshal_type,
                   pr_metadata = metadata\<rparr>;
         policy_id = pol_id zanzibar_policy
     in st_bind (st_read (\<lambda>m. if kv_has (am_store m) (policy_key policy_id)
                               then Inl (StateError ''policy identifier already exists'') else Inr ())) (\<lambda>_.
        st_bind (acp_put POLICY_COUNTER_KEY (to_be_bytes counter)) (\<lambda>_.
        st_bind (set_policy_record libs policy_id record) (\<lambda>_.
        st_bind (cache_policy policy_id zanzibar_policy) (\<lambda>_.
        st_ret record))))))"

definition create_policy ::
  "acp_libs \<Rightarrow> did \<Rightarrow> string \<Rightarrow> policy_marshaling_type \<Rightarrow> policy_record acp" where
  "create_policy libs creator policy marshal_type =
     create_policy_with_metadata libs policy marshal_type (plain_metadata (as_str creator))"

definition check_preserved :: "policy \<Rightarrow> policy \<Rightarrow> acp_error + unit" where
  "check_preserved old new =
     check_all (\<lambda>old_resource.
       if list_ex (\<lambda>r. resd_name r = resd_name old_resource) (pol_resources new) then Inr ()
       else Inl (AcpInvalidPolicy (''resource '' @ quote (resd_name old_resource)
                   @ '' cannot be removed from an existing policy''))) (pol_resources old)"

text \<open>The relationships whose relation the new definition no longer declares.\<close>

fun orphan_loop :: "acp_libs \<Rightarrow> string \<Rightarrow> policy \<Rightarrow> (bytes \<times> bytes) list \<Rightarrow> acp_error + bytes list" where
  "orphan_loop libs policy_id new [] = Inr []"
| "orphan_loop libs policy_id new ((kv_key, bs) # rest) =
     res_bind (map_err (\<lambda>e. StateError (''invalid relationship record: '' @ e)) (unjson_relationship libs bs))
       (\<lambda>record.
     let rel = rr_relationship record in
     if rr_policy_id record \<noteq> policy_id \<or> relationship_key policy_id (relationship_storage_key libs rel) \<noteq> kv_key
     then Inl (StateError ''relationship record differs from its key'')
     else res_bind (orphan_loop libs policy_id new rest) (\<lambda>to_delete.
          Inr (if get_relation new (rel_resource rel) (rel_relation rel) = None then kv_key # to_delete else to_delete)))"

fun delete_keys :: "bytes list \<Rightarrow> unit acp" where
  "delete_keys [] = st_ret ()"
| "delete_keys (key # rest) = st_bind (acp_delete key) (\<lambda>_. delete_keys rest)"

definition edit_policy ::
  "acp_libs \<Rightarrow> did \<Rightarrow> string \<Rightarrow> string \<Rightarrow> policy_marshaling_type \<Rightarrow> (u64 \<times> policy_record) acp" where
  "edit_policy libs creator policy_id policy marshal_type =
     st_bind (st_read (\<lambda>m. get_policy_record libs m policy_id)) (\<lambda>stored.
     st_bind (st_lift (ok_or (AcpPolicyNotFound policy_id) stored)) (\<lambda>existing.
     if md_owner_did (pr_metadata existing) \<noteq> as_str creator
     then st_fail (Unauthorized ''only the policy creator can edit it'')
     else
       st_bind (st_lift (compile_policy libs policy marshal_type 0 (Some (pol_specification (pr_policy existing))))) (\<lambda>compiled.
       st_bind (st_lift (check_preserved (pr_policy existing) compiled)) (\<lambda>_.
       let new_zanzibar = compiled\<lparr>pol_id := policy_id\<rparr> in
       st_bind (st_read (\<lambda>m. orphan_loop libs policy_id new_zanzibar
                               (prefix_scan (am_store m) (relationship_policy_prefix policy_id)))) (\<lambda>to_delete.
       st_bind (delete_keys to_delete) (\<lambda>_.
       let new_record = \<lparr>pr_policy = new_zanzibar, pr_raw_policy = policy, pr_marshal_type = marshal_type,
                         pr_metadata = pr_metadata existing\<rparr> in
       st_bind (set_policy_record libs policy_id new_record) (\<lambda>_.
       st_bind (cache_policy policy_id new_zanzibar) (\<lambda>_.
       st_ret (of_nat (length to_delete), new_record)))))))))"

definition query_policy :: "acp_libs \<Rightarrow> acp_module \<Rightarrow> string \<Rightarrow> acp_error + policy_record" where
  "query_policy libs m i =
     res_bind (get_policy_record libs m i) (\<lambda>stored. ok_or (AcpPolicyNotFound i) stored)"

fun policy_ids_loop :: "acp_libs \<Rightarrow> acp_module \<Rightarrow> nat \<Rightarrow> (bytes \<times> bytes) list \<Rightarrow> acp_error + string list" where
  "policy_ids_loop libs m count [] = Inr []"
| "policy_ids_loop libs m count ((key, _) # rest) =
     (if count = 128
      then Inl (InvalidAccessRequest ''policy listing exceeds limit; use certified prefix pages'')
      else let i = drop (length POLICY_PREFIX) key in
           if length i \<noteq> 64 \<or> \<not> list_all is_lower_hex i then Inl (StateError ''invalid stored policy identifier'')
           else res_bind (get_policy_record libs m i) (\<lambda>_.
                res_bind (policy_ids_loop libs m (count + 1) rest) (\<lambda>ids. Inr (i # ids))))"

definition query_policy_ids :: "acp_libs \<Rightarrow> acp_module \<Rightarrow> acp_error + string list" where
  "query_policy_ids libs m = policy_ids_loop libs m 0 (take 129 (prefix_iter (am_store m) POLICY_PREFIX))"

end
