(* ===== verification/Acp_Commands.thy ===== *)
theory Acp_Commands
  imports Acp_Module
begin

text \<open>
  The policy commands of the ACP module: the handlers of \<open>acp/mod.rs\<close> for relationships, object
  registration, archiving and the reveal of committed registrations, their dispatch
  \<open>direct_policy_cmd\<close>, and \<open>execute_policy_cmd\<close> of \<open>command_context.rs\<close>, which runs a command at a
  finalized revision and stamps what it wrote.
\<close>

section \<open>Registrations\<close>

definition registration_owner_record ::
  "acp_libs \<Rightarrow> acp_module \<Rightarrow> string \<Rightarrow> object \<Rightarrow> acp_error + relationship_record option" where
  "registration_owner_record libs m policy ob =
     (case prefix_iter (am_store m)
             (relationship_storage_prefix policy (acp_relation_prefix libs (obj_resource ob) (obj_id ob) ''owner'')) of
        [] \<Rightarrow> Inr None
      | (key, bs) # entries \<Rightarrow>
          if entries \<noteq> [] then Inl (StateError ''multiple object owner records'')
          else
            res_bind (map_err (\<lambda>e. StateError (''invalid object owner record: '' @ e)) (unjson_relationship libs bs))
              (\<lambda>record.
            case rel_subject (rr_relationship record) of
              Entity actor \<Rightarrow>
                if rr_policy_id record \<noteq> policy
                   \<or> rel_resource (rr_relationship record) \<noteq> obj_resource ob
                   \<or> rel_object_id (rr_relationship record) \<noteq> obj_id ob
                   \<or> rel_relation (rr_relationship record) \<noteq> ''owner''
                   \<or> md_owner_did (rr_metadata record) \<noteq> as_str actor
                   \<or> relationship_storage_prefix policy (relationship_storage_key libs (rr_relationship record)) \<noteq> key
                then Inl (StateError ''object owner record does not match its key'')
                else Inr (Some record)
            | _ \<Rightarrow> Inl (StateError ''object owner must be an actor'')))"

definition query_object_owner ::
  "acp_libs \<Rightarrow> acp_module \<Rightarrow> string \<Rightarrow> object \<Rightarrow> acp_error + bool \<times> relationship_record option" where
  "query_object_owner libs m policy_id ob =
     res_bind (registration_owner_record libs m policy_id ob) (\<lambda>owner_rec.
     case owner_rec of
       Some rec \<Rightarrow> if \<not> rr_archived rec then Inr (True, Some rec) else Inr (False, None)
     | None \<Rightarrow> Inr (False, None))"

definition ensure_object_unregistered :: "acp_libs \<Rightarrow> acp_module \<Rightarrow> string \<Rightarrow> object \<Rightarrow> acp_error + unit" where
  "ensure_object_unregistered libs m policy_id ob =
     (if prefix_iter (am_store m)
           (relationship_storage_prefix policy_id (acp_relation_prefix libs (obj_resource ob) (obj_id ob) ''owner'')) \<noteq> []
      then Inl (ObjectAlreadyRegistered (obj_resource ob) (obj_id ob))
      else Inr ())"

definition validate_registration_object :: "acp_module \<Rightarrow> string \<Rightarrow> object \<Rightarrow> acp_error + unit" where
  "validate_registration_object m policy_id ob =
     res_bind (cached_policy m policy_id) (\<lambda>p.
     if is_actor p (obj_resource ob)
     then Inl (Unauthorized ''actor records cannot be registered as objects'')
     else if get_resource p (obj_resource ob) = None
     then Inl (InvalidAccessRequest (''resource '' @ quote (obj_resource ob) @ '' not defined in policy''))
     else Inr ())"

definition query_generate_commitment ::
  "acp_libs \<Rightarrow> acp_module \<Rightarrow> string \<Rightarrow> object list \<Rightarrow> did \<Rightarrow> acp_error + generate_commitment_result" where
  "query_generate_commitment libs m policy_id objects actor =
     res_bind (validate_commitment_input policy_id objects (as_str actor)) (\<lambda>_.
     if \<not> has_policy_id m policy_id then Inl (AcpPolicyNotFound policy_id)
     else
       res_bind (check_all (\<lambda>ob.
         res_bind (validate_registration_object m policy_id ob) (\<lambda>_.
         ensure_object_unregistered libs m policy_id ob)) objects) (\<lambda>_.
       generate_registration_commitment libs policy_id objects actor))"

definition query_registrations_commitment ::
  "acp_libs \<Rightarrow> acp_module \<Rightarrow> u64 \<Rightarrow> acp_error + registrations_commitment" where
  "query_registrations_commitment libs m i =
     res_bind (get_commitment_by_id libs m i) (\<lambda>stored. ok_or (CommitmentNotFound i) stored)"

definition owner_record :: "string \<Rightarrow> object \<Rightarrow> did \<Rightarrow> relationship_record" where
  "owner_record policy_id ob creator =
     \<lparr>rr_policy_id = policy_id,
      rr_relationship = with_entity (obj_resource ob) (obj_id ob) ''owner'' creator,
      rr_archived = False, rr_metadata = plain_metadata (as_str creator)\<rparr>"

definition cmd_register_object :: "acp_libs \<Rightarrow> did \<Rightarrow> string \<Rightarrow> object \<Rightarrow> policy_cmd_result acp" where
  "cmd_register_object libs creator policy_id ob =
     st_bind (st_read (\<lambda>m. validate_registration_object m policy_id ob)) (\<lambda>_.
     st_bind (st_read (\<lambda>m. ensure_object_unregistered libs m policy_id ob)) (\<lambda>_.
     let record = owner_record policy_id ob creator in
     st_bind (set_relationship libs policy_id (relationship_storage_key libs (rr_relationship record)) record) (\<lambda>_.
     st_ret (RegisterObjectResult record))))"


section \<open>Relationships\<close>

fun manager_loop ::
  "acp_libs \<Rightarrow> acp_module \<Rightarrow> string \<Rightarrow> string \<Rightarrow> string \<Rightarrow> did \<Rightarrow> string list \<Rightarrow> acp_error + bool" where
  "manager_loop libs m policy_id resource object_id creator [] = Inr False"
| "manager_loop libs m policy_id resource object_id creator (managing_relation # rest) =
     res_bind (get_relationship libs m policy_id (with_entity resource object_id managing_relation creator)) (\<lambda>stored.
     case stored of
       Some rec \<Rightarrow> if \<not> rr_archived rec then Inr True
                  else manager_loop libs m policy_id resource object_id creator rest
     | None \<Rightarrow> manager_loop libs m policy_id resource object_id creator rest)"

definition is_authorized_to_manage ::
  "acp_libs \<Rightarrow> acp_module \<Rightarrow> did \<Rightarrow> string \<Rightarrow> policy \<Rightarrow> string \<Rightarrow> string \<Rightarrow> string \<Rightarrow> acp_error + bool" where
  "is_authorized_to_manage libs m creator policy_id p resource object_id relation =
     res_bind (get_policy_record libs m policy_id) (\<lambda>stored.
     if (case stored of Some rec \<Rightarrow> md_owner_did (pr_metadata rec) = as_str creator | None \<Rightarrow> False)
     then Inr True
     else
       res_bind (get_relationship libs m policy_id (with_entity resource object_id ''owner'' creator)) (\<lambda>owner.
       if (case owner of Some rec \<Rightarrow> \<not> rr_archived rec | None \<Rightarrow> False) then Inr True
       else manager_loop libs m policy_id resource object_id creator
              (get_managers_for_relation p resource relation)))"

definition cmd_set_relationship :: "acp_libs \<Rightarrow> did \<Rightarrow> string \<Rightarrow> relationship \<Rightarrow> policy_cmd_result acp" where
  "cmd_set_relationship libs creator policy_id rel =
     st_bind (st_read (\<lambda>m. cached_policy m policy_id)) (\<lambda>p.
     if rel_relation rel = ''owner'' then st_fail (Unauthorized ''the owner relation cannot be set'')
     else
       st_bind (st_lift (if get_relation p (rel_resource rel) (rel_relation rel) \<noteq> None \<or> is_actor p (rel_resource rel)
                         then map_err (\<lambda>e. InvalidAccessRequest (zerror_to_string e)) (relationship_validate rel p)
                         else Inr ())) (\<lambda>_.
       st_bind (st_read (\<lambda>m. is_authorized_to_manage libs m creator policy_id p
                               (rel_resource rel) (rel_object_id rel) (rel_relation rel))) (\<lambda>authorized.
       if \<not> authorized
       then st_fail (Unauthorized (as_str creator @ '' is not authorized to set relation '' @ quote (rel_relation rel)
              @ '' on '' @ quote (rel_resource rel @ ''/'' @ rel_object_id rel)))
       else
         st_bind (st_read (\<lambda>m. get_relationship libs m policy_id rel)) (\<lambda>stored.
         case stored of
           Some record \<Rightarrow> st_ret (SetRelationshipResult True record)
         | None \<Rightarrow>
             let record = \<lparr>rr_policy_id = policy_id, rr_relationship = rel, rr_archived = False,
                           rr_metadata = plain_metadata (as_str creator)\<rparr> in
             st_bind (set_relationship libs policy_id (relationship_storage_key libs rel) record) (\<lambda>_.
             st_ret (SetRelationshipResult False record))))))"

definition cmd_delete_relationship :: "acp_libs \<Rightarrow> did \<Rightarrow> string \<Rightarrow> relationship \<Rightarrow> policy_cmd_result acp" where
  "cmd_delete_relationship libs creator policy_id rel =
     st_bind (st_read (\<lambda>m. cached_policy m policy_id)) (\<lambda>p.
     if rel_relation rel = ''owner'' then st_fail (Unauthorized ''the owner relation cannot be deleted'')
     else
       st_bind (st_read (\<lambda>m. is_authorized_to_manage libs m creator policy_id p
                               (rel_resource rel) (rel_object_id rel) (rel_relation rel))) (\<lambda>authorized.
       if \<not> authorized
       then st_fail (Unauthorized (as_str creator @ '' is not authorized to delete relation '' @ quote (rel_relation rel)
              @ '' on '' @ quote (rel_resource rel @ ''/'' @ rel_object_id rel)))
       else
         st_bind (st_read (\<lambda>m. get_relationship libs m policy_id rel)) (\<lambda>stored.
         st_bind (delete_relationship policy_id (relationship_storage_key libs rel)) (\<lambda>_.
         st_ret (DeleteRelationshipResult (stored \<noteq> None))))))"


section \<open>Archiving\<close>

text \<open>The keys of the relationships of an object, each record checked against its key.\<close>

fun archive_loop :: "acp_libs \<Rightarrow> string \<Rightarrow> object \<Rightarrow> (bytes \<times> bytes) list \<Rightarrow> acp_error + bytes list" where
  "archive_loop libs policy_id ob [] = Inr []"
| "archive_loop libs policy_id ob ((key, bs) # rest) =
     res_bind (map_err (\<lambda>e. StateError (''invalid relationship record: '' @ e)) (unjson_relationship libs bs))
       (\<lambda>record.
     if rr_policy_id record \<noteq> policy_id
        \<or> relationship_key policy_id (relationship_storage_key libs (rr_relationship record)) \<noteq> key
     then Inl (StateError ''relationship record does not match its key'')
     else res_bind (archive_loop libs policy_id ob rest) (\<lambda>ks.
          Inr (if rel_resource (rr_relationship record) = obj_resource ob
                  \<and> rel_object_id (rr_relationship record) = obj_id ob
               then key # ks else ks)))"

definition cmd_archive_object :: "acp_libs \<Rightarrow> did \<Rightarrow> string \<Rightarrow> object \<Rightarrow> policy_cmd_result acp" where
  "cmd_archive_object libs creator policy_id ob =
     st_bind (st_read (\<lambda>m. if has_policy_id m policy_id then Inr () else Inl (AcpPolicyNotFound policy_id))) (\<lambda>_.
     st_bind (st_read (\<lambda>m. registration_owner_record libs m policy_id ob)) (\<lambda>stored.
     st_bind (st_lift (ok_or (ObjectNotRegistered (obj_resource ob) (obj_id ob)) stored)) (\<lambda>owner_rec.
     if rr_archived owner_rec then st_ret (ArchiveObjectResult True 0)
     else if md_owner_did (rr_metadata owner_rec) \<noteq> as_str creator
     then st_fail (Unauthorized (as_str creator @ '' is not the owner of '' @ quote (obj_resource ob @ ''/'' @ obj_id ob)))
     else
       st_bind (st_read (\<lambda>m. archive_loop libs policy_id ob (prefix_iter (am_store m)
                  (relationship_storage_prefix policy_id (acp_object_prefix libs (obj_resource ob) (obj_id ob)))))) (\<lambda>ks.
       st_bind (delete_keys ks) (\<lambda>_.
       let owner_rec' = owner_rec\<lparr>rr_archived := True\<rparr> in
       st_bind (set_relationship libs policy_id (relationship_storage_key libs (rr_relationship owner_rec')) owner_rec') (\<lambda>_.
       st_ret (ArchiveObjectResult True (of_nat (length ks)))))))))"

definition cmd_unarchive_object :: "acp_libs \<Rightarrow> did \<Rightarrow> string \<Rightarrow> object \<Rightarrow> policy_cmd_result acp" where
  "cmd_unarchive_object libs creator policy_id ob =
     st_bind (st_read (\<lambda>m. if has_policy_id m policy_id then Inr () else Inl (AcpPolicyNotFound policy_id))) (\<lambda>_.
     st_bind (st_read (\<lambda>m. registration_owner_record libs m policy_id ob)) (\<lambda>stored.
     st_bind (st_lift (ok_or (ObjectNotRegistered (obj_resource ob) (obj_id ob)) stored)) (\<lambda>rec.
     if md_owner_did (rr_metadata rec) \<noteq> as_str creator
     then st_fail (Unauthorized (as_str creator @ '' is not the previous owner of ''
            @ quote (obj_resource ob @ ''/'' @ obj_id ob)))
     else
       let rec' = rec\<lparr>rr_archived := False\<rparr> in
       st_bind (acp_put (relationship_storage_prefix policy_id (relationship_storage_key libs (rr_relationship rec')))
                  (json_relationship libs rec')) (\<lambda>_.
       st_ret (UnarchiveObjectResult rec' (rr_archived rec))))))"



section \<open>Commitments and reveals\<close>

definition cmd_commit_registrations :: "acp_libs \<Rightarrow> did \<Rightarrow> string \<Rightarrow> bytes \<Rightarrow> policy_cmd_result acp" where
  "cmd_commit_registrations libs creator policy_id commitment =
     st_bind (st_read (\<lambda>m. if has_policy_id m policy_id then Inr () else Inl (AcpPolicyNotFound policy_id))) (\<lambda>_.
     if length commitment \<noteq> 32
     then st_fail (InvalidProof (''commitment must be exactly 32 bytes, got '' @ show_nat (length commitment)))
     else
       st_bind (st_read (get_params libs)) (\<lambda>params.
       st_bind (create_commitment libs
                  \<lparr>rc_id = 0, rc_policy_id = policy_id, rc_commitment = commitment, rc_expired = False,
                   rc_validity = ap_registrations_commitment_validity params,
                   rc_metadata = plain_metadata (as_str creator)\<rparr>) (\<lambda>reg_commitment.
       st_ret (CommitRegistrationsResult reg_commitment))))"

text \<open>The transfer of a registered object to the actor of an earlier commitment.\<close>

definition amend_registration ::
  "acp_libs \<Rightarrow> did \<Rightarrow> string \<Rightarrow> u64 \<Rightarrow> registrations_commitment \<Rightarrow> object \<Rightarrow> relationship_record \<Rightarrow>
     policy_cmd_result acp" where
  "amend_registration libs creator policy_id commitment_id commitment ob existing =
     (if ts_block_height (md_creation_ts (rc_metadata commitment))
           > ts_block_height (md_creation_ts (rr_metadata existing))
      then st_fail (InvalidProof ''commitment is newer than the existing registration; cannot amend'')
      else
        st_bind (st_lift (map_err (\<lambda>_. StateError ''stored owner DID is invalid'')
                            (did_new (md_owner_did (rr_metadata existing))))) (\<lambda>previous_owner_did.
        let record = owner_record policy_id ob creator in
        st_bind (create_amendment_event libs
                   \<lparr>ae_id = 0, ae_policy_id = policy_id, ae_object = ob, ae_new_owner = creator,
                    ae_previous_owner = previous_owner_did, ae_commitment_id = commitment_id, ae_hijack_flag = False,
                    ae_metadata = plain_metadata (as_str creator)\<rparr>) (\<lambda>event.
        st_bind (delete_relationship policy_id (relationship_storage_key libs (rr_relationship existing))) (\<lambda>_.
        st_bind (set_relationship libs policy_id (relationship_storage_key libs (rr_relationship record)) record) (\<lambda>_.
        st_ret (RevealRegistrationResult record (Some event)))))))"

definition cmd_reveal_registration ::
  "acp_libs \<Rightarrow> did \<Rightarrow> string \<Rightarrow> u64 \<Rightarrow> registration_proof \<Rightarrow> policy_cmd_result acp" where
  "cmd_reveal_registration libs creator policy_id commitment_id proof =
     st_bind (st_read (\<lambda>m. validate_registration_object m policy_id (rp_object proof))) (\<lambda>_.
     st_bind (st_read (\<lambda>m. get_commitment_by_id libs m commitment_id)) (\<lambda>stored.
     st_bind (st_lift (ok_or (CommitmentNotFound commitment_id) stored)) (\<lambda>commitment.
     if rc_expired commitment then st_fail (CommitmentExpired commitment_id)
     else if rc_policy_id commitment \<noteq> policy_id
     then st_fail (InvalidProof ''registration commitment belongs to another policy'')
     else
       st_bind (st_lift (registration_leaf libs policy_id (rp_object proof) (as_str creator))) (\<lambda>leaf_data.
       if \<not> verify_merkle_proof libs (rc_commitment commitment) proof leaf_data
       then st_fail (InvalidProof ''Merkle proof verification failed'')
       else
         st_bind (st_read (\<lambda>m. query_object_owner libs m policy_id (rp_object proof))) (\<lambda>(already_registered, existing_owner).
         if \<not> already_registered
         then
           st_bind (st_read (\<lambda>m. ensure_object_unregistered libs m policy_id (rp_object proof))) (\<lambda>_.
           let record = owner_record policy_id (rp_object proof) creator in
           st_bind (set_relationship libs policy_id (relationship_storage_key libs (rr_relationship record)) record) (\<lambda>_.
           st_ret (RevealRegistrationResult record None)))
         else amend_registration libs creator policy_id commitment_id commitment (rp_object proof)
                (the existing_owner))))))"

definition cmd_flag_hijack_attempt :: "acp_libs \<Rightarrow> did \<Rightarrow> string \<Rightarrow> u64 \<Rightarrow> policy_cmd_result acp" where
  "cmd_flag_hijack_attempt libs creator policy_id event_id =
     st_bind (st_read (\<lambda>m. get_amendment_event_by_id libs m event_id)) (\<lambda>stored.
     st_bind (st_lift (ok_or (StateError (''amendment event '' @ show_nat (unat event_id) @ '' not found'')) stored)) (\<lambda>event.
     if ae_policy_id event \<noteq> policy_id then st_fail (Unauthorized ''amendment event belongs to another policy'')
     else if as_str (ae_new_owner event) \<noteq> as_str creator
     then st_fail (Unauthorized ''only the new owner can flag a hijack attempt'')
     else
       let event' = event\<lparr>ae_hijack_flag := True\<rparr> in
       st_bind (update_amendment_event libs event') (\<lambda>_.
       st_ret (FlagHijackAttemptResult event'))))"


section \<open>Dispatch\<close>

fun command_object_id :: "policy_cmd \<Rightarrow> string option" where
  "command_object_id (SetRelationship rel) = Some (rel_object_id rel)"
| "command_object_id (DeleteRelationship rel) = Some (rel_object_id rel)"
| "command_object_id (RegisterObject ob) = Some (obj_id ob)"
| "command_object_id (ArchiveObject ob) = Some (obj_id ob)"
| "command_object_id (UnarchiveObject ob) = Some (obj_id ob)"
| "command_object_id (RevealRegistration i proof) = Some (obj_id (rp_object proof))"
| "command_object_id (CommitRegistrations c) = None"
| "command_object_id (FlagHijackAttempt i) = None"

fun run_command :: "acp_libs \<Rightarrow> did \<Rightarrow> string \<Rightarrow> policy_cmd \<Rightarrow> policy_cmd_result acp" where
  "run_command libs creator policy_id (SetRelationship rel) = cmd_set_relationship libs creator policy_id rel"
| "run_command libs creator policy_id (DeleteRelationship rel) = cmd_delete_relationship libs creator policy_id rel"
| "run_command libs creator policy_id (RegisterObject ob) = cmd_register_object libs creator policy_id ob"
| "run_command libs creator policy_id (ArchiveObject ob) = cmd_archive_object libs creator policy_id ob"
| "run_command libs creator policy_id (UnarchiveObject ob) = cmd_unarchive_object libs creator policy_id ob"
| "run_command libs creator policy_id (CommitRegistrations c) = cmd_commit_registrations libs creator policy_id c"
| "run_command libs creator policy_id (RevealRegistration i proof) = cmd_reveal_registration libs creator policy_id i proof"
| "run_command libs creator policy_id (FlagHijackAttempt i) = cmd_flag_hijack_attempt libs creator policy_id i"

definition direct_policy_cmd :: "acp_libs \<Rightarrow> did \<Rightarrow> string \<Rightarrow> policy_cmd \<Rightarrow> policy_cmd_result acp" where
  "direct_policy_cmd libs creator policy_id cmd =
     (if command_object_id cmd = Some [] then st_fail (InvalidAccessRequest ''object ID must not be empty'')
      else run_command libs creator policy_id cmd)"

definition update_params :: "did \<Rightarrow> acp_params \<Rightarrow> unit acp" where
  "update_params authority params = st_fail (Unauthorized ''operator approvals are required'')"


section \<open>Execution at a revision\<close>

definition submission_metadata :: "did \<Rightarrow> block_exec_ctx \<Rightarrow> tx_exec_ctx \<Rightarrow> record_metadata" where
  "submission_metadata actor block submission =
     \<lparr>md_creation_ts = bx_timestamp block, md_tx_hash = tx_hash submission, md_tx_signer = tx_signer submission,
      md_owner_did = as_str actor\<rparr>"

definition commitment_due :: "timestamp \<Rightarrow> registrations_commitment \<Rightarrow> bool" where
  "commitment_due now c =
     (case rc_validity c of
        Seconds delta \<Rightarrow> ts_seconds now > saturating_add (ts_seconds (md_creation_ts (rc_metadata c))) delta
      | Blocks delta \<Rightarrow> ts_block_height now > saturating_add (ts_block_height (md_creation_ts (rc_metadata c))) delta)"

text \<open>The metadata a command's records get: those of the submission, but a revealed registration has the
  revision of its commitment, which is its priority.\<close>

fun command_metadata ::
  "acp_libs \<Rightarrow> did \<Rightarrow> policy_cmd \<Rightarrow> block_exec_ctx \<Rightarrow> tx_exec_ctx \<Rightarrow> acp_module \<Rightarrow> acp_error + record_metadata" where
  "command_metadata libs actor (RevealRegistration commitment_id proof) block submission m =
     res_bind (get_commitment_by_id libs m commitment_id) (\<lambda>stored.
     res_bind (ok_or (CommitmentNotFound commitment_id) stored) (\<lambda>commitment.
     let issued = md_creation_ts (rc_metadata commitment) in
     if ts_block_height issued = 0 \<or> ts_block_height issued > ts_block_height (bx_timestamp block)
        \<or> ts_seconds issued > ts_seconds (bx_timestamp block)
     then Inl (StateError ''invalid registration commitment revision'')
     else if rc_expired commitment \<or> commitment_due (bx_timestamp block) commitment
     then Inl (CommitmentExpired (rc_id commitment))
     else Inr ((submission_metadata actor block submission)\<lparr>md_creation_ts := issued\<rparr>)))"
| "command_metadata libs actor _ block submission m = Inr (submission_metadata actor block submission)"

definition stamp_relationship ::
  "acp_libs \<Rightarrow> string \<Rightarrow> relationship_record \<Rightarrow> record_metadata \<Rightarrow> relationship_record acp" where
  "stamp_relationship libs policy_id record metadata =
     (let record' = record\<lparr>rr_metadata := metadata\<rparr> in
      st_bind (set_relationship libs policy_id (relationship_storage_key libs (rr_relationship record')) record') (\<lambda>_.
      st_ret record'))"

fun stamp_result ::
  "acp_libs \<Rightarrow> string \<Rightarrow> record_metadata \<Rightarrow> record_metadata \<Rightarrow> policy_cmd_result \<Rightarrow> policy_cmd_result acp" where
  "stamp_result libs policy_id metadata event_metadata (RegisterObjectResult record) =
     st_bind (stamp_relationship libs policy_id record metadata) (\<lambda>record'. st_ret (RegisterObjectResult record'))"
| "stamp_result libs policy_id metadata event_metadata (SetRelationshipResult False record) =
     st_bind (stamp_relationship libs policy_id record metadata) (\<lambda>record'. st_ret (SetRelationshipResult False record'))"
| "stamp_result libs policy_id metadata event_metadata (CommitRegistrationsResult commitment) =
     (let commitment' = commitment\<lparr>rc_metadata := metadata\<rparr> in
      st_bind (update_commitment libs commitment') (\<lambda>_. st_ret (CommitRegistrationsResult commitment')))"
| "stamp_result libs policy_id metadata event_metadata (RevealRegistrationResult record event) =
     st_bind (stamp_relationship libs policy_id record metadata) (\<lambda>record'.
     case event of
       None \<Rightarrow> st_ret (RevealRegistrationResult record' None)
     | Some ev \<Rightarrow>
         let ev' = ev\<lparr>ae_metadata := event_metadata\<rparr> in
         st_bind (update_amendment_event libs ev') (\<lambda>_. st_ret (RevealRegistrationResult record' (Some ev'))))"
| "stamp_result libs policy_id metadata event_metadata result = st_ret result"

definition execute_policy_cmd ::
  "acp_libs \<Rightarrow> did \<Rightarrow> string \<Rightarrow> policy_cmd \<Rightarrow> block_exec_ctx \<Rightarrow> tx_exec_ctx \<Rightarrow> policy_cmd_result acp" where
  "execute_policy_cmd libs actor policy_id command block submission =
     (if ts_block_height (bx_timestamp block) = 0 \<or> length (tx_hash submission) \<noteq> 32 \<or> tx_signer submission = []
      then st_fail (StateError ''invalid policy command execution context'')
      else
        st_bind (st_read (command_metadata libs actor command block submission)) (\<lambda>metadata.
        st_bind (direct_policy_cmd libs actor policy_id command) (\<lambda>result.
        stamp_result libs policy_id metadata (submission_metadata actor block submission) result)))"

end
