(* ===== verification/Acp_Atomicity.thy ===== *)
theory Acp_Atomicity
  imports Acp_Commands
begin

text \<open>
  A policy command that fails leaves the module as it was. Every handler reads and checks before it
  writes, and its writes do not fail; \<open>execute_policy_cmd\<close> re-encodes a commitment or an event after the
  handler has written it, which succeeds when the encoders do.
\<close>

lemma acp_write_rules [clean_rules]:
  "never_fails (acp_put k v)" "never_fails (acp_delete k)" "never_fails (cache_policy i p)"
  by (simp_all add: acp_put_def acp_delete_def cache_policy_def never_fails_basic)

lemma set_relationship_rules [clean_rules]:
  "never_fails (set_relationship libs pid k rec)" "never_fails (delete_relationship pid k)"
  "never_fails (set_policy_record libs i p)"
  by (simp_all add: set_relationship_def delete_relationship_def set_policy_record_def acp_write_rules)

lemma delete_keys_rule [clean_rules]: "never_fails (delete_keys ks)"
proof (induction ks)
  case Nil
  show ?case unfolding delete_keys.simps by (rule clean_rules)
next
  case (Cons k ks)
  then show ?case unfolding delete_keys.simps by (intro clean_rules)
qed

lemma clean_split:
  "(b \<Longrightarrow> fails_clean x) \<Longrightarrow> (\<not> b \<Longrightarrow> fails_clean y) \<Longrightarrow> fails_clean (if b then x else y)"
  "(r = None \<Longrightarrow> fails_clean x) \<Longrightarrow> (\<And>v. r = Some v \<Longrightarrow> fails_clean (g v)) \<Longrightarrow>
     fails_clean (case r of None \<Rightarrow> x | Some v \<Rightarrow> g v)"
  by (simp_all split: option.split)

lemmas clean_read = fails_clean_read [OF reads_only_intros(4)] fails_clean_read [OF reads_only_intros(3)]

lemmas clean_leaf = reads_only_clean [OF reads_only_intros(1)] reads_only_clean [OF reads_only_intros(2)]
  reads_only_clean [OF reads_only_intros(3)] reads_only_clean [OF reads_only_intros(4)]

lemmas clean_writes = never_fails_clean fails_clean_write

lemma register_clean: "fails_clean (cmd_register_object libs creator pid ob)"
  unfolding cmd_register_object_def Let_def
  by (intro clean_read never_fails_clean clean_rules)

lemma set_clean: "fails_clean (cmd_set_relationship libs creator pid rel)"
  unfolding cmd_set_relationship_def Let_def
  by (intro clean_read clean_split clean_leaf never_fails_clean clean_rules)

lemma delete_clean: "fails_clean (cmd_delete_relationship libs creator pid rel)"
  unfolding cmd_delete_relationship_def
  by (intro clean_read clean_split clean_leaf never_fails_clean clean_rules)

lemma archive_clean: "fails_clean (cmd_archive_object libs creator pid ob)"
  unfolding cmd_archive_object_def Let_def
  by (intro clean_read clean_split clean_leaf never_fails_clean clean_rules)

lemma unarchive_clean: "fails_clean (cmd_unarchive_object libs creator pid ob)"
  unfolding cmd_unarchive_object_def Let_def
  by (intro clean_read clean_split clean_leaf never_fails_clean clean_rules)


lemma never_split:
  "(b \<Longrightarrow> never_fails x) \<Longrightarrow> (\<not> b \<Longrightarrow> never_fails y) \<Longrightarrow> never_fails (if b then x else y)"
  "(r = None \<Longrightarrow> never_fails x) \<Longrightarrow> (\<And>v. r = Some v \<Longrightarrow> never_fails (g v)) \<Longrightarrow>
     never_fails (case r of None \<Rightarrow> x | Some v \<Rightarrow> g v)"
  by (simp_all split: option.split)

lemma update_commitment_clean: "fails_clean (update_commitment libs c)"
  unfolding update_commitment_def
  by (intro clean_read never_fails_clean never_split clean_rules)

lemma create_commitment_clean: "fails_clean (create_commitment libs c)"
  unfolding create_commitment_def Let_def
  by (intro clean_read fails_clean_write update_commitment_clean clean_rules)

lemma commit_clean: "fails_clean (cmd_commit_registrations libs creator pid c)"
  unfolding cmd_commit_registrations_def
  by (intro clean_read clean_split clean_leaf fails_clean_write create_commitment_clean clean_rules)

lemma create_event_clean: "fails_clean (create_amendment_event libs e)"
  unfolding create_amendment_event_def Let_def
  by (intro clean_read clean_split clean_leaf never_fails_clean clean_rules)

lemma update_event_clean: "fails_clean (update_amendment_event libs e)"
  unfolding update_amendment_event_def by (intro clean_read never_fails_clean clean_rules)

lemma amend_clean: "fails_clean (amend_registration libs creator pid i c ob existing)"
  unfolding amend_registration_def Let_def
  by (intro clean_read clean_split clean_leaf fails_clean_write create_event_clean clean_rules)

lemma reveal_clean: "fails_clean (cmd_reveal_registration libs creator pid i proof)"
  unfolding cmd_reveal_registration_def Let_def case_prod_unfold
  by (intro clean_read clean_split clean_leaf never_fails_clean amend_clean clean_rules)

lemma flag_clean: "fails_clean (cmd_flag_hijack_attempt libs creator pid i)"
  unfolding cmd_flag_hijack_attempt_def Let_def
  by (intro clean_read clean_split clean_leaf fails_clean_write update_event_clean clean_rules)

lemma run_command_clean: "fails_clean (run_command libs creator pid cmd)"
  by (cases cmd) (simp_all only: run_command.simps register_clean set_clean delete_clean archive_clean unarchive_clean
      commit_clean reveal_clean flag_clean)

lemma direct_clean: "fails_clean (direct_policy_cmd libs creator pid cmd)"
  unfolding direct_policy_cmd_def by (intro clean_split clean_leaf run_command_clean)



section \<open>Stamping the result\<close>

lemma acp_write_runs [simp]:
  "acp_put k v m = (Inr (), m\<lparr>am_store := kv_put k v (am_store m)\<rparr>)"
  "acp_delete k m = (Inr (), m\<lparr>am_store := kv_delete k (am_store m)\<rparr>)"
  "cache_policy i p m = (Inr (), m\<lparr>am_policies := ord_insert i p (am_policies m)\<rparr>)"
  by (simp_all add: acp_put_def acp_delete_def cache_policy_def)

lemma update_event_ok:
  "event_codec_ok libs \<Longrightarrow> never_fails (update_amendment_event libs e)"
proof -
  assume "event_codec_ok libs"
  then obtain bs where "borsh_event libs e = Inr bs" by (auto simp: event_codec_ok_def)
  then have "update_amendment_event libs e = acp_put (amendment_event_key (ae_id e)) bs"
    by (simp add: update_amendment_event_def fun_eq_iff st_bind_def)
  then show ?thesis by (simp add: clean_rules)
qed

lemma stamp_relationship_ok [clean_rules]: "never_fails (stamp_relationship libs pid rec md)"
  unfolding stamp_relationship_def Let_def by (intro clean_rules)

lemma stamp_never_fails:
  assumes "event_codec_ok libs" and "\<forall>c. r \<noteq> CommitRegistrationsResult c"
  shows "never_fails (stamp_result libs pid md emd r)"
proof (cases r)
  case (SetRelationshipResult existed rec)
  then show ?thesis
    by (cases existed) (simp_all only: stamp_result.simps clean_rules)
next
  case (RevealRegistrationResult rec ev)
  then show ?thesis unfolding RevealRegistrationResult stamp_result.simps Let_def
    by (intro clean_rules never_split update_event_ok assms(1))
qed (use assms(2) in \<open>simp_all only: stamp_result.simps clean_rules\<close>)

lemma counter_keys_apart [simp]:
  "commitment_key i \<noteq> commitment_counter_key" "commitment_key i = commitment_key j \<longleftrightarrow> i = j"
  "commitment_key i \<noteq> commitment_by_commitment_index_key r j" "commitment_key i \<noteq> commitment_expiry_key c"
  by (simp_all add: commitment_key_def commitment_counter_key_def key_simps commitment_by_commitment_index_key_def
      commitment_by_commitment_index_prefix_def commitment_expiry_key_def expiry_prefix_def SECONDS_PREFIX_def
      HEIGHT_PREFIX_def split: duration.splits)

lemma update_commitment_run:
  assumes "update_commitment libs c m = (Inr u, m')" and "kv_wf (am_store m)"
  shows "kv_wf (am_store m') \<and> (\<exists>bs. borsh_commitment libs c = Inr bs \<and> kv_view (am_store m') (commitment_key (rc_id c)) = Some bs)"
  using assms
  by (auto simp: update_commitment_def result_simps split: option.splits if_splits)

lemma create_commitment_run:
  assumes "create_commitment libs c m = (Inr c', m')" and "kv_wf (am_store m)"
  shows "kv_wf (am_store m') \<and> rc_id c' \<noteq> 0 \<and> (\<exists>i. c' = c\<lparr>rc_id := i\<rparr>) \<and>
    (\<exists>bs. borsh_commitment libs c' = Inr bs \<and> kv_view (am_store m') (commitment_key (rc_id c')) = Some bs)"
proof -
  from assms(1) obtain counter i m1 where i: "checked_add counter 1 = Some i"
    and upd: "update_commitment libs (c\<lparr>rc_id := i\<rparr>) m = (Inr (), m1)"
    and c': "c' = c\<lparr>rc_id := i\<rparr>" and m': "m' = m1\<lparr>am_store := kv_put commitment_counter_key (to_be_bytes i) (am_store m1)\<rparr>"
    by (auto simp: create_commitment_def Let_def result_simps)
  from i have "unat i = unat counter + 1" by (simp add: checked_add_Some)
  then have "i \<noteq> 0" by (auto simp: unat_eq_0 [symmetric])
  with update_commitment_run [OF upd assms(2)] c' m' show ?thesis by auto
qed

lemma stamp_commit_ok:
  assumes "commitment_codec_ok libs" and "kv_wf (am_store m)"
    and "cmd_commit_registrations libs creator pid root m = (Inr r, m')"
  shows "is_ok (fst (stamp_result libs pid md emd r m'))"
proof -
  from assms(3) obtain c0 c where create: "create_commitment libs c0 m = (Inr c, m')" and r: "r = CommitRegistrationsResult c"
    and len: "length (rc_commitment c0) = 32"
    by (fastforce simp: cmd_commit_registrations_def result_simps split: if_splits)
  from create_commitment_run [OF create assms(2)] obtain bs where c: "rc_id c \<noteq> 0" "borsh_commitment libs c = Inr bs"
    "kv_view (am_store m') (commitment_key (rc_id c)) = Some bs" "\<exists>i. c = c0\<lparr>rc_id := i\<rparr>" by blast
  from assms(1) c(2) have dec: "unborsh_commitment libs bs = Inr c" unfolding commitment_codec_ok_def by (metis sum.inject(2))
  from c(4) len have "length (rc_commitment c) = 32" by auto
  with c dec have get: "get_commitment_by_id libs m' (rc_id c) = Inr (Some c)" by (simp add: get_commitment_by_id_def)
  obtain bs' where "borsh_commitment libs (c\<lparr>rc_metadata := md\<rparr>) = Inr bs'"
    using assms(1) by (auto simp: commitment_codec_ok_def)
  with get r show ?thesis
    by (simp add: update_commitment_def st_bind_def Let_def)
qed

lemma stamp_ok:
  assumes "commitment_codec_ok libs" and "event_codec_ok libs" and "kv_wf (am_store m)"
    and "direct_policy_cmd libs creator pid cmd m = (Inr r, m')"
  shows "is_ok (fst (stamp_result libs pid md emd r m'))"
proof (cases "\<exists>c. r = CommitRegistrationsResult c")
  case True
  with assms(4) obtain root where "cmd_commit_registrations libs creator pid root m = (Inr r, m')"
    by (cases cmd) (auto simp: direct_policy_cmd_def cmd_set_relationship_def cmd_delete_relationship_def
        cmd_register_object_def cmd_archive_object_def cmd_unarchive_object_def cmd_reveal_registration_def
        amend_registration_def cmd_flag_hijack_attempt_def result_simps Let_def split: if_splits option.splits)
  from stamp_commit_ok [OF assms(1,3) this] show ?thesis .
next
  case False
  then show ?thesis using stamp_never_fails [OF assms(2)] by (auto simp: never_fails_def)
qed

text \<open>C28. Policy commands are atomic: when \<open>execute_policy_cmd\<close> returns an error, whichever of its checks or
  of the handlers' checks raised it, the module is exactly as it was, including the change tracking of its
  store. The Borsh codecs of commitments and events are assumed to round-trip.\<close>

theorem failed_command_changes_nothing:
  assumes "commitment_codec_ok libs" and "event_codec_ok libs" and "kv_wf (am_store m)"
    and "execute_policy_cmd libs actor pid cmd block submission m = (Inl e, m')"
  shows "m' = m"
proof -
  have "m' = m" if md: "command_metadata libs actor cmd block submission m = Inr md"
    and run: "st_bind (direct_policy_cmd libs actor pid cmd)
      (stamp_result libs pid md (submission_metadata actor block submission)) m = (Inl e, m')" for md
  proof -
    from run consider "direct_policy_cmd libs actor pid cmd m = (Inl e, m')"
      | r m1 where "direct_policy_cmd libs actor pid cmd m = (Inr r, m1)"
          "stamp_result libs pid md (submission_metadata actor block submission) r m1 = (Inl e, m')"
      by (auto simp: result_simps)
    then show ?thesis
    proof cases
      case 1
      then show ?thesis by (rule fails_cleanD [OF direct_clean])
    next
      case 2
      with stamp_ok [OF assms(1-3) 2(1), of md "submission_metadata actor block submission"] show ?thesis by simp
    qed
  qed
  with assms(4) show ?thesis
    by (auto simp: execute_policy_cmd_def st_bind_Inl [of "st_read _"] split: if_splits)
qed


definition x_block :: block_exec_ctx where
  "x_block = \<lparr>bx_genesis_id = [], bx_deployment_id = 7, bx_timestamp = \<lparr>ts_seconds = 1000, ts_block_height = 5\<rparr>\<rparr>"

definition x_tx :: tx_exec_ctx where
  "x_tx = \<lparr>tx_sequence = 3, tx_hash = replicate 32 (CHR 0x07), tx_signer = ''did:key:w''\<rparr>"

theorem failed_command_changes_nothing_witness:
  "execute_policy_cmd demo_libs (Did ''did:key:o'') ''p'' (CommitRegistrations ''short'') x_block x_tx
     \<lparr>am_store = kv_default, am_policies = [(''p'', demo_policy)]\<rparr> =
   (Inl (InvalidProof ''commitment must be exactly 32 bytes, got 5''), \<lparr>am_store = kv_default, am_policies = [(''p'', demo_policy)]\<rparr>)"
proof -
  let ?m = "\<lparr>am_store = kv_default, am_policies = [(''p'', demo_policy)]\<rparr>"
  let ?run = "execute_policy_cmd demo_libs (Did ''did:key:o'') ''p'' (CommitRegistrations ''short'') x_block x_tx ?m"
  have e: "fst ?run = Inl (InvalidProof ''commitment must be exactly 32 bytes, got 5'')"
    by (simp add: execute_policy_cmd_def x_block_def x_tx_def direct_policy_cmd_def cmd_commit_registrations_def
        has_policy_id_def st_bind_def show_nat.simps)
  have wf: "kv_wf (am_store ?m)" by simp
  have "?run = (Inl (InvalidProof ''commitment must be exactly 32 bytes, got 5''), snd ?run)"
    using e by (metis prod.collapse)
  from failed_command_changes_nothing [OF demo_codecs(2,3) wf this] e show ?thesis by (metis prod.collapse)
qed

end
