(* ===== verification/Deadline_Index.thy ===== *)
theory Deadline_Index
  imports Machine_Int Module_Kv
begin

text \<open>
  Ordered deadline indexes. The operation ledger, the registration commitments and the bearer tokens
  all keep one: an entry per pending record under a common prefix, whose key continues with the
  big-endian deadline, so that the store lists the entries by deadline, and a block takes a bounded
  batch from the front. The locale states what such an index promises, the lemmas what a batch removes
  and that repeated batches reach every record that is due.
\<close>

section \<open>Batches of a sorted queue\<close>

definition due :: "('r \<Rightarrow> u64) \<Rightarrow> nat \<Rightarrow> 'r \<Rightarrow> bool" where
  "due dead b r \<longleftrightarrow> unat (dead r) < b"

lemma takeWhile_take: "takeWhile P (take n xs) = take n (takeWhile P xs)"
  by (induction xs arbitrary: n) (auto simp: take_Cons split: nat.splits)

lemma due_front:
  assumes "sorted (map dead rs)"
  shows "takeWhile (due dead b) rs = filter (due dead b) rs"
  using assms
proof (induction rs)
  case (Cons r rs)
  show ?case
  proof (cases "due dead b r")
    case True
    with Cons show ?thesis by simp
  next
    case False
    then have "\<not> due dead b r'" if "r' \<in> set rs" for r'
      using Cons.prems that by (auto simp: due_def word_le_nat_alt)
    with False show ?thesis by (simp add: filter_empty_conv)
  qed
qed simp

lemma due_mono: "due dead b0 r \<Longrightarrow> b0 \<le> b \<Longrightarrow> due dead b r"
  by (simp add: due_def)

lemma filter_due_due:
  assumes "sorted (map dead rs)" and "b0 \<le> b"
  shows "filter (due dead b0) rs = takeWhile (due dead b0) (filter (due dead b) rs)"
proof -
  have "sorted (map dead (filter (due dead b) rs))"
    using assms(1) by (simp add: sorted_map sorted_wrt_filter)
  then have "takeWhile (due dead b0) (filter (due dead b) rs) = filter (due dead b0) (filter (due dead b) rs)"
    by (rule due_front)
  also have "\<dots> = filter (due dead b0) rs"
    using assms(2) by (auto intro: filter_cong simp: due_def)
  finally show ?thesis by simp
qed

text \<open>A batch of at most \<open>n\<close> due records leaves all but the first \<open>n\<close> of those due at an earlier bound.\<close>

lemma batch_rest:
  assumes "sorted (map dead rs)" and "distinct rs" and "b0 \<le> b"
  shows "{r \<in> set rs - set (take n (filter (due dead b) rs)). due dead b0 r} =
         set (drop n (filter (due dead b0) rs))"
proof -
  let ?d = "filter (due dead b) rs" and ?early = "filter (due dead b0) rs"
  have tw: "?early = takeWhile (due dead b0) ?d" by (rule filter_due_due [OF assms(1,3)])
  have "take n ?early = take n (takeWhile (due dead b0) ?d)" by (rule arg_cong [OF tw])
  also have "\<dots> = takeWhile (due dead b0) (take n ?d)" by (rule takeWhile_take [symmetric])
  also have "\<dots> = filter (due dead b0) (take n ?d)"
  proof (rule due_front)
    have "sorted (map dead ?d)" using assms(1) by (simp add: sorted_map sorted_wrt_filter)
    then show "sorted (map dead (take n ?d))" by (simp add: take_map [symmetric] sorted_wrt_take)
  qed
  finally have front: "take n ?early = filter (due dead b0) (take n ?d)" .
  have "distinct ?early" using assms(2) by simp
  then have "set (drop n ?early) = set ?early - set (take n ?early)"
    by (metis Diff_cancel Diff_triv Un_Diff Un_empty_left append_take_drop_id distinct_append inf_commute set_append)
  also have "\<dots> = {r \<in> set rs. due dead b0 r} - {r \<in> set (take n ?d). due dead b0 r}"
    unfolding front by auto
  also have "\<dots> = {r \<in> set rs - set (take n ?d). due dead b0 r}" by auto
  finally show ?thesis by simp
qed

lemma batch_card:
  assumes "sorted (map dead rs)" and "distinct rs" and "b0 \<le> b"
  shows "card {r \<in> set rs - set (take n (filter (due dead b) rs)). due dead b0 r} =
         card {r \<in> set rs. due dead b0 r} - n"
proof -
  have "card {r \<in> set rs. due dead b0 r} = length (filter (due dead b0) rs)"
    using assms(2) distinct_card [of "filter (due dead b0) rs"] by simp
  moreover have "card (set (drop n (filter (due dead b0) rs))) = length (filter (due dead b0) rs) - n"
    using assms(2) distinct_card [of "drop n (filter (due dead b0) rs)"] by simp
  ultimately show ?thesis unfolding batch_rest [OF assms] by simp
qed


section \<open>The index\<close>

text \<open>Keys under one prefix are ordered by their deadlines first.\<close>

lemma deadline_order:
  assumes "pre @ to_be_bytes d @ i < pre @ to_be_bytes d' @ i'"
  shows "d \<le> d'"
proof (rule ccontr)
  assume "\<not> d \<le> d'"
  then have lt: "to_be_bytes d' < to_be_bytes d" by simp
  have "to_be_bytes d' @ i' < to_be_bytes d @ i"
  proof -
    have "x < y \<Longrightarrow> length x = length y \<Longrightarrow> x @ u < y @ v" for x y u v :: bytes
    proof (induction x arbitrary: y)
      case (Cons c x)
      then show ?case by (cases y) auto
    qed simp
    from this [OF lt] show ?thesis by simp
  qed
  moreover have "x < y \<Longrightarrow> p @ x < p @ y" for p x y :: bytes
    by (induction p) auto
  ultimately have "pre @ to_be_bytes d' @ i' < pre @ to_be_bytes d @ i" by blast
  with assms show False by auto
qed

locale deadline_index =
  fixes pre :: bytes
    and dead :: "'r \<Rightarrow> u64"
    and ident :: "'r \<Rightarrow> bytes"
    and mark :: "'r \<Rightarrow> bytes"
    and pending :: "kv_store \<Rightarrow> 'r set"
    and good :: "kv_store \<Rightarrow> bool"
  assumes ordered: "good s \<Longrightarrow> kv_wf s"
    and listed: "good s \<Longrightarrow> kv_view s k = Some v \<and> prefix pre k \<longleftrightarrow>
      (\<exists>r \<in> pending s. k = pre @ to_be_bytes (dead r) @ ident r \<and> v = mark r)"
    and separate: "good s \<Longrightarrow> r \<in> pending s \<Longrightarrow> r' \<in> pending s \<Longrightarrow>
      dead r = dead r' \<Longrightarrow> ident r = ident r' \<Longrightarrow> r = r'"
begin

abbreviation entry :: "'r \<Rightarrow> bytes \<times> bytes" where
  "entry r \<equiv> (pre @ to_be_bytes (dead r) @ ident r, mark r)"

lemma entry_inj: "good s \<Longrightarrow> inj_on entry (pending s)"
  by (auto simp: inj_on_def intro: separate)

text \<open>The store lists the pending records once each, ordered by deadline.\<close>

lemma queue:
  assumes "good s"
  obtains rs where "prefix_iter s pre = map entry rs" and "set rs = pending s" and "distinct rs"
    and "sorted (map dead rs)"
proof -
  have "set (prefix_iter s pre) = entry ` pending s"
    using prefix_iter_set [OF ordered [OF assms]] listed [OF assms] by (auto simp: image_iff) blast
  then obtain rs where rs: "prefix_iter s pre = map entry rs" "set rs \<subseteq> pending s"
  proof -
    assume a: "\<And>rs. prefix_iter s pre = map entry rs \<Longrightarrow> set rs \<subseteq> pending s \<Longrightarrow> thesis"
      and e: "set (prefix_iter s pre) = entry ` pending s"
    from e have "\<forall>x \<in> set (prefix_iter s pre). \<exists>r. r \<in> pending s \<and> x = entry r" by auto
    then obtain f where f: "\<And>x. x \<in> set (prefix_iter s pre) \<Longrightarrow> f x \<in> pending s \<and> x = entry (f x)"
      by metis
    have "prefix_iter s pre = map entry (map f (prefix_iter s pre))"
      unfolding map_map by (rule map_idI [symmetric]) (use f in simp)
    moreover have "set (map f (prefix_iter s pre)) \<subseteq> pending s" using f by auto
    ultimately show thesis by (rule a)
  qed
  have "pending s \<subseteq> set rs"
  proof
    fix r assume r: "r \<in> pending s"
    have "entry r \<in> set (prefix_iter s pre)"
      using prefix_iter_set [OF ordered [OF assms]] listed [OF assms] r by blast
    then obtain r' where "r' \<in> set rs" "entry r = entry r'" using rs(1) by auto
    then show "r \<in> set rs" using inj_onD [OF entry_inj [OF assms]] r rs(2) by blast
  qed
  with rs(2) have all: "set rs = pending s" by blast
  have keys: "sorted_wrt (\<lambda>r r'. fst (entry r) < fst (entry r')) rs"
    using prefix_iter_sorted [OF ordered [OF assms], of pre] unfolding rs(1) by (simp add: sorted_wrt_map)
  have "sorted_wrt (\<lambda>r r'. dead r \<le> dead r') rs"
    by (rule sorted_wrt_mono_rel [OF _ keys]) (auto dest: deadline_order)
  then have "sorted (map dead rs)" by (simp add: sorted_map)
  moreover have "distinct (map entry rs)"
    using prefix_iter_sorted [OF ordered [OF assms], of pre] unfolding rs(1) [symmetric]
    by (metis distinct_map strict_sorted_iff)
  then have "distinct rs" by (simp add: distinct_map)
  ultimately show thesis using that rs(1) all by blast
qed

text \<open>The batch: the due records among the first \<open>n\<close>, and the count of due records it leaves.\<close>

lemma batch:
  assumes "good s"
  obtains rs where "prefix_iter s pre = map entry rs" and "set rs = pending s" and "distinct rs"
    and "takeWhile (due dead b) (take n rs) = take n (filter (due dead b) rs)"
    and "\<forall>b0 \<le> b.
      card {r \<in> pending s - set (take n (filter (due dead b) rs)). due dead b0 r} =
      card {r \<in> pending s. due dead b0 r} - n"
proof -
  obtain rs where rs: "prefix_iter s pre = map entry rs" "set rs = pending s" "distinct rs"
    "sorted (map dead rs)"
    by (rule queue [OF assms])
  have "takeWhile (due dead b) (take n rs) = take n (filter (due dead b) rs)"
    by (simp add: takeWhile_take due_front [OF rs(4)])
  moreover have "card {r \<in> pending s - set (take n (filter (due dead b) rs)). due dead b0 r} =
      card {r \<in> pending s. due dead b0 r} - n" if "b0 \<le> b" for b0
    using batch_card [OF rs(4,3) that, of n] unfolding rs(2) .
  ultimately show thesis using that rs by blast
qed

end

end
