(* ===== verification/Acp_Ledger.thy ===== *)
theory Acp_Ledger
  imports Vera_Types Acp_Atomicity Deadline_Index
begin

text \<open>
  The operation ledger of the ACP module (\<open>acp/operation.rs\<close>): the outcomes of delegated operations,
  retained until the deadline in their identity and within a byte budget, with an index ordered by
  deadline from which the end of every block prunes a bounded batch. \<open>ledger_ok\<close> is its invariant.
\<close>

section \<open>Operations\<close>

definition OPERATION_PREFIX :: bytes where "OPERATION_PREFIX = ''operation/v1/''"
definition OPERATION_EXPIRY_PREFIX :: bytes where "OPERATION_EXPIRY_PREFIX = ''operation-expiry/v1/''"
definition BYTES_KEY :: bytes where "BYTES_KEY = ''operation-bytes/v1''"
definition BUDGET_KEY :: bytes where "BUDGET_KEY = ''operation-budget/v1''"
definition DEFAULT_OPERATION_BYTES :: u64 where "DEFAULT_OPERATION_BYTES = 67108864"
definition MAX_OPERATION_RECORD_BYTES :: nat where "MAX_OPERATION_RECORD_BYTES = 1048576"
definition OPERATION_PRUNE_LIMIT :: nat where "OPERATION_PRUNE_LIMIT = 128"

lemmas ledger_consts = OPERATION_PREFIX_def OPERATION_EXPIRY_PREFIX_def BYTES_KEY_def BUDGET_KEY_def

definition operation_key :: "vera_libs \<Rightarrow> string \<Rightarrow> bytes \<Rightarrow> acp_error + bytes" where
  "operation_key vl actor i =
     res_bind (map_err (\<lambda>e. StateError (identity_error_to_string e)) (did_new actor)) (\<lambda>_.
     res_bind (if starts_with actor ''did:key:''
               then map_err (\<lambda>e. StateError (jwt_error_to_string e)) (canonical_issuer (jwt_codecs vl) actor)
               else Inr actor) (\<lambda>actor'.
     Inr (OPERATION_PREFIX @ vera_sha vl (''vera/operation-actor/v1'' @ [CHR 0x00] @ actor') @ i)))"

definition operation_expiry_key :: "bytes \<Rightarrow> bytes \<Rightarrow> bytes" where
  "operation_expiry_key i key = OPERATION_EXPIRY_PREFIX @ take 8 i @ drop (length OPERATION_PREFIX) key"

definition operation_budget :: "acp_module \<Rightarrow> acp_error + u64" where
  "operation_budget m =
     (case get_ref (am_store m) BUDGET_KEY of
        None \<Rightarrow> Inr DEFAULT_OPERATION_BYTES
      | Some bs \<Rightarrow> ok_or (StateError ''invalid operation storage budget'') (from_be_bytes bs))"

definition operation_bytes :: "acp_module \<Rightarrow> acp_error + u64" where
  "operation_bytes m =
     (case get_ref (am_store m) BYTES_KEY of
        None \<Rightarrow> Inr 0
      | Some bs \<Rightarrow> ok_or (StateError ''invalid operation storage counter'') (from_be_bytes bs))"

definition set_operation_budget :: "u64 \<Rightarrow> unit acp" where
  "set_operation_budget bs =
     st_bind (st_read (\<lambda>m.
       if bs < of_nat MAX_OPERATION_RECORD_BYTES
       then Inl (StateError ''operation budget is below the record limit or retained usage'')
       else res_bind (operation_bytes m) (\<lambda>retained.
            if bs < retained
            then Inl (StateError ''operation budget is below the record limit or retained usage'')
            else Inr ()))) (\<lambda>_.
     acp_put BUDGET_KEY (to_be_bytes bs))"

definition get_operation :: "vera_libs \<Rightarrow> acp_module \<Rightarrow> string \<Rightarrow> bytes \<Rightarrow> acp_error + operation_record option" where
  "get_operation vl m actor i =
     res_bind (operation_key vl actor i) (\<lambda>key.
     case kv_get (am_store m) key of
       None \<Rightarrow> Inr None
     | Some bs \<Rightarrow> res_bind (map_err StateError (unjson_operation vl bs)) (\<lambda>record. Inr (Some record)))"

definition complete_operation :: "vera_libs \<Rightarrow> string \<Rightarrow> operation_record \<Rightarrow> unit acp" where
  "complete_operation vl actor record =
     st_bind (st_lift (operation_key vl actor (or_id record))) (\<lambda>key.
     st_bind (st_lift (map_err StateError (json_operation vl record))) (\<lambda>bs.
     if length bs > MAX_OPERATION_RECORD_BYTES
     then st_fail (StateError ''operation outcome exceeds the record limit'')
     else
       st_bind (st_read operation_bytes) (\<lambda>used.
       st_bind (st_lift (ok_or (StateError ''operation storage counter overflow'')
                           (checked_add used (of_nat (length bs))))) (\<lambda>retained.
       st_bind (st_read operation_budget) (\<lambda>budget.
       if retained > budget then st_fail (StateError ''operation outcome storage budget reached'')
       else
         st_bind (acp_put key bs) (\<lambda>_.
         st_bind (acp_put (operation_expiry_key (or_id record) key) key) (\<lambda>_.
         acp_put BYTES_KEY (to_be_bytes retained))))))))"

fun prune_loop ::
  "acp_module \<Rightarrow> u64 \<Rightarrow> u64 \<Rightarrow> (bytes \<times> bytes) list \<Rightarrow> acp_error + u64 \<times> (bytes \<times> bytes) list" where
  "prune_loop m now removed [] = Inr (removed, [])"
| "prune_loop m now removed ((index, key) # rest) =
     (let e = length OPERATION_EXPIRY_PREFIX; r = length OPERATION_PREFIX in
      if length index < e + 8 then Inl (StateError ''invalid operation expiry index'')
      else let expiry = take 8 (drop e index) in
      if expiry > to_be_bytes now then Inr (removed, [])
      else if length index \<noteq> e + 72 \<or> length key \<noteq> r + 64 \<or> \<not> starts_with key OPERATION_PREFIX
        \<or> drop (e + 8) index \<noteq> drop r key \<or> expiry \<noteq> take 8 (drop (r + 32) key)
      then Inl (StateError ''invalid operation expiry entry'')
      else
        res_bind (ok_or (StateError ''operation outcome missing from expiry index'') (get_ref (am_store m) key)) (\<lambda>record.
        res_bind (ok_or (StateError ''operation storage counter overflow'')
                    (checked_add removed (of_nat (length record)))) (\<lambda>removed'.
        res_bind (prune_loop m now removed' rest) (\<lambda>(total, expired).
        Inr (total, (index, key) # expired)))))"

fun delete_pairs :: "(bytes \<times> bytes) list \<Rightarrow> unit acp" where
  "delete_pairs [] = st_ret ()"
| "delete_pairs ((index, key) # rest) =
     st_bind (acp_delete key) (\<lambda>_. st_bind (acp_delete index) (\<lambda>_. delete_pairs rest))"

definition prune_operations :: "u64 \<Rightarrow> unit acp" where
  "prune_operations now =
     st_bind (st_read (\<lambda>m. prune_loop m now 0
                (take OPERATION_PRUNE_LIMIT (prefix_iter (am_store m) OPERATION_EXPIRY_PREFIX)))) (\<lambda>(removed, expired).
     if expired = [] then st_ret ()
     else
       st_bind (st_read operation_bytes) (\<lambda>used.
       st_bind (st_lift (ok_or (StateError ''operation storage counter underflow'') (checked_sub used removed))) (\<lambda>retained.
       st_bind (delete_pairs expired) (\<lambda>_.
       acp_put BYTES_KEY (to_be_bytes retained)))))"

definition end_blocker :: "acp_libs \<Rightarrow> block_exec_ctx \<Rightarrow> registrations_commitment list acp" where
  "end_blocker libs block =
     st_bind (prune_operations (ts_seconds (bx_timestamp block))) (\<lambda>_.
     expire_commitments libs (bx_timestamp block))"


section \<open>The invariant\<close>

text \<open>The retained outcomes, by key; the deadline and the identity their index entries carry.\<close>

definition retained_keys :: "kv_store \<Rightarrow> bytes set" where
  "retained_keys s = {k. prefix OPERATION_PREFIX k \<and> kv_view s k \<noteq> None}"

definition op_ident :: "bytes \<Rightarrow> bytes" where
  "op_ident k = drop (length OPERATION_PREFIX) k"

definition op_dead :: "bytes \<Rightarrow> u64" where
  "op_dead k = operation_expires_at (drop 32 (op_ident k))"

definition op_index :: "bytes \<Rightarrow> bytes" where
  "op_index k = OPERATION_EXPIRY_PREFIX @ to_be_bytes (op_dead k) @ op_ident k"

definition record_size :: "kv_store \<Rightarrow> bytes \<Rightarrow> nat" where
  "record_size s k = length (the (kv_view s k))"

definition ledger_index :: "kv_store \<Rightarrow> bool" where
  "ledger_index s \<longleftrightarrow> kv_wf s \<and>
     (\<forall>k \<in> retained_keys s. length k = length OPERATION_PREFIX + 64) \<and>
     (\<forall>i v. kv_view s i = Some v \<and> prefix OPERATION_EXPIRY_PREFIX i \<longleftrightarrow> v \<in> retained_keys s \<and> i = op_index v)"

definition ledger_ok :: "acp_module \<Rightarrow> bool" where
  "ledger_ok m \<longleftrightarrow> ledger_index (am_store m) \<and>
     (\<exists>used budget. operation_bytes m = Inr used \<and> operation_budget m = Inr budget \<and>
        unat used = (\<Sum>k \<in> retained_keys (am_store m). record_size (am_store m) k) \<and> used \<le> budget)"

lemma finite_view: "finite (dom (kv_view s))"
  by (simp add: kv_view_def finite_dom_map_of)

lemma finite_retained [simp]: "finite (retained_keys s)"
  by (rule finite_subset [OF _ finite_view [of s]]) (auto simp: retained_keys_def dom_def)

lemma retained_key_parts:
  assumes "prefix OPERATION_PREFIX k"
  shows "k = OPERATION_PREFIX @ op_ident k"
  using assms by (auto simp: op_ident_def prefix_def)

text \<open>The index of the ledger is a deadline index over the keys of the retained outcomes.\<close>

interpretation lq: deadline_index OPERATION_EXPIRY_PREFIX op_dead op_ident "\<lambda>k. k" retained_keys ledger_index
proof
  fix s k v r r'
  assume good: "ledger_index s"
  then show "kv_wf s" by (simp add: ledger_index_def)
  show "kv_view s k = Some v \<and> prefix OPERATION_EXPIRY_PREFIX k \<longleftrightarrow>
      (\<exists>r \<in> retained_keys s. k = OPERATION_EXPIRY_PREFIX @ to_be_bytes (op_dead r) @ op_ident r \<and> v = r)"
    using good by (auto simp: ledger_index_def op_index_def)
  assume "r \<in> retained_keys s" "r' \<in> retained_keys s" "op_ident r = op_ident r'"
  then show "r = r'" using retained_key_parts by (auto simp: retained_keys_def) metis
qed


section \<open>Pruning\<close>

lemma zones_apart [simp]:
  "\<not> prefix OPERATION_PREFIX (op_index k)" "\<not> prefix OPERATION_PREFIX BYTES_KEY" "\<not> prefix OPERATION_PREFIX BUDGET_KEY"
  "\<not> prefix OPERATION_EXPIRY_PREFIX BYTES_KEY" "\<not> prefix OPERATION_EXPIRY_PREFIX BUDGET_KEY"
  "prefix OPERATION_EXPIRY_PREFIX (op_index k)" "BYTES_KEY \<noteq> BUDGET_KEY" "op_index k \<noteq> BYTES_KEY" "op_index k \<noteq> BUDGET_KEY"
  by (simp_all add: op_index_def ledger_consts)

lemma op_zones:
  "prefix OPERATION_PREFIX k \<Longrightarrow> \<not> prefix OPERATION_EXPIRY_PREFIX k"
  "prefix OPERATION_PREFIX k \<Longrightarrow> k \<noteq> BYTES_KEY \<and> k \<noteq> BUDGET_KEY"
  by (auto simp: ledger_consts prefix_def)

lemma op_index_inj: "prefix OPERATION_PREFIX k \<Longrightarrow> prefix OPERATION_PREFIX k' \<Longrightarrow> op_index k = op_index k' \<longleftrightarrow> k = k'"
  using retained_key_parts [of k] retained_key_parts [of k'] by (auto simp: op_index_def)

lemma to_be_bytes_nat_be: "length bs = 8 \<Longrightarrow> to_be_bytes (of_nat (nat_be bs)) = bs"
  by (rule to_from_be_bytes) (simp add: from_be_bytes_def)

lemma op_dead_bytes:
  assumes "length k = length OPERATION_PREFIX + 64"
  shows "to_be_bytes (op_dead k) = take 8 (drop (length OPERATION_PREFIX + 32) k)"
proof -
  have "length (take 8 (drop 32 (op_ident k))) = 8" using assms by (simp add: op_ident_def)
  then show ?thesis unfolding op_dead_def operation_expires_at_def
    by (simp add: to_be_bytes_nat_be op_ident_def add.commute)
qed

abbreviation op_due :: "u64 \<Rightarrow> bytes \<Rightarrow> bool" where
  "op_due now \<equiv> due op_dead (Suc (unat now))"

lemma prune_loop_run:
  assumes "ledger_index (am_store m)" and "set rs \<subseteq> retained_keys (am_store m)"
    and "unat removed + sum_list (map (record_size (am_store m)) (takeWhile (op_due now) rs)) < 2 ^ 64"
  shows "\<exists>total. prune_loop m now removed (map (\<lambda>k. (op_index k, k)) rs) =
      Inr (total, map (\<lambda>k. (op_index k, k)) (takeWhile (op_due now) rs)) \<and>
    unat total = unat removed + sum_list (map (record_size (am_store m)) (takeWhile (op_due now) rs))"
  using assms(2,3)
proof (induction rs arbitrary: removed)
  case (Cons k rs)
  have k: "prefix OPERATION_PREFIX k" "length k = length OPERATION_PREFIX + 64"
    using Cons.prems(1) assms(1) by (auto simp: ledger_index_def retained_keys_def)
  obtain bs where bs: "kv_view (am_store m) k = Some bs" using Cons.prems(1) by (auto simp: retained_keys_def)
  have ident: "length (op_ident k) = 64" using k(2) by (simp add: op_ident_def)
  have idx: "length (op_index k) = length OPERATION_EXPIRY_PREFIX + 72"
    "take 8 (drop (length OPERATION_EXPIRY_PREFIX) (op_index k)) = to_be_bytes (op_dead k)"
    "drop (length OPERATION_EXPIRY_PREFIX + 8) (op_index k) = drop (length OPERATION_PREFIX) k"
    using ident by (simp_all add: op_index_def op_ident_def)
  show ?case
  proof (cases "op_due now k")
    case False
    then have "to_be_bytes now < to_be_bytes (op_dead k)" by (auto simp: due_def word_less_nat_alt)
    with False idx show ?thesis by simp
  next
    case True
    then have le: "\<not> to_be_bytes now < to_be_bytes (op_dead k)" by (auto simp: due_def word_less_nat_alt)
    have size: "record_size (am_store m) k = length bs" using bs by (simp add: record_size_def)
    let ?rest = "sum_list (map (record_size (am_store m)) (takeWhile (op_due now) rs))"
    have sum: "unat removed + length bs + ?rest < 2 ^ 64" using Cons.prems(2) True size by simp
    let ?r = "removed + of_nat (length bs)"
    have lb: "unat (of_nat (length bs) :: u64) = length bs" using sum by (simp add: unsigned_of_nat take_bit_nat_eq_self)
    have r: "unat ?r = unat removed + length bs" using sum lb by (simp add: unat_word_ariths)
    then have add: "checked_add removed (of_nat (length bs)) = Some ?r"
      using lb by (simp add: checked_add_Some del: of_nat_add)
    from Cons.IH [of ?r] Cons.prems(1) sum r obtain total where
      IH: "prune_loop m now ?r (map (\<lambda>k. (op_index k, k)) rs) =
        Inr (total, map (\<lambda>k. (op_index k, k)) (takeWhile (op_due now) rs))"
        "unat total = unat ?r + ?rest" by auto
    have "prune_loop m now removed (map (\<lambda>k. (op_index k, k)) (k # rs)) =
        Inr (total, (op_index k, k) # map (\<lambda>k. (op_index k, k)) (takeWhile (op_due now) rs))"
      using idx le k op_dead_bytes [OF k(2)] bs add IH(1) by (simp add: Let_def starts_with_def)
    moreover have "unat total = unat removed + sum_list (map (record_size (am_store m)) (takeWhile (op_due now) (k # rs)))"
      using IH(2) r True size by simp
    ultimately show ?thesis using True by auto
  qed
qed simp

lemma delete_pairs_run:
  assumes "kv_wf (am_store m)"
  shows "\<exists>m'. delete_pairs ps m = (Inr (), m') \<and> kv_wf (am_store m') \<and> am_policies m' = am_policies m \<and>
    kv_view (am_store m') = (\<lambda>k. if k \<in> fst ` set ps \<union> snd ` set ps then None else kv_view (am_store m) k)"
  using assms
proof (induction ps arbitrary: m)
  case (Cons p ps)
  obtain i k where p: "p = (i, k)" by fastforce
  let ?m = "m\<lparr>am_store := kv_delete i (kv_delete k (am_store m))\<rparr>"
  have "kv_wf (am_store ?m)" using Cons.prems by simp
  from Cons.IH [OF this] obtain m' where m': "delete_pairs ps ?m = (Inr (), m')" "kv_wf (am_store m')"
    "am_policies m' = am_policies m"
    "kv_view (am_store m') = (\<lambda>k. if k \<in> fst ` set ps \<union> snd ` set ps then None else kv_view (am_store ?m) k)"
    by auto
  have "delete_pairs (p # ps) m = (Inr (), m')" using m'(1) by (simp add: p st_bind_def)
  moreover have "kv_view (am_store m') =
      (\<lambda>x. if x \<in> fst ` set (p # ps) \<union> snd ` set (p # ps) then None else kv_view (am_store m) x)"
    unfolding m'(4) by (auto simp: p)
  ultimately show ?case using m'(2,3) by blast
qed (simp add: fun_eq_iff)


text \<open>The ledger depends on the keys of its own zone only.\<close>

definition OPERATION_ZONE :: bytes where "OPERATION_ZONE = ''operation''"

lemma operation_zone [simp]:
  "prefix OPERATION_PREFIX k \<Longrightarrow> prefix OPERATION_ZONE k" "prefix OPERATION_EXPIRY_PREFIX k \<Longrightarrow> prefix OPERATION_ZONE k"
  "prefix OPERATION_ZONE BYTES_KEY" "prefix OPERATION_ZONE BUDGET_KEY" "prefix OPERATION_ZONE (op_index k)"
  by (auto simp: OPERATION_ZONE_def ledger_consts op_index_def prefix_def)

lemma ledger_ok_zone:
  assumes "ledger_ok m" and "kv_wf (am_store m')"
    and "\<And>k. prefix OPERATION_ZONE k \<Longrightarrow> kv_view (am_store m') k = kv_view (am_store m) k"
  shows "ledger_ok m' \<and> retained_keys (am_store m') = retained_keys (am_store m)"
proof -
  have keys: "retained_keys (am_store m') = retained_keys (am_store m)"
    using assms(3) by (auto simp: retained_keys_def)
  have "record_size (am_store m') k = record_size (am_store m) k" if "k \<in> retained_keys (am_store m)" for k
    using that assms(3) by (simp add: record_size_def retained_keys_def)
  then have "(\<Sum>k \<in> retained_keys (am_store m). record_size (am_store m') k) =
      (\<Sum>k \<in> retained_keys (am_store m). record_size (am_store m) k)"
    by (simp cong: sum.cong)
  moreover have "kv_view (am_store m') i = Some v \<and> prefix OPERATION_EXPIRY_PREFIX i \<longleftrightarrow>
      kv_view (am_store m) i = Some v \<and> prefix OPERATION_EXPIRY_PREFIX i" for i v
    using assms(3) by auto
  moreover have "operation_bytes m' = operation_bytes m" "operation_budget m' = operation_budget m"
    using assms(3) by (simp_all add: operation_bytes_def operation_budget_def)
  ultimately show ?thesis using assms(1,2) keys by (simp add: ledger_ok_def ledger_index_def)
qed

lemma ledger_shrink:
  assumes ok: "ledger_ok m" and sub: "B \<subseteq> retained_keys (am_store m)" and wf: "kv_wf (am_store m')"
    and view: "kv_view (am_store m') = (\<lambda>k. if k \<in> B \<union> op_index ` B then None else kv_view (am_store m) k)
      (BYTES_KEY \<mapsto> to_be_bytes left)"
    and count: "unat left = (\<Sum>k \<in> retained_keys (am_store m) - B. record_size (am_store m) k)"
  shows "ledger_ok m' \<and> retained_keys (am_store m') = retained_keys (am_store m) - B"
proof -
  let ?R = "retained_keys (am_store m)"
  obtain used budget where c: "operation_bytes m = Inr used" "operation_budget m = Inr budget"
    "unat used = (\<Sum>k \<in> ?R. record_size (am_store m) k)" "used \<le> budget"
    and ix: "ledger_index (am_store m)"
    using ok by (auto simp: ledger_ok_def)
  have B: "prefix OPERATION_PREFIX k" if "k \<in> ?R" for k using that by (simp add: retained_keys_def)
  have noB: "\<not> prefix OPERATION_PREFIX k" if "k \<in> op_index ` B" for k using that by auto
  have keys: "retained_keys (am_store m') = ?R - B"
    using op_zones noB by (auto simp: retained_keys_def view)
  have size: "record_size (am_store m') k = record_size (am_store m) k" if "k \<in> ?R - B" for k
  proof -
    have "prefix OPERATION_PREFIX k" using that B by blast
    then have "k \<notin> op_index ` B" "k \<noteq> BYTES_KEY" using noB op_zones(2) by blast+
    with that show ?thesis by (simp add: record_size_def view)
  qed
  have idx: "kv_view (am_store m') i = Some v \<and> prefix OPERATION_EXPIRY_PREFIX i \<longleftrightarrow> v \<in> ?R - B \<and> i = op_index v" for i v
  proof -
    have old: "kv_view (am_store m) i = Some v \<and> prefix OPERATION_EXPIRY_PREFIX i \<longleftrightarrow> v \<in> ?R \<and> i = op_index v"
      using ix by (simp add: ledger_index_def)
    have "i \<noteq> BYTES_KEY" "i \<notin> B" if "prefix OPERATION_EXPIRY_PREFIX i"
      using that sub op_zones(1) B by auto
    moreover have "op_index v \<in> op_index ` B \<longleftrightarrow> v \<in> B" if "v \<in> ?R"
      using that sub op_index_inj B by blast
    ultimately show ?thesis using old by (auto simp: view)
  qed
  have "unat left \<le> unat used"
    unfolding count c(3) by (rule sum_mono2) auto
  then have "left \<le> budget" using c(4) by (simp add: word_le_nat_alt)
  moreover have "BUDGET_KEY \<notin> B" "BUDGET_KEY \<notin> op_index ` B"
    using sub B by (auto dest: B [OF subsetD [OF sub]] simp: zones_apart(9) [symmetric])
  then have "operation_budget m' = Inr budget"
    using c(2) by (simp add: operation_budget_def view zones_apart(7) [symmetric])
  moreover have "unat left = (\<Sum>k \<in> ?R - B. record_size (am_store m') k)"
    unfolding count using size by (intro sum.cong) auto
  ultimately show ?thesis
    using wf ix keys idx by (auto simp: ledger_ok_def ledger_index_def operation_bytes_def view)
qed

text \<open>What pruning selects: the first due outcomes, at most 128, with their total size.\<close>

lemma prune_selects:
  assumes ix: "ledger_index (am_store m)"
    and fits: "(\<Sum>k \<in> retained_keys (am_store m). record_size (am_store m) k) < 2 ^ 64"
  obtains B total where
    "prune_loop m now 0 (take OPERATION_PRUNE_LIMIT (prefix_iter (am_store m) OPERATION_EXPIRY_PREFIX)) =
      Inr (total, map (\<lambda>k. (op_index k, k)) B)"
    and "unat total = (\<Sum>k \<in> set B. record_size (am_store m) k)"
    and "set B \<subseteq> {k \<in> retained_keys (am_store m). op_due now k}"
    and "\<forall>b \<le> Suc (unat now). card {k \<in> retained_keys (am_store m) - set B. due op_dead b k} =
      card {k \<in> retained_keys (am_store m). due op_dead b k} - OPERATION_PRUNE_LIMIT"
proof -
  let ?s = "am_store m" and ?n = OPERATION_PRUNE_LIMIT
  obtain rs where rs: "prefix_iter ?s OPERATION_EXPIRY_PREFIX = map lq.entry rs"
    "set rs = retained_keys ?s" "distinct rs"
    "takeWhile (op_due now) (take ?n rs) = take ?n (filter (op_due now) rs)"
    "\<forall>b \<le> Suc (unat now). card {k \<in> retained_keys ?s - set (take ?n (filter (op_due now) rs)). due op_dead b k} =
      card {k \<in> retained_keys ?s. due op_dead b k} - ?n"
    by (rule lq.batch [OF ix, where b = "Suc (unat now)" and n = ?n]) (rule that)
  have entry: "lq.entry = (\<lambda>k. (op_index k, k))" by (simp add: op_index_def)
  define B where "B = take ?n (filter (op_due now) rs)"
  have sub: "set B \<subseteq> {k \<in> retained_keys ?s. op_due now k}"
    unfolding B_def using rs(2) by (auto dest: in_set_takeD)
  have sum: "sum_list (map (record_size ?s) B) = (\<Sum>k \<in> set B. record_size ?s k)"
    unfolding B_def using rs(3) by (simp add: sum.distinct_set_conv_list)
  have "(\<Sum>k \<in> set B. record_size ?s k) \<le> (\<Sum>k \<in> retained_keys ?s. record_size ?s k)"
    using sub by (intro sum_mono2) auto
  then have bound: "unat (0 :: u64) + sum_list (map (record_size ?s) (takeWhile (op_due now) (take ?n rs))) < 2 ^ 64"
    using sum fits unfolding rs(4) B_def [symmetric] by simp
  have "set (take ?n rs) \<subseteq> retained_keys ?s" using rs(2) by (auto dest: in_set_takeD)
  from prune_loop_run [OF ix this bound] obtain total where
    "prune_loop m now 0 (map (\<lambda>k. (op_index k, k)) (take ?n rs)) = Inr (total, map (\<lambda>k. (op_index k, k)) B)"
    "unat total = (\<Sum>k \<in> set B. record_size ?s k)"
    using sum unfolding rs(4) B_def [symmetric] by auto
  moreover have "take ?n (prefix_iter ?s OPERATION_EXPIRY_PREFIX) = map (\<lambda>k. (op_index k, k)) (take ?n rs)"
    unfolding rs(1) entry by (rule take_map)
  ultimately show thesis using sub rs(5) [folded B_def] by (intro that [of total B]) simp_all
qed

text \<open>Pruning always succeeds: it removes the first due outcomes, at most 128, and nothing else.\<close>

lemma prune_run:
  assumes ok: "ledger_ok m"
  obtains m' B where "prune_operations now m = (Inr (), m')" and "ledger_ok m'" and "am_policies m' = am_policies m"
    and "retained_keys (am_store m') = retained_keys (am_store m) - B"
    and "B \<subseteq> {k \<in> retained_keys (am_store m). op_due now k}"
    and "\<And>k. \<not> prefix OPERATION_ZONE k \<Longrightarrow> kv_view (am_store m') k = kv_view (am_store m) k"
    and "\<forall>b \<le> Suc (unat now). card {k \<in> retained_keys (am_store m) - B. due op_dead b k} =
      card {k \<in> retained_keys (am_store m). due op_dead b k} - OPERATION_PRUNE_LIMIT"
proof -
  let ?s = "am_store m"
  let ?R = "retained_keys ?s"
  obtain used where c: "operation_bytes m = Inr used" "unat used = (\<Sum>k \<in> ?R. record_size ?s k)"
    and ix: "ledger_index ?s"
    using ok by (auto simp: ledger_ok_def)
  have "(\<Sum>k \<in> ?R. record_size ?s k) < 2 ^ 64" using u64_bound [of used] c(2) by simp
  then obtain B total where loop: "prune_loop m now 0
      (take OPERATION_PRUNE_LIMIT (prefix_iter ?s OPERATION_EXPIRY_PREFIX)) = Inr (total, map (\<lambda>k. (op_index k, k)) B)"
    and total: "unat total = (\<Sum>k \<in> set B. record_size ?s k)" and sub: "set B \<subseteq> {k \<in> ?R. op_due now k}"
    and rest: "\<forall>b \<le> Suc (unat now). card {k \<in> ?R - set B. due op_dead b k} =
      card {k \<in> ?R. due op_dead b k} - OPERATION_PRUNE_LIMIT"
    by (rule prune_selects [OF ix, where now = now]) (rule that)
  show thesis
  proof (cases "B = []")
    case True
    then have run: "prune_operations now m = (Inr (), m)" using loop by (simp add: prune_operations_def st_bind_def)
    show thesis using that [OF run ok refl, of "set B"] rest True by simp
  next
    case False
    have le: "unat total \<le> unat used" unfolding total c(2) using sub by (intro sum_mono2) auto
    then have sub': "checked_sub used total = Some (used - total)" by (simp add: checked_sub_def word_le_nat_alt)
    have wf: "kv_wf ?s" using ix by (simp add: ledger_index_def)
    obtain m1 where m1: "delete_pairs (map (\<lambda>k. (op_index k, k)) B) m = (Inr (), m1)" "kv_wf (am_store m1)"
      "am_policies m1 = am_policies m"
      "kv_view (am_store m1) = (\<lambda>k. if k \<in> set B \<union> op_index ` set B then None else kv_view ?s k)"
      using delete_pairs_run [OF wf, of "map (\<lambda>k. (op_index k, k)) B"] by (auto simp: image_image Un_commute)
    let ?m = "m1\<lparr>am_store := kv_put BYTES_KEY (to_be_bytes (used - total)) (am_store m1)\<rparr>"
    have run: "prune_operations now m = (Inr (), ?m)"
      using loop c(1) sub' m1(1) False by (simp add: prune_operations_def st_bind_def)
    have left: "unat (used - total) = (\<Sum>k \<in> ?R - set B. record_size ?s k)"
    proof -
      have "set B \<subseteq> ?R" using sub by blast
      then have "(\<Sum>k \<in> ?R - set B. record_size ?s k) = unat used - unat total"
        unfolding c(2) total by (intro sum_diff_nat) auto
      then show ?thesis using le by (simp add: unat_sub word_le_nat_alt)
    qed
    have shrunk: "ledger_ok ?m \<and> retained_keys (am_store ?m) = ?R - set B"
      by (rule ledger_shrink [OF ok _ _ _ left]) (use sub m1(2,4) in auto)
    have frame: "kv_view (am_store ?m) k = kv_view ?s k" if out: "\<not> prefix OPERATION_ZONE k" for k
    proof -
      have "k \<notin> set B" using out sub by (auto simp: retained_keys_def)
      moreover have "k \<notin> op_index ` set B" "k \<noteq> BYTES_KEY" using out by auto
      ultimately show ?thesis using m1(2,4) by simp
    qed
    show thesis using that [OF run conjunct1 [OF shrunk] _ conjunct2 [OF shrunk] sub frame rest] m1(3) by simp
  qed
qed


section \<open>Recording outcomes\<close>

lemma operation_key_shape:
  assumes "operation_key vl actor i = Inr key" and "\<forall>bs. length (vera_sha vl bs) = 32" and "length i = 32"
  shows "prefix OPERATION_PREFIX key" and "length key = length OPERATION_PREFIX + 64" and "drop 32 (op_ident key) = i"
  using assms by (auto simp: operation_key_def op_ident_def)

lemma expiry_key_index:
  assumes "prefix OPERATION_PREFIX key" and "drop 32 (op_ident key) = i" and "length i = 32"
  shows "operation_expiry_key i key = op_index key"
proof -
  have "to_be_bytes (op_dead key) = take 8 i"
    using assms(2,3) by (simp add: op_dead_def operation_expires_at_def to_be_bytes_nat_be)
  then show ?thesis by (simp add: operation_expiry_key_def op_index_def op_ident_def)
qed

lemma complete_parts:
  assumes "complete_operation vl actor record m = (Inr u, m')"
  obtains key bs used budget retained where
    "operation_key vl actor (or_id record) = Inr key" "json_operation vl record = Inr bs"
    "length bs \<le> MAX_OPERATION_RECORD_BYTES" "operation_bytes m = Inr used" "operation_budget m = Inr budget"
    "checked_add used (of_nat (length bs)) = Some retained" "retained \<le> budget"
    "m' = m\<lparr>am_store := kv_put BYTES_KEY (to_be_bytes retained)
       (kv_put (operation_expiry_key (or_id record) key) key (kv_put key bs (am_store m)))\<rparr>"
  using assms by (auto simp: complete_operation_def result_simps not_less split: if_splits)

text \<open>A fresh outcome is added to the ledger and accounted for.\<close>

lemma complete_run:
  assumes ok: "ledger_ok m" and sha: "\<forall>bs. length (vera_sha vl bs) = 32" and len: "length (or_id record) = 32"
    and fresh: "get_operation vl m actor (or_id record) = Inr None"
    and run: "complete_operation vl actor record m = (Inr u, m')"
  shows "ledger_ok m'" and "am_policies m' = am_policies m"
    and "\<exists>key bs. operation_key vl actor (or_id record) = Inr key \<and> json_operation vl record = Inr bs \<and>
      kv_view (am_store m') = (kv_view (am_store m))(key \<mapsto> bs, op_index key \<mapsto> key, BYTES_KEY \<mapsto> the (kv_view (am_store m') BYTES_KEY)) \<and>
      retained_keys (am_store m') = insert key (retained_keys (am_store m))"
proof -
  let ?s = "am_store m" and ?R = "retained_keys (am_store m)"
  obtain key bs used budget retained where k: "operation_key vl actor (or_id record) = Inr key"
    and bs: "json_operation vl record = Inr bs" "length bs \<le> MAX_OPERATION_RECORD_BYTES"
    and used: "operation_bytes m = Inr used" "operation_budget m = Inr budget"
    and add: "checked_add used (of_nat (length bs)) = Some retained" "retained \<le> budget"
    and m': "m' = m\<lparr>am_store := kv_put BYTES_KEY (to_be_bytes retained)
       (kv_put (operation_expiry_key (or_id record) key) key (kv_put key bs ?s))\<rparr>"
    by (rule complete_parts [OF run])
  note shape = operation_key_shape [OF k sha len]
  have idx: "operation_expiry_key (or_id record) key = op_index key"
    by (rule expiry_key_index [OF shape(1,3) len])
  have wf: "kv_wf ?s" and ix: "ledger_index ?s" and sum: "unat used = (\<Sum>k \<in> ?R. record_size ?s k)"
    using ok used by (auto simp: ledger_ok_def ledger_index_def)
  have new: "kv_view ?s key = None" using fresh k by (auto simp: get_operation_def split: option.splits)
  have view: "kv_view (am_store m') = (kv_view ?s)(key \<mapsto> bs, op_index key \<mapsto> key, BYTES_KEY \<mapsto> to_be_bytes retained)"
    using wf by (simp add: m' idx)
  have wf': "kv_wf (am_store m')" using wf by (simp add: m')
  have "key \<noteq> op_index key" using shape(1) by (metis zones_apart(1))
  then have keys: "retained_keys (am_store m') = insert key ?R"
    using shape(1) op_zones(2) [of key] by (auto simp: retained_keys_def view)
  have notin: "key \<notin> ?R" using new by (simp add: retained_keys_def)
  have "unat (of_nat (length bs) :: u64) = length bs"
    using bs(2) by (simp add: MAX_OPERATION_RECORD_BYTES_def unsigned_of_nat take_bit_nat_eq_self)
  then have total: "unat retained = unat used + length bs" using add(1) by (simp add: checked_add_Some)
  have size: "record_size (am_store m') k = (if k = key then length bs else record_size ?s k)"
    if "k \<in> insert key ?R" for k
  proof -
    have "prefix OPERATION_PREFIX k" using that shape(1) by (auto simp: retained_keys_def)
    then have "k \<noteq> op_index key" "k \<noteq> BYTES_KEY" using op_zones(2) by auto
    then show ?thesis by (simp add: record_size_def view)
  qed
  have "(\<Sum>k \<in> insert key ?R. record_size (am_store m') k) =
      (\<Sum>k \<in> insert key ?R. if k = key then length bs else record_size ?s k)"
    by (rule sum.cong [OF refl]) (rule size)
  also have "\<dots> = length bs + (\<Sum>k \<in> ?R. record_size ?s k)"
    using notin by (simp add: sum.insert) (rule sum.cong, auto)
  finally have count: "unat retained = (\<Sum>k \<in> retained_keys (am_store m'). record_size (am_store m') k)"
    using total sum keys by simp
  have "kv_view (am_store m') i = Some v \<and> prefix OPERATION_EXPIRY_PREFIX i \<longleftrightarrow> v \<in> insert key ?R \<and> i = op_index v" for i v
  proof -
    have old: "kv_view ?s i = Some v \<and> prefix OPERATION_EXPIRY_PREFIX i \<longleftrightarrow> v \<in> ?R \<and> i = op_index v"
      using ix by (simp add: ledger_index_def)
    have "i \<noteq> key" "i \<noteq> BYTES_KEY" if "prefix OPERATION_EXPIRY_PREFIX i"
      using that op_zones(1) [OF shape(1)] by auto
    moreover have "op_index v = op_index key \<longleftrightarrow> v = key" if "v \<in> ?R"
      using that by (intro op_index_inj shape(1)) (simp add: retained_keys_def)
    ultimately show ?thesis using old notin by (auto simp: view)
  qed
  moreover have "\<forall>k \<in> insert key ?R. length k = length OPERATION_PREFIX + 64"
    using ix shape(2) by (simp add: ledger_index_def)
  ultimately have ix': "ledger_index (am_store m')" using wf' keys by (simp add: ledger_index_def)
  have "operation_budget m' = Inr budget"
    using used(2) op_zones(2) [OF shape(1)] by (auto simp: operation_budget_def view zones_apart(7,9) [symmetric])
  moreover have "operation_bytes m' = Inr retained" by (simp add: operation_bytes_def view)
  ultimately show "ledger_ok m'" using ix' count add(2) by (auto simp: ledger_ok_def)
  show "am_policies m' = am_policies m" by (simp add: m')
  show "\<exists>key bs. operation_key vl actor (or_id record) = Inr key \<and> json_operation vl record = Inr bs \<and>
      kv_view (am_store m') = (kv_view ?s)(key \<mapsto> bs, op_index key \<mapsto> key, BYTES_KEY \<mapsto> the (kv_view (am_store m') BYTES_KEY)) \<and>
      retained_keys (am_store m') = insert key ?R"
    using k bs(1) keys view by auto
qed

lemma set_budget_run:
  assumes ok: "ledger_ok m" and run: "set_operation_budget b m = (Inr u, m')"
  shows "ledger_ok m' \<and> am_policies m' = am_policies m"
proof -
  obtain used budget where c: "operation_bytes m = Inr used" "operation_budget m = Inr budget"
    "unat used = (\<Sum>k \<in> retained_keys (am_store m). record_size (am_store m) k)" "used \<le> budget"
    and ix: "ledger_index (am_store m)"
    using ok by (auto simp: ledger_ok_def)
  have m': "m' = m\<lparr>am_store := kv_put BUDGET_KEY (to_be_bytes b) (am_store m)\<rparr>" and le: "used \<le> b"
    using run c(1) by (auto simp: set_operation_budget_def result_simps not_less split: if_splits)
  have wf: "kv_wf (am_store m)" using ix by (simp add: ledger_index_def)
  then have view: "kv_view (am_store m') = (kv_view (am_store m))(BUDGET_KEY \<mapsto> to_be_bytes b)" by (simp add: m')
  have keys: "retained_keys (am_store m') = retained_keys (am_store m)"
    by (auto simp: retained_keys_def view)
  have "record_size (am_store m') k = record_size (am_store m) k" if "k \<in> retained_keys (am_store m)" for k
    using that op_zones(2) [of k] by (simp add: record_size_def retained_keys_def view)
  then have "(\<Sum>k \<in> retained_keys (am_store m). record_size (am_store m') k) =
      (\<Sum>k \<in> retained_keys (am_store m). record_size (am_store m) k)" by (simp cong: sum.cong)
  moreover have "kv_view (am_store m') i = Some v \<and> prefix OPERATION_EXPIRY_PREFIX i \<longleftrightarrow>
      kv_view (am_store m) i = Some v \<and> prefix OPERATION_EXPIRY_PREFIX i" for i v
    by (auto simp: view)
  moreover have "kv_wf (am_store m')" using wf by (simp add: m')
  moreover have "operation_bytes m' = Inr used" using c(1) by (simp add: operation_bytes_def view)
  moreover have "operation_budget m' = Inr b" by (simp add: operation_budget_def view)
  ultimately show ?thesis using ix keys c(3) le by (simp add: ledger_ok_def ledger_index_def) (simp add: m')
qed

end
