(* ===== verification/Acp_Commitments.thy ===== *)
theory Acp_Commitments
  imports Acp_Ledger
begin

text \<open>
  The invariant of registration commitments: \<open>com_ok\<close> says that every stored commitment decodes under its
  own identifier and that the two ordered expiry indexes (\<open>acp/commitment_expiry.rs\<close>) list exactly the
  commitments that have not expired. Updating a commitment keeps it.
\<close>

section \<open>The commitment invariant\<close>

definition com_map :: "acp_libs \<Rightarrow> kv_store \<Rightarrow> u64 \<Rightarrow> registrations_commitment option" where
  "com_map libs s i =
     (case kv_view s (commitment_key i) of
        None \<Rightarrow> None
      | Some bs \<Rightarrow> (case unborsh_commitment libs bs of Inl _ \<Rightarrow> None | Inr c \<Rightarrow> Some c))"

definition pending_on :: "bytes \<Rightarrow> acp_libs \<Rightarrow> kv_store \<Rightarrow> registrations_commitment set" where
  "pending_on p libs s = {c. com_map libs s (rc_id c) = Some c \<and> \<not> rc_expired c \<and> expiry_prefix c = p}"

definition com_ok :: "acp_libs \<Rightarrow> kv_store \<Rightarrow> bool" where
  "com_ok libs s \<longleftrightarrow> kv_wf s \<and>
     (\<forall>i bs. kv_view s (commitment_key i) = Some bs \<longrightarrow>
        (\<exists>c. unborsh_commitment libs bs = Inr c \<and> rc_id c = i \<and> i \<noteq> 0 \<and> length (rc_commitment c) = 32)) \<and>
     (\<forall>p \<in> {SECONDS_PREFIX, HEIGHT_PREFIX}. \<forall>k v. kv_view s k = Some v \<and> prefix p k \<longleftrightarrow>
        (\<exists>c \<in> pending_on p libs s. k = commitment_expiry_key c \<and> v = []))"

abbreviation com_ident :: "registrations_commitment \<Rightarrow> bytes" where
  "com_ident c \<equiv> to_be_bytes (rc_id c)"

lemma expiry_prefix_cases: "expiry_prefix c = SECONDS_PREFIX \<or> expiry_prefix c = HEIGHT_PREFIX"
  by (simp add: expiry_prefix_def split: duration.splits)

lemma expiry_key_prefix:
  assumes "p \<in> {SECONDS_PREFIX, HEIGHT_PREFIX}"
  shows "prefix p (commitment_expiry_key c) \<longleftrightarrow> expiry_prefix c = p"
  using assms by (auto simp: commitment_expiry_key_def expiry_prefix_def SECONDS_PREFIX_def HEIGHT_PREFIX_def
      split: duration.splits)

lemma expiry_key_id: "commitment_expiry_key c = commitment_expiry_key c' \<Longrightarrow> rc_id c = rc_id c'"
  unfolding commitment_expiry_key_def append_assoc [symmetric] by (subst (asm) append_eq_append_conv) simp_all

lemma expiry_zone_apart [simp]:
  assumes "p \<in> {SECONDS_PREFIX, HEIGHT_PREFIX}"
  shows "\<not> prefix p (commitment_key i)" "\<not> prefix p (commitment_by_commitment_index_key r i)"
    "\<not> prefix p commitment_counter_key"
  using assms by (auto simp: SECONDS_PREFIX_def HEIGHT_PREFIX_def commitment_key_def commitment_counter_key_def
      commitment_by_commitment_index_key_def commitment_by_commitment_index_prefix_def key_simps)

lemma com_record:
  assumes "com_ok libs s" and "kv_view s (commitment_key i) = Some bs"
  obtains c where "unborsh_commitment libs bs = Inr c" "com_map libs s i = Some c" "rc_id c = i" "i \<noteq> 0"
    "length (rc_commitment c) = 32"
proof -
  have "\<exists>c. unborsh_commitment libs bs = Inr c \<and> rc_id c = i \<and> i \<noteq> 0 \<and> length (rc_commitment c) = 32"
    using assms unfolding com_ok_def by blast
  then obtain c where "unborsh_commitment libs bs = Inr c" "rc_id c = i" "i \<noteq> 0" "length (rc_commitment c) = 32" by blast
  with assms(2) show thesis by (intro that [of c]) (simp_all add: com_map_def)
qed

lemma com_entry:
  assumes "com_ok libs s" and "p \<in> {SECONDS_PREFIX, HEIGHT_PREFIX}"
  shows "kv_view s k = Some v \<and> prefix p k \<longleftrightarrow> (\<exists>c \<in> pending_on p libs s. k = commitment_expiry_key c \<and> v = [])"
  using assms unfolding com_ok_def by blast

lemma com_map_get:
  assumes "com_ok libs (am_store m)"
  shows "get_commitment_by_id libs m i = Inr (com_map libs (am_store m) i)"
proof (cases "kv_view (am_store m) (commitment_key i)")
  case None
  then show ?thesis by (simp add: get_commitment_by_id_def com_map_def)
next
  case (Some bs)
  then obtain c where "unborsh_commitment libs bs = Inr c" "com_map libs (am_store m) i = Some c" "rc_id c = i" "i \<noteq> 0"
    "length (rc_commitment c) = 32" by (rule com_record [OF assms])
  with Some show ?thesis by (simp add: get_commitment_by_id_def)
qed

lemma com_map_id:
  assumes "com_ok libs s" and "com_map libs s i = Some c"
  shows "rc_id c = i \<and> i \<noteq> 0 \<and> length (rc_commitment c) = 32"
proof -
  obtain bs where "kv_view s (commitment_key i) = Some bs" using assms(2) by (auto simp: com_map_def split: option.splits)
  then obtain c' where "com_map libs s i = Some c'" "rc_id c' = i" "i \<noteq> 0" "length (rc_commitment c') = 32"
    by (rule com_record [OF assms(1)])
  with assms(2) show ?thesis by simp
qed

text \<open>Each of the two indexes is a deadline index over the pending commitments of its kind.\<close>

lemma pending_key: "c \<in> pending_on p libs s \<Longrightarrow> commitment_expiry_key c = p @ to_be_bytes (expiry_deadline c) @ com_ident c"
  unfolding pending_on_def commitment_expiry_key_def by blast

lemma pending_inj:
  assumes "c \<in> pending_on p libs s" and "c' \<in> pending_on p libs s" and "rc_id c = rc_id c'"
  shows "c = c'"
proof -
  have 1: "com_map libs s (rc_id c) = Some c" and 2: "com_map libs s (rc_id c') = Some c'"
    using assms(1,2) unfolding pending_on_def by blast+
  from 1 have "com_map libs s (rc_id c') = Some c" unfolding assms(3) .
  with 2 have "Some c = Some c'" by (rule trans [OF sym, rotated])
  then show ?thesis by (rule option.inject [THEN iffD1])
qed

lemma com_index_laws:
  assumes p: "p \<in> {SECONDS_PREFIX, HEIGHT_PREFIX}"
  shows "deadline_index p expiry_deadline com_ident (\<lambda>_. []) (pending_on p libs) (com_ok libs)"
proof (unfold_locales, goal_cases)
  case (1 s)
  then show ?case by (simp only: com_ok_def)
next
  case (2 s k v)
  have "(\<exists>c \<in> pending_on p libs s. k = commitment_expiry_key c \<and> v = []) \<longleftrightarrow>
      (\<exists>c \<in> pending_on p libs s. k = p @ to_be_bytes (expiry_deadline c) @ com_ident c \<and> v = [])"
    by (rule bex_cong [OF refl]) (simp only: pending_key)
  with com_entry [OF 2 p] show ?case by simp
next
  case (3 s c c')
  then show ?case by (auto intro: pending_inj)
qed

interpretation cs: deadline_index SECONDS_PREFIX expiry_deadline com_ident "\<lambda>_. []" "pending_on SECONDS_PREFIX libs" "com_ok libs"
  for libs
  by (rule com_index_laws) simp

interpretation ch: deadline_index HEIGHT_PREFIX expiry_deadline com_ident "\<lambda>_. []" "pending_on HEIGHT_PREFIX libs" "com_ok libs"
  for libs
  by (rule com_index_laws) simp


section \<open>Updating a commitment\<close>

lemma update_commitment_view:
  assumes ok: "com_ok libs (am_store m)" and bs: "borsh_commitment libs c = Inr bs"
  shows "\<exists>m'. update_commitment libs c m = (Inr (), m') \<and> kv_wf (am_store m') \<and> am_policies m' = am_policies m \<and>
    (\<forall>k. kv_view (am_store m') k =
       (if k = commitment_key (rc_id c) then Some bs
        else if k = commitment_by_commitment_index_key (rc_commitment c) (rc_id c) then Some []
        else if \<not> rc_expired c \<and> k = commitment_expiry_key c then Some []
        else case com_map libs (am_store m) (rc_id c) of
               None \<Rightarrow> kv_view (am_store m) k
             | Some old \<Rightarrow>
                 if k = commitment_expiry_key old \<or> k = commitment_by_commitment_index_key (rc_commitment old) (rc_id old)
                 then None else kv_view (am_store m) k))"
proof -
  have wf: "kv_wf (am_store m)" using ok by (simp add: com_ok_def)
  note get = com_map_get [OF ok, of "rc_id c"]
  show ?thesis
  proof (cases "com_map libs (am_store m) (rc_id c)")
    case None
    then show ?thesis using wf by (cases "rc_expired c") (simp_all add: update_commitment_def st_bind_def bs get)
  next
    case (Some old)
    then show ?thesis using wf by (cases "rc_expired c") (simp_all add: update_commitment_def st_bind_def bs get)
  qed
qed


lemma pendingI: "com_map libs s (rc_id c) = Some c \<Longrightarrow> \<not> rc_expired c \<Longrightarrow> expiry_prefix c = p \<Longrightarrow> c \<in> pending_on p libs s"
  unfolding pending_on_def by blast

lemma pendingD:
  assumes "c \<in> pending_on p libs s"
  shows "com_map libs s (rc_id c) = Some c" and "\<not> rc_expired c" and "expiry_prefix c = p"
  using assms unfolding pending_on_def by blast+

text \<open>The zone of the commitments and of their indexes.\<close>

definition COMMITMENT_ZONE :: bytes where "COMMITMENT_ZONE = ''commitment''"

lemma commitment_zone [simp]:
  "prefix COMMITMENT_ZONE (commitment_key i)" "prefix COMMITMENT_ZONE (commitment_by_commitment_index_key r i)"
  "prefix COMMITMENT_ZONE (commitment_expiry_key c)" "prefix COMMITMENT_ZONE commitment_counter_key"
  "p \<in> {SECONDS_PREFIX, HEIGHT_PREFIX} \<Longrightarrow> prefix p k \<Longrightarrow> prefix COMMITMENT_ZONE k"
  by (auto simp: COMMITMENT_ZONE_def commitment_key_def commitment_by_commitment_index_key_def key_simps
      commitment_by_commitment_index_prefix_def commitment_expiry_key_def expiry_prefix_def SECONDS_PREFIX_def
      HEIGHT_PREFIX_def commitment_counter_key_def prefix_def split: duration.splits)

lemma com_ok_zone:
  assumes "com_ok libs s" and "kv_wf s'" and "\<And>k. prefix COMMITMENT_ZONE k \<Longrightarrow> kv_view s' k = kv_view s k"
  shows "com_ok libs s' \<and> com_map libs s' = com_map libs s"
proof -
  have m: "com_map libs s' = com_map libs s" using assms(3) by (simp add: com_map_def fun_eq_iff)
  have "pending_on p libs s' = pending_on p libs s" for p unfolding pending_on_def m ..
  moreover have "kv_view s' k = Some v \<and> prefix p k \<longleftrightarrow> kv_view s k = Some v \<and> prefix p k"
    if "p \<in> {SECONDS_PREFIX, HEIGHT_PREFIX}" for p k v
    using assms(3) commitment_zone(5) [OF that] by auto
  ultimately show ?thesis using assms m unfolding com_ok_def by simp
qed

lemma pending_update:
  assumes map: "com_map libs s' = (com_map libs s)(rc_id c \<mapsto> c)"
  shows "c' \<in> pending_on p libs s' \<longleftrightarrow>
    c' \<in> pending_on p libs s \<and> rc_id c' \<noteq> rc_id c \<or> c' = c \<and> \<not> rc_expired c \<and> expiry_prefix c = p"
proof (cases "rc_id c' = rc_id c")
  case True
  then have "com_map libs s' (rc_id c') = Some c" by (simp add: map)
  then have "c' \<in> pending_on p libs s' \<longleftrightarrow> Some c = Some c' \<and> \<not> rc_expired c' \<and> expiry_prefix c' = p"
    by (simp only: pending_on_def mem_Collect_eq)
  with True show ?thesis by blast
next
  case False
  then have "com_map libs s' (rc_id c') = com_map libs s (rc_id c')" by (simp add: map)
  then have "c' \<in> pending_on p libs s' \<longleftrightarrow> c' \<in> pending_on p libs s"
    by (simp only: pending_on_def mem_Collect_eq)
  with False show ?thesis by blast
qed

lemma pending_old:
  assumes "com_map libs s (rc_id c) = Some old" and "c' \<in> pending_on p libs s" and "rc_id c' = rc_id c"
  shows "c' = old"
proof -
  have "com_map libs s (rc_id c) = Some c'" using pendingD(1) [OF assms(2)] unfolding assms(3) .
  with assms(1) have "Some old = Some c'" by (rule trans [OF sym])
  then show ?thesis by blast
qed

text \<open>The entries of an index after an update: the old entry is gone, the new one is there while the
  commitment has not expired.\<close>

lemma index_update:
  assumes ok: "com_ok libs s" and p: "p \<in> {SECONDS_PREFIX, HEIGHT_PREFIX}" and k: "prefix p k"
    and map: "com_map libs s' = (com_map libs s)(rc_id c \<mapsto> c)"
    and view: "kv_view s' k = (if \<not> rc_expired c \<and> k = commitment_expiry_key c then Some []
      else if \<exists>old. com_map libs s (rc_id c) = Some old \<and> k = commitment_expiry_key old then None else kv_view s k)"
  shows "kv_view s' k = Some v \<longleftrightarrow> (\<exists>c' \<in> pending_on p libs s'. k = commitment_expiry_key c' \<and> v = [])"
proof -
  have new: "(\<exists>c' \<in> pending_on p libs s'. k = commitment_expiry_key c' \<and> v = []) \<longleftrightarrow>
      \<not> rc_expired c \<and> k = commitment_expiry_key c \<and> v = [] \<or>
      (\<exists>c' \<in> pending_on p libs s. rc_id c' \<noteq> rc_id c \<and> k = commitment_expiry_key c' \<and> v = [])"
    using pending_update [OF map] expiry_key_prefix [OF p] k by blast
  have past: "kv_view s k = Some v \<longleftrightarrow> (\<exists>c' \<in> pending_on p libs s. k = commitment_expiry_key c' \<and> v = [])" for v
    using com_entry [OF ok p, of k v] k by blast
  consider (here) "\<not> rc_expired c" "k = commitment_expiry_key c"
    | (gone) old where "\<not> (\<not> rc_expired c \<and> k = commitment_expiry_key c)" "com_map libs s (rc_id c) = Some old" "k = commitment_expiry_key old"
    | (kept) "\<not> (\<not> rc_expired c \<and> k = commitment_expiry_key c)" "\<nexists>old. com_map libs s (rc_id c) = Some old \<and> k = commitment_expiry_key old"
    by blast
  then show ?thesis
  proof cases
    case here
    have "kv_view s' k = Some []" using view here by simp
    moreover have "(\<exists>c' \<in> pending_on p libs s'. k = commitment_expiry_key c' \<and> v = []) \<longleftrightarrow> v = []"
      unfolding new using here expiry_key_id [of c] by blast
    ultimately show ?thesis by auto
  next
    case gone
    have "rc_id old = rc_id c" using com_map_id [OF ok gone(2)] by blast
    then have "rc_id c' = rc_id c" if "k = commitment_expiry_key c'" for c'
      using that gone(3) expiry_key_id by metis
    then have "\<not> (\<exists>c' \<in> pending_on p libs s'. k = commitment_expiry_key c' \<and> v = [])" unfolding new using gone(1) by blast
    moreover have "kv_view s' k = None" using view gone by auto
    ultimately show ?thesis by simp
  next
    case kept
    have "rc_id c' \<noteq> rc_id c" if c': "c' \<in> pending_on p libs s" "k = commitment_expiry_key c'" for c'
    proof
      assume same: "rc_id c' = rc_id c"
      have "com_map libs s (rc_id c) = Some c'" using pendingD(1) [OF c'(1)] unfolding same .
      with kept(2) c'(2) show False by blast
    qed
    then have "(\<exists>c' \<in> pending_on p libs s'. k = commitment_expiry_key c' \<and> v = []) \<longleftrightarrow> kv_view s k = Some v"
      unfolding new past using kept(1) by blast
    moreover have "kv_view s' k = kv_view s k" using view kept by auto
    ultimately show ?thesis by simp
  qed
qed

lemma counter_apart [simp]:
  "commitment_counter_key \<noteq> commitment_by_commitment_index_key r i" "commitment_counter_key \<noteq> commitment_expiry_key x"
  by (simp_all add: commitment_counter_key_def commitment_by_commitment_index_key_def key_simps
      commitment_by_commitment_index_prefix_def commitment_expiry_key_def expiry_prefix_def SECONDS_PREFIX_def
      HEIGHT_PREFIX_def split: duration.splits)

lemma update_commitment_ok:
  assumes ok: "com_ok libs (am_store m)" and codec: "commitment_codec_ok libs" and c: "rc_id c \<noteq> 0" "length (rc_commitment c) = 32"
  obtains m' where "update_commitment libs c m = (Inr (), m')" "com_ok libs (am_store m')"
    "com_map libs (am_store m') = (com_map libs (am_store m))(rc_id c \<mapsto> c)" "am_policies m' = am_policies m"
    "\<forall>k. \<not> prefix COMMITMENT_ZONE k \<longrightarrow> kv_view (am_store m') k = kv_view (am_store m) k"
    "kv_view (am_store m') commitment_counter_key = kv_view (am_store m) commitment_counter_key"
proof -
  let ?s = "am_store m"
  obtain bs where bs: "borsh_commitment libs c = Inr bs" "unborsh_commitment libs bs = Inr c"
    using codec by (auto simp: commitment_codec_ok_def)
  obtain m' where run: "update_commitment libs c m = (Inr (), m')" and wf: "kv_wf (am_store m')"
    and pol: "am_policies m' = am_policies m"
    and view: "\<And>k. kv_view (am_store m') k =
       (if k = commitment_key (rc_id c) then Some bs
        else if k = commitment_by_commitment_index_key (rc_commitment c) (rc_id c) then Some []
        else if \<not> rc_expired c \<and> k = commitment_expiry_key c then Some []
        else case com_map libs ?s (rc_id c) of
               None \<Rightarrow> kv_view ?s k
             | Some old \<Rightarrow>
                 if k = commitment_expiry_key old \<or> k = commitment_by_commitment_index_key (rc_commitment old) (rc_id old)
                 then None else kv_view ?s k)"
    using update_commitment_view [OF ok bs(1)] by blast
  have rec: "kv_view (am_store m') (commitment_key i) = (if i = rc_id c then Some bs else kv_view ?s (commitment_key i))" for i
    by (simp add: view split: option.split)
  have map: "com_map libs (am_store m') = (com_map libs ?s)(rc_id c \<mapsto> c)"
    by (rule ext) (simp add: com_map_def rec bs(2))
  have "kv_view (am_store m') k = Some v \<and> prefix p k \<longleftrightarrow>
      (\<exists>c' \<in> pending_on p libs (am_store m'). k = commitment_expiry_key c' \<and> v = [])"
    if p: "p \<in> {SECONDS_PREFIX, HEIGHT_PREFIX}" for p k v
  proof (cases "prefix p k")
    case False
    then show ?thesis using expiry_key_prefix [OF p] pendingD(3) by blast
  next
    case True
    then have "k \<noteq> commitment_key i" "k \<noteq> commitment_by_commitment_index_key r i" for i r
      using expiry_zone_apart [OF p] by auto
    then have "kv_view (am_store m') k = (if \<not> rc_expired c \<and> k = commitment_expiry_key c then Some []
      else if \<exists>old. com_map libs ?s (rc_id c) = Some old \<and> k = commitment_expiry_key old then None else kv_view ?s k)"
      by (simp add: view split: option.split)
    from index_update [OF ok p True map this] True show ?thesis by simp
  qed
  moreover have "\<exists>c'. unborsh_commitment libs bs' = Inr c' \<and> rc_id c' = i \<and> i \<noteq> 0 \<and> length (rc_commitment c') = 32"
    if "kv_view (am_store m') (commitment_key i) = Some bs'" for i bs'
  proof (cases "i = rc_id c")
    case True
    then show ?thesis using that bs(2) c by (simp add: rec)
  next
    case False
    then have "kv_view ?s (commitment_key i) = Some bs'" using that by (simp add: rec)
    then show ?thesis by (rule com_record [OF ok]) blast
  qed
  ultimately have "com_ok libs (am_store m')" using wf unfolding com_ok_def by blast
  moreover have "kv_view (am_store m') k = kv_view ?s k" if "\<not> prefix COMMITMENT_ZONE k" for k
  proof -
    have "k \<noteq> commitment_key i" "k \<noteq> commitment_by_commitment_index_key r i" "k \<noteq> commitment_expiry_key x" for i r x
      using that by auto
    then show ?thesis by (simp add: view split: option.split)
  qed
  moreover have "kv_view (am_store m') commitment_counter_key = kv_view ?s commitment_counter_key"
    using counter_keys_apart(1) by (simp add: view not_sym [OF counter_keys_apart(1)] split: option.split)
  ultimately show thesis using that run map pol by blast
qed

end
