(* ===== verification/Acp_Expiry.thy ===== *)
theory Acp_Expiry
  imports Acp_Commitments
begin

text \<open>
  Expiry of registration commitments (\<open>AcpModule::expire_commitments\<close>) and the end of a block
  (\<open>AcpModule::end_blocker\<close>). Under the invariants of the commitments and of the ledger the end of a
  block never fails, and repeated blocks expire every commitment and prune every outcome whose deadline
  has passed.
\<close>

section \<open>Expiring a batch\<close>

abbreviation com_due :: "u64 \<Rightarrow> registrations_commitment \<Rightarrow> bool" where
  "com_due now \<equiv> due expiry_deadline (unat now)"

abbreviation expired :: "registrations_commitment \<Rightarrow> registrations_commitment" where
  "expired c \<equiv> c\<lparr>rc_expired := True\<rparr>"

lemma expiry_loop_run:
  assumes ok: "com_ok libs (am_store m)" and "set cs \<subseteq> pending_on p libs (am_store m)"
  shows "expiry_loop libs m p now (map (\<lambda>c. (p @ to_be_bytes (expiry_deadline c) @ com_ident c, [])) cs) =
    Inr (map expired (takeWhile (com_due now) cs))"
  using assms(2)
proof (induction cs)
  case (Cons c cs)
  let ?e = "\<lambda>c. (p @ to_be_bytes (expiry_deadline c) @ com_ident c, [] :: bytes)"
  let ?k = "p @ to_be_bytes (expiry_deadline c) @ com_ident c"
  have c: "c \<in> pending_on p libs (am_store m)" using Cons.prems by simp
  have shape: "length ?k = length p + 16" "take 8 (drop (length p) ?k) = to_be_bytes (expiry_deadline c)"
    "drop (length p + 8) ?k = com_ident c"
    by simp_all
  show ?case
  proof (cases "com_due now c")
    case False
    then have "to_be_bytes now \<le> to_be_bytes (expiry_deadline c)" by (simp add: due_def word_le_nat_alt not_less)
    with False shape show ?thesis by simp
  next
    case True
    then have "\<not> to_be_bytes now \<le> to_be_bytes (expiry_deadline c)" by (simp add: due_def word_le_nat_alt not_le)
    moreover have "get_commitment_by_id libs m (rc_id c) = Inr (Some c)"
      using com_map_get [OF ok] pendingD(1) [OF c] by simp
    moreover have "expiry_loop libs m p now (map ?e cs) = Inr (map expired (takeWhile (com_due now) cs))"
      using Cons by simp
    ultimately show ?thesis using True shape pendingD(2) [OF c] pending_key [OF c] by simp
  qed
qed simp

lemma update_commitments_ok:
  assumes "com_ok libs (am_store m)" and codec: "commitment_codec_ok libs"
    and "\<forall>c \<in> set cs. rc_id c \<noteq> 0 \<and> length (rc_commitment c) = 32"
  shows "\<exists>m'. update_commitments libs cs m = (Inr (), m') \<and> com_ok libs (am_store m') \<and>
    com_map libs (am_store m') = com_map libs (am_store m) ++ map_of (rev (map (\<lambda>c. (rc_id c, c)) cs)) \<and>
    am_policies m' = am_policies m \<and>
    (\<forall>k. \<not> prefix COMMITMENT_ZONE k \<longrightarrow> kv_view (am_store m') k = kv_view (am_store m) k)"
  using assms(1,3)
proof (induction cs arbitrary: m)
  case (Cons c cs)
  obtain m1 where m1: "update_commitment libs c m = (Inr (), m1)" "com_ok libs (am_store m1)"
    "com_map libs (am_store m1) = (com_map libs (am_store m))(rc_id c \<mapsto> c)" "am_policies m1 = am_policies m"
    "\<forall>k. \<not> prefix COMMITMENT_ZONE k \<longrightarrow> kv_view (am_store m1) k = kv_view (am_store m) k"
    using update_commitment_ok [OF Cons.prems(1) codec, of c] Cons.prems(2) by (metis list.set_intros(1))
  have "\<forall>c \<in> set cs. rc_id c \<noteq> 0 \<and> length (rc_commitment c) = 32" using Cons.prems(2) by simp
  from Cons.IH [OF m1(2) this] obtain m2 where m2: "update_commitments libs cs m1 = (Inr (), m2)"
    "com_ok libs (am_store m2)"
    "com_map libs (am_store m2) = com_map libs (am_store m1) ++ map_of (rev (map (\<lambda>c. (rc_id c, c)) cs))"
    "am_policies m2 = am_policies m1"
    "\<forall>k. \<not> prefix COMMITMENT_ZONE k \<longrightarrow> kv_view (am_store m2) k = kv_view (am_store m1) k" by blast
  have "update_commitments libs (c # cs) m = (Inr (), m2)" using m1(1) m2(1) by (simp add: st_bind_def)
  moreover have "com_map libs (am_store m2) =
      com_map libs (am_store m) ++ map_of (rev (map (\<lambda>c. (rc_id c, c)) (c # cs)))"
    unfolding m2(3) m1(3) by (simp add: map_add_def fun_eq_iff split: option.split)
  ultimately show ?case using m2(2,4,5) m1(4,5) by metis
qed simp

text \<open>The batch of a block: what it selects from one index.\<close>

definition first_due :: "bytes \<Rightarrow> acp_libs \<Rightarrow> kv_store \<Rightarrow> u64 \<Rightarrow> registrations_commitment list \<Rightarrow> bool" where
  "first_due p libs s now B \<longleftrightarrow> distinct B \<and> set B \<subseteq> {c \<in> pending_on p libs s. com_due now c} \<and>
     (\<forall>b \<le> unat now. card {c \<in> pending_on p libs s - set B. due expiry_deadline b c} =
        card {c \<in> pending_on p libs s. due expiry_deadline b c} - EXPIRY_BATCH_SIZE)"

lemma expiry_selects:
  assumes ok: "com_ok libs (am_store m)" and p: "p \<in> {SECONDS_PREFIX, HEIGHT_PREFIX}"
  obtains B where "expiry_loop libs m p now (take EXPIRY_BATCH_SIZE (prefix_iter (am_store m) p)) = Inr (map expired B)"
    and "first_due p libs (am_store m) now B"
proof -
  let ?s = "am_store m" and ?n = EXPIRY_BATCH_SIZE
  let ?e = "\<lambda>c. (p @ to_be_bytes (expiry_deadline c) @ com_ident c, [] :: bytes)"
  obtain cs where cs: "prefix_iter ?s p = map ?e cs" "set cs = pending_on p libs ?s" "distinct cs"
    "takeWhile (com_due now) (take ?n cs) = take ?n (filter (com_due now) cs)"
    "\<forall>b \<le> unat now. card {c \<in> pending_on p libs ?s - set (take ?n (filter (com_due now) cs)). due expiry_deadline b c} =
      card {c \<in> pending_on p libs ?s. due expiry_deadline b c} - ?n"
    by (rule deadline_index.batch [OF com_index_laws [OF p] ok, where b = "unat now" and n = ?n]) (rule that)
  define B where "B = take ?n (filter (com_due now) cs)"
  have "set (take ?n cs) \<subseteq> pending_on p libs ?s" using cs(2) by (auto dest: in_set_takeD)
  from expiry_loop_run [OF ok this, of now] have "expiry_loop libs m p now (take ?n (prefix_iter ?s p)) = Inr (map expired B)"
    unfolding cs(1) take_map cs(4) B_def .
  moreover have "set B \<subseteq> {c \<in> pending_on p libs ?s. com_due now c}"
    unfolding B_def using set_take_subset [of ?n "filter (com_due now) cs"] unfolding set_filter cs(2) .
  moreover have "distinct B" unfolding B_def using cs(3) by simp
  ultimately show thesis using cs(5) unfolding B_def [symmetric] by (intro that [of B]) (simp_all add: first_due_def)
qed

text \<open>Storing changed records back under their own keys.\<close>

lemma overwrite_lookup:
  assumes "\<forall>c \<in> set B. f (k c) = Some c" and "\<And>c. k (g c) = k c"
  shows "(f ++ map_of (rev (map (\<lambda>c. (k c, c)) (map g B)))) (k x) =
    (if \<exists>c \<in> set B. k c = k x then map_option g (f (k x)) else f (k x))"
  using assms(1)
proof (induction B rule: rev_induct)
  case (snoc b B)
  have b: "f (k b) = Some b" using snoc.prems by simp
  show ?case
  proof (cases "k b = k x")
    case True
    then show ?thesis using b by (simp add: assms(2) map_add_def)
  next
    case False
    have "\<forall>c \<in> set B. f (k c) = Some c" using snoc.prems by simp
    from snoc.IH [OF this] show ?thesis using False by (simp add: assms(2) map_add_def)
  qed
qed simp

lemma pending_expired:
  assumes stored: "\<forall>c \<in> set B. com_map libs s (rc_id c) = Some c"
    and map: "com_map libs s' = com_map libs s ++ map_of (rev (map (\<lambda>c. (rc_id c, c)) (map expired B)))"
  shows "pending_on p libs s' = pending_on p libs s - set B"
proof -
  have look: "com_map libs s' (rc_id x) = (if \<exists>c \<in> set B. rc_id c = rc_id x then map_option expired (com_map libs s (rc_id x))
      else com_map libs s (rc_id x))" for x :: registrations_commitment
    unfolding map by (rule overwrite_lookup [where k = rc_id and f = "com_map libs s" and g = expired, OF stored]) simp
  have same: "c = x" if "c \<in> set B" "rc_id c = rc_id x" "com_map libs s (rc_id x) = Some x" for c x
    using bspec [OF stored that(1)] unfolding that(2,3) by (rule option.inject [THEN iffD1, symmetric])
  show ?thesis
  proof (intro set_eqI iffI)
    fix x assume x: "x \<in> pending_on p libs s'"
    have fresh: "\<not> (\<exists>c \<in> set B. rc_id c = rc_id x)"
    proof
      assume "\<exists>c \<in> set B. rc_id c = rc_id x"
      then have "map_option expired (com_map libs s (rc_id x)) = Some x" using look [of x] pendingD(1) [OF x] by presburger
      then obtain y where "x = expired y" by (cases "com_map libs s (rc_id x)") auto
      then show False using pendingD(2) [OF x] by simp
    qed
    then have "com_map libs s (rc_id x) = Some x" using look [of x] pendingD(1) [OF x] by presburger
    then show "x \<in> pending_on p libs s - set B" using pendingI [OF _ pendingD(2,3) [OF x]] fresh by blast
  next
    fix x assume "x \<in> pending_on p libs s - set B"
    then have x: "x \<in> pending_on p libs s" and "x \<notin> set B" by blast+
    then have "\<not> (\<exists>c \<in> set B. rc_id c = rc_id x)" using same [OF _ _ pendingD(1) [OF x]] by blast
    then have "com_map libs s' (rc_id x) = Some x" using look [of x] pendingD(1) [OF x] by presburger
    then show "x \<in> pending_on p libs s'" by (rule pendingI [OF _ pendingD(2,3) [OF x]])
  qed
qed

lemma prefixes_differ [simp]: "SECONDS_PREFIX \<noteq> HEIGHT_PREFIX" "HEIGHT_PREFIX \<noteq> SECONDS_PREFIX"
  by (simp_all add: SECONDS_PREFIX_def HEIGHT_PREFIX_def)

text \<open>Expiry always succeeds: it expires the first due commitments of each kind, and nothing else.\<close>

lemma expire_run:
  assumes ok: "com_ok libs (am_store m)" and codec: "commitment_codec_ok libs"
  obtains m' Bs Bh where "expire_commitments libs now m = (Inr (map expired (Bs @ Bh)), m')" "com_ok libs (am_store m')"
    "am_policies m' = am_policies m"
    "\<forall>k. \<not> prefix COMMITMENT_ZONE k \<longrightarrow> kv_view (am_store m') k = kv_view (am_store m) k"
    "first_due SECONDS_PREFIX libs (am_store m) (ts_seconds now) Bs"
    "first_due HEIGHT_PREFIX libs (am_store m) (ts_block_height now) Bh"
    "pending_on SECONDS_PREFIX libs (am_store m') = pending_on SECONDS_PREFIX libs (am_store m) - set Bs"
    "pending_on HEIGHT_PREFIX libs (am_store m') = pending_on HEIGHT_PREFIX libs (am_store m) - set Bh"
proof -
  let ?s = "am_store m"
  obtain Bs where Bs: "expiry_loop libs m SECONDS_PREFIX (ts_seconds now) (take EXPIRY_BATCH_SIZE (prefix_iter ?s SECONDS_PREFIX)) =
      Inr (map expired Bs)" "first_due SECONDS_PREFIX libs ?s (ts_seconds now) Bs"
    by (rule expiry_selects [OF ok, of SECONDS_PREFIX "ts_seconds now"]) simp_all
  obtain Bh where Bh: "expiry_loop libs m HEIGHT_PREFIX (ts_block_height now) (take EXPIRY_BATCH_SIZE (prefix_iter ?s HEIGHT_PREFIX)) =
      Inr (map expired Bh)" "first_due HEIGHT_PREFIX libs ?s (ts_block_height now) Bh"
    by (rule expiry_selects [OF ok, of HEIGHT_PREFIX "ts_block_height now"]) simp_all
  let ?B = "Bs @ Bh"
  have pend: "c \<in> pending_on SECONDS_PREFIX libs ?s" if "c \<in> set Bs" for c using Bs(2) that unfolding first_due_def by blast
  have penh: "c \<in> pending_on HEIGHT_PREFIX libs ?s" if "c \<in> set Bh" for c using Bh(2) that unfolding first_due_def by blast
  have stored: "\<forall>c \<in> set ?B. com_map libs ?s (rc_id c) = Some c"
    using pend penh pendingD(1) unfolding set_append by blast
  have "\<forall>c \<in> set (map expired ?B). rc_id c \<noteq> 0 \<and> length (rc_commitment c) = 32"
    using stored com_map_id [OF ok] by fastforce
  from update_commitments_ok [OF ok codec this] obtain m' where m': "update_commitments libs (map expired ?B) m = (Inr (), m')"
    "com_ok libs (am_store m')"
    "com_map libs (am_store m') = com_map libs ?s ++ map_of (rev (map (\<lambda>c. (rc_id c, c)) (map expired ?B)))"
    "am_policies m' = am_policies m"
    "\<forall>k. \<not> prefix COMMITMENT_ZONE k \<longrightarrow> kv_view (am_store m') k = kv_view ?s k" by blast
  have run: "expire_commitments libs now m = (Inr (map expired ?B), m')"
    using Bs(1) Bh(1) m'(1) by (simp add: expire_commitments_def due_commitments_def st_bind_def)
  note after = pending_expired [OF stored m'(3)]
  have apart: "c \<notin> pending_on HEIGHT_PREFIX libs ?s" if "c \<in> pending_on SECONDS_PREFIX libs ?s" for c
    using pendingD(3) [OF that] pendingD(3) [of c HEIGHT_PREFIX libs ?s] prefixes_differ by metis
  have "pending_on SECONDS_PREFIX libs (am_store m') = pending_on SECONDS_PREFIX libs ?s - set Bs"
    unfolding after set_append using penh apart by blast
  moreover have "pending_on HEIGHT_PREFIX libs (am_store m') = pending_on HEIGHT_PREFIX libs ?s - set Bh"
    unfolding after set_append using pend apart by blast
  ultimately show thesis using that run m'(2,4,5) Bs(2) Bh(2) by blast
qed

section \<open>The end of a block\<close>

lemma zones_disjoint: "prefix OPERATION_ZONE k \<Longrightarrow> \<not> prefix COMMITMENT_ZONE k"
  by (auto simp: OPERATION_ZONE_def COMMITMENT_ZONE_def prefix_def)

lemma end_blocker_run:
  assumes led: "ledger_ok m" and com: "com_ok libs (am_store m)" and codec: "commitment_codec_ok libs"
  obtains m' B Bs Bh where "end_blocker libs block m = (Inr (map expired (Bs @ Bh)), m')"
    "ledger_ok m'" "com_ok libs (am_store m')" "am_policies m' = am_policies m"
    "\<forall>k. \<not> prefix OPERATION_ZONE k \<and> \<not> prefix COMMITMENT_ZONE k \<longrightarrow> kv_view (am_store m') k = kv_view (am_store m) k"
    "retained_keys (am_store m') = retained_keys (am_store m) - B"
    "B \<subseteq> {k \<in> retained_keys (am_store m). op_due (ts_seconds (bx_timestamp block)) k}"
    "\<forall>b \<le> Suc (unat (ts_seconds (bx_timestamp block))). card {k \<in> retained_keys (am_store m) - B. due op_dead b k} =
      card {k \<in> retained_keys (am_store m). due op_dead b k} - OPERATION_PRUNE_LIMIT"
    "first_due SECONDS_PREFIX libs (am_store m) (ts_seconds (bx_timestamp block)) Bs"
    "first_due HEIGHT_PREFIX libs (am_store m) (ts_block_height (bx_timestamp block)) Bh"
    "pending_on SECONDS_PREFIX libs (am_store m') = pending_on SECONDS_PREFIX libs (am_store m) - set Bs"
    "pending_on HEIGHT_PREFIX libs (am_store m') = pending_on HEIGHT_PREFIX libs (am_store m) - set Bh"
proof -
  let ?now = "bx_timestamp block"
  obtain m1 B where prune: "prune_operations (ts_seconds ?now) m = (Inr (), m1)" "ledger_ok m1" "am_policies m1 = am_policies m"
      "retained_keys (am_store m1) = retained_keys (am_store m) - B"
      "B \<subseteq> {k \<in> retained_keys (am_store m). op_due (ts_seconds ?now) k}"
    and out: "\<And>k. \<not> prefix OPERATION_ZONE k \<Longrightarrow> kv_view (am_store m1) k = kv_view (am_store m) k"
    and left: "\<forall>b \<le> Suc (unat (ts_seconds ?now)). card {k \<in> retained_keys (am_store m) - B. due op_dead b k} =
      card {k \<in> retained_keys (am_store m). due op_dead b k} - OPERATION_PRUNE_LIMIT"
    by (rule prune_run [OF led, where now = "ts_seconds ?now"]) (rule that)
  have wf: "kv_wf (am_store m1)" using prune(2) by (simp add: ledger_ok_def ledger_index_def)
  have com1: "com_ok libs (am_store m1) \<and> com_map libs (am_store m1) = com_map libs (am_store m)"
    by (rule com_ok_zone [OF com wf]) (rule out, use zones_disjoint in blast)
  then have pend: "pending_on p libs (am_store m1) = pending_on p libs (am_store m)" for p by (simp add: pending_on_def)
  obtain m' Bs Bh where ex: "expire_commitments libs ?now m1 = (Inr (map expired (Bs @ Bh)), m')" "com_ok libs (am_store m')"
    "am_policies m' = am_policies m1"
    "\<forall>k. \<not> prefix COMMITMENT_ZONE k \<longrightarrow> kv_view (am_store m') k = kv_view (am_store m1) k"
    "first_due SECONDS_PREFIX libs (am_store m1) (ts_seconds ?now) Bs"
    "first_due HEIGHT_PREFIX libs (am_store m1) (ts_block_height ?now) Bh"
    "pending_on SECONDS_PREFIX libs (am_store m') = pending_on SECONDS_PREFIX libs (am_store m1) - set Bs"
    "pending_on HEIGHT_PREFIX libs (am_store m') = pending_on HEIGHT_PREFIX libs (am_store m1) - set Bh"
    by (rule expire_run [OF conjunct1 [OF com1] codec, where now = ?now]) (rule that)
  have run: "end_blocker libs block m = (Inr (map expired (Bs @ Bh)), m')"
    using prune(1) ex(1) by (simp add: end_blocker_def st_bind_def)
  have wf': "kv_wf (am_store m')" using ex(2) by (simp add: com_ok_def)
  have led': "ledger_ok m' \<and> retained_keys (am_store m') = retained_keys (am_store m1)"
    by (rule ledger_ok_zone [OF prune(2) wf']) (use ex(4) zones_disjoint in blast)
  show thesis
  proof (rule that)
    show "end_blocker libs block m = (Inr (map expired (Bs @ Bh)), m')" by (rule run)
    show "first_due SECONDS_PREFIX libs (am_store m) (ts_seconds ?now) Bs" "first_due HEIGHT_PREFIX libs (am_store m) (ts_block_height ?now) Bh"
      using ex(5,6) by (simp_all add: first_due_def pend)
    show "retained_keys (am_store m') = retained_keys (am_store m) - B" using led' prune(4) by simp
  qed (use led' ex(2,3,4,7,8) prune(3,5) out left pend in simp_all)
qed

text \<open>The ends of consecutive blocks, one after the other.\<close>

fun end_blocks :: "acp_libs \<Rightarrow> block_exec_ctx list \<Rightarrow> unit acp" where
  "end_blocks libs [] = st_ret ()"
| "end_blocks libs (block # blocks) = st_bind (end_blocker libs block) (\<lambda>_. end_blocks libs blocks)"

lemma finite_pending [simp]:
  assumes "com_ok libs s" and "p \<in> {SECONDS_PREFIX, HEIGHT_PREFIX}"
  shows "finite (pending_on p libs s)"
proof (rule finite_imageD)
  have "commitment_expiry_key ` pending_on p libs s \<subseteq> dom (kv_view s)"
    using assms unfolding com_ok_def by blast
  then show "finite (commitment_expiry_key ` pending_on p libs s)" by (rule finite_subset [OF _ finite_view])
  show "inj_on commitment_expiry_key (pending_on p libs s)"
  proof (rule inj_onI)
    fix c d assume c: "c \<in> pending_on p libs s" and d: "d \<in> pending_on p libs s"
      and "commitment_expiry_key c = commitment_expiry_key d"
    then have "rc_id c = rc_id d" by (simp add: pending_key [OF c] pending_key [OF d])
    then have "Some c = Some d" using pendingD(1) [OF c] pendingD(1) [OF d] by metis
    then show "c = d" by blast
  qed
qed

lemma drained:
  assumes "card {x \<in> X. P x} = 0" and "finite X"
  shows "\<forall>x \<in> X. \<not> P x"
  using assms by auto

lemma end_blocks_drain:
  assumes "ledger_ok m" and "com_ok libs (am_store m)" and codec: "commitment_codec_ok libs"
    and "\<forall>b \<in> set blocks. t \<le> ts_seconds (bx_timestamp b) \<and> h \<le> ts_block_height (bx_timestamp b)"
  shows "\<exists>m'. end_blocks libs blocks m = (Inr (), m') \<and> ledger_ok m' \<and> com_ok libs (am_store m') \<and>
    card {k \<in> retained_keys (am_store m'). due op_dead (Suc (unat t)) k} =
      card {k \<in> retained_keys (am_store m). due op_dead (Suc (unat t)) k} - OPERATION_PRUNE_LIMIT * length blocks \<and>
    card {c \<in> pending_on SECONDS_PREFIX libs (am_store m'). com_due t c} =
      card {c \<in> pending_on SECONDS_PREFIX libs (am_store m). com_due t c} - EXPIRY_BATCH_SIZE * length blocks \<and>
    card {c \<in> pending_on HEIGHT_PREFIX libs (am_store m'). com_due h c} =
      card {c \<in> pending_on HEIGHT_PREFIX libs (am_store m). com_due h c} - EXPIRY_BATCH_SIZE * length blocks"
  using assms(1,2,4)
proof (induction blocks arbitrary: m)
  case (Cons b bs)
  have later: "Suc (unat t) \<le> Suc (unat (ts_seconds (bx_timestamp b)))" "unat t \<le> unat (ts_seconds (bx_timestamp b))"
    "unat h \<le> unat (ts_block_height (bx_timestamp b))"
    using Cons.prems(3) by (simp_all add: word_le_nat_alt)
  obtain m1 B Bs Bh where m1: "end_blocker libs b m = (Inr (map expired (Bs @ Bh)), m1)"
    "ledger_ok m1" "com_ok libs (am_store m1)" "am_policies m1 = am_policies m"
    "\<forall>k. \<not> prefix OPERATION_ZONE k \<and> \<not> prefix COMMITMENT_ZONE k \<longrightarrow> kv_view (am_store m1) k = kv_view (am_store m) k"
    "retained_keys (am_store m1) = retained_keys (am_store m) - B"
    "B \<subseteq> {k \<in> retained_keys (am_store m). op_due (ts_seconds (bx_timestamp b)) k}"
    "\<forall>x \<le> Suc (unat (ts_seconds (bx_timestamp b))). card {k \<in> retained_keys (am_store m) - B. due op_dead x k} =
      card {k \<in> retained_keys (am_store m). due op_dead x k} - OPERATION_PRUNE_LIMIT"
    "first_due SECONDS_PREFIX libs (am_store m) (ts_seconds (bx_timestamp b)) Bs"
    "first_due HEIGHT_PREFIX libs (am_store m) (ts_block_height (bx_timestamp b)) Bh"
    "pending_on SECONDS_PREFIX libs (am_store m1) = pending_on SECONDS_PREFIX libs (am_store m) - set Bs"
    "pending_on HEIGHT_PREFIX libs (am_store m1) = pending_on HEIGHT_PREFIX libs (am_store m) - set Bh"
    by (rule end_blocker_run [OF Cons.prems(1,2) codec, of b]) (rule that)
  have "\<forall>b \<in> set bs. t \<le> ts_seconds (bx_timestamp b) \<and> h \<le> ts_block_height (bx_timestamp b)"
    using Cons.prems(3) by simp
  from Cons.IH [OF m1(2,3) this] obtain m' where m': "end_blocks libs bs m1 = (Inr (), m')"
    "ledger_ok m'" "com_ok libs (am_store m')"
    "card {k \<in> retained_keys (am_store m'). due op_dead (Suc (unat t)) k} =
      card {k \<in> retained_keys (am_store m1). due op_dead (Suc (unat t)) k} - OPERATION_PRUNE_LIMIT * length bs"
    "card {c \<in> pending_on SECONDS_PREFIX libs (am_store m'). com_due t c} =
      card {c \<in> pending_on SECONDS_PREFIX libs (am_store m1). com_due t c} - EXPIRY_BATCH_SIZE * length bs"
    "card {c \<in> pending_on HEIGHT_PREFIX libs (am_store m'). com_due h c} =
      card {c \<in> pending_on HEIGHT_PREFIX libs (am_store m1). com_due h c} - EXPIRY_BATCH_SIZE * length bs"
    by blast
  have "end_blocks libs (b # bs) m = (Inr (), m')" using m1(1) m'(1) by (simp add: st_bind_def)
  moreover have "card {k \<in> retained_keys (am_store m1). due op_dead (Suc (unat t)) k} =
      card {k \<in> retained_keys (am_store m). due op_dead (Suc (unat t)) k} - OPERATION_PRUNE_LIMIT"
    unfolding m1(6) using m1(8) later(1) by blast
  moreover have "card {c \<in> pending_on SECONDS_PREFIX libs (am_store m1). com_due t c} =
      card {c \<in> pending_on SECONDS_PREFIX libs (am_store m). com_due t c} - EXPIRY_BATCH_SIZE"
    unfolding m1(11) using m1(9) later(2) unfolding first_due_def by blast
  moreover have "card {c \<in> pending_on HEIGHT_PREFIX libs (am_store m1). com_due h c} =
      card {c \<in> pending_on HEIGHT_PREFIX libs (am_store m). com_due h c} - EXPIRY_BATCH_SIZE"
    unfolding m1(12) using m1(10) later(3) unfolding first_due_def by blast
  ultimately show ?case using m'(2-6) by (intro exI [of _ m']) simp
qed simp

end
