(* ===== verification/Acp_Invariants.thy ===== *)
theory Acp_Invariants
  imports Acp_Atomicity
begin

text \<open>
  The registration invariant of the ACP module. The relationship records of a store are seen as a map
  from keys to records; \<open>reg_ok\<close> says that every record sits under its own key, that an owner record
  names an actor who is also its recorded owner, and that an object has at most one owner record. Every
  operation keeps it, whether it succeeds or fails, and under it the owner lookup never fails.
\<close>

section \<open>Relationship records of a store\<close>

definition rel_map :: "acp_libs \<Rightarrow> (bytes \<rightharpoonup> bytes) \<Rightarrow> bytes \<Rightarrow> relationship_record option" where
  "rel_map libs V k =
     (if prefix RELATIONSHIP_PREFIX k
      then (case V k of
              None \<Rightarrow> None
            | Some bs \<Rightarrow> (case unjson_relationship libs bs of Inl _ \<Rightarrow> None | Inr rec \<Rightarrow> Some rec))
      else None)"

definition is_owner_record :: "relationship_record \<Rightarrow> bool" where
  "is_owner_record rec \<longleftrightarrow> rel_relation (rr_relationship rec) = ''owner''"

definition record_object :: "relationship_record \<Rightarrow> string \<times> string \<times> string" where
  "record_object rec =
     (rr_policy_id rec, rel_resource (rr_relationship rec), rel_object_id (rr_relationship rec))"

definition own_key :: "acp_libs \<Rightarrow> relationship_record \<Rightarrow> bytes" where
  "own_key libs rec = relationship_key (rr_policy_id rec) (relationship_storage_key libs (rr_relationship rec))"

definition no_slash :: "string \<Rightarrow> bool" where
  "no_slash s \<longleftrightarrow> CHR ''/'' \<notin> set s"

definition record_ok :: "acp_libs \<Rightarrow> bytes \<Rightarrow> relationship_record \<Rightarrow> bool" where
  "record_ok libs k rec \<longleftrightarrow>
     k = own_key libs rec \<and> no_slash (rr_policy_id rec) \<and>
     (is_owner_record rec \<longrightarrow>
        (\<exists>d. rel_subject (rr_relationship rec) = Entity d \<and> md_owner_did (rr_metadata rec) = as_str d))"

definition reg_ok :: "acp_libs \<Rightarrow> (bytes \<rightharpoonup> relationship_record) \<Rightarrow> bool" where
  "reg_ok libs M \<longleftrightarrow>
     (\<forall>k rec. M k = Some rec \<longrightarrow> record_ok libs k rec) \<and>
     (\<forall>k k' rec rec'. M k = Some rec \<longrightarrow> M k' = Some rec' \<longrightarrow> is_owner_record rec \<longrightarrow> is_owner_record rec' \<longrightarrow>
        record_object rec = record_object rec' \<longrightarrow> k = k')"

text \<open>The registration of an object: its owner record.\<close>

definition registered ::
  "(bytes \<rightharpoonup> relationship_record) \<Rightarrow> string \<times> string \<times> string \<Rightarrow> relationship_record \<Rightarrow> bool" where
  "registered M x rec \<longleftrightarrow> (\<exists>k. M k = Some rec) \<and> is_owner_record rec \<and> record_object rec = x"

definition object_of :: "string \<Rightarrow> object \<Rightarrow> string \<times> string \<times> string" where
  "object_of pid ob = (pid, obj_resource ob, obj_id ob)"

text \<open>What holds of the store apart from registrations: every relationship record decodes and policy
  identifiers have no separator.\<close>

definition base_inv :: "acp_libs \<Rightarrow> acp_module \<Rightarrow> bool" where
  "base_inv libs m \<longleftrightarrow>
     kv_wf (am_store m) \<and>
     (\<forall>k bs. kv_view (am_store m) k = Some bs \<longrightarrow> prefix RELATIONSHIP_PREFIX k \<longrightarrow> is_ok (unjson_relationship libs bs)) \<and>
     (\<forall>i bs. kv_view (am_store m) (policy_key i) = Some bs \<longrightarrow> no_slash i) \<and>
     ord_wf (am_policies m) \<and> (\<forall>i p. map_of (am_policies m) i = Some p \<longrightarrow> no_slash i)"

abbreviation records :: "acp_libs \<Rightarrow> acp_module \<Rightarrow> bytes \<rightharpoonup> relationship_record" where
  "records libs m \<equiv> rel_map libs (kv_view (am_store m))"

definition acp_inv :: "acp_libs \<Rightarrow> acp_module \<Rightarrow> bool" where
  "acp_inv libs m \<longleftrightarrow> base_inv libs m \<and> reg_ok libs (records libs m)"


section \<open>Effects of writes\<close>

lemma rel_map_Some:
  "rel_map libs V k = Some rec \<longleftrightarrow>
     prefix RELATIONSHIP_PREFIX k \<and> (\<exists>bs. V k = Some bs \<and> unjson_relationship libs bs = Inr rec)"
  by (auto simp: rel_map_def split: option.splits sum.splits)

lemma rel_map_other [simp]: "\<not> prefix RELATIONSHIP_PREFIX k \<Longrightarrow> rel_map libs (V(k := v)) = rel_map libs V"
  by (auto simp: rel_map_def fun_eq_iff)

lemma rel_map_put:
  "prefix RELATIONSHIP_PREFIX k \<Longrightarrow> unjson_relationship libs bs = Inr rec \<Longrightarrow>
     rel_map libs (V(k \<mapsto> bs)) = (rel_map libs V)(k \<mapsto> rec)"
  by (auto simp: rel_map_def fun_eq_iff)

lemma rel_map_delete [simp]: "rel_map libs (V(k := None)) = (rel_map libs V)(k := None)"
  by (auto simp: rel_map_def fun_eq_iff)

lemma relationship_keys [simp]: "prefix RELATIONSHIP_PREFIX (relationship_key pid s)"
  by (simp add: relationship_key_def)

lemma own_key_prefix [simp]: "prefix RELATIONSHIP_PREFIX (own_key libs rec)"
  by (simp add: own_key_def)

text \<open>The other keys of the module are not relationship keys.\<close>

lemma other_keys [simp]:
  "\<not> prefix RELATIONSHIP_PREFIX (policy_key i)" "\<not> prefix RELATIONSHIP_PREFIX POLICY_COUNTER_KEY"
  "\<not> prefix RELATIONSHIP_PREFIX (access_decision_key i)" "\<not> prefix RELATIONSHIP_PREFIX PARAMS_KEY"
  "\<not> prefix RELATIONSHIP_PREFIX (commitment_key c)" "\<not> prefix RELATIONSHIP_PREFIX commitment_counter_key"
  "\<not> prefix RELATIONSHIP_PREFIX (commitment_by_commitment_index_key r c)"
  "\<not> prefix RELATIONSHIP_PREFIX (commitment_expiry_key rc)"
  "\<not> prefix RELATIONSHIP_PREFIX (amendment_event_key c)" "\<not> prefix RELATIONSHIP_PREFIX amendment_event_counter_key"
  "\<not> prefix RELATIONSHIP_PREFIX (amendment_event_policy_index_key i c)"
  by (simp_all add: key_simps policy_key_def access_decision_key_def commitment_key_def commitment_counter_key_def
      commitment_by_commitment_index_key_def commitment_by_commitment_index_prefix_def commitment_expiry_key_def
      expiry_prefix_def SECONDS_PREFIX_def HEIGHT_PREFIX_def amendment_event_key_def amendment_event_counter_key_def
      amendment_event_policy_index_key_def amendment_event_policy_index_prefix_def split: duration.splits)

text \<open>Only policy records have policy keys.\<close>

lemma policy_keys_apart [simp]:
  "policy_key i \<noteq> POLICY_COUNTER_KEY" "policy_key i \<noteq> access_decision_key j" "policy_key i \<noteq> PARAMS_KEY"
  "policy_key i \<noteq> commitment_key c" "policy_key i \<noteq> commitment_counter_key"
  "policy_key i \<noteq> commitment_by_commitment_index_key r c" "policy_key i \<noteq> commitment_expiry_key rc"
  "policy_key i \<noteq> amendment_event_key c" "policy_key i \<noteq> amendment_event_counter_key"
  "policy_key i \<noteq> amendment_event_policy_index_key j c" "policy_key i \<noteq> relationship_key p s"
  "policy_key i = policy_key j \<longleftrightarrow> i = j"
  by (simp_all add: key_simps policy_key_def access_decision_key_def commitment_key_def commitment_counter_key_def
      commitment_by_commitment_index_key_def commitment_by_commitment_index_prefix_def commitment_expiry_key_def
      expiry_prefix_def SECONDS_PREFIX_def HEIGHT_PREFIX_def amendment_event_key_def amendment_event_counter_key_def
      amendment_event_policy_index_key_def amendment_event_policy_index_prefix_def relationship_key_def
      split: duration.splits)

lemma reg_ok_delete: "reg_ok libs M \<Longrightarrow> reg_ok libs (M(k := None))"
  unfolding reg_ok_def by (auto split: if_splits)

text \<open>A record may be stored under its own key when it is not an owner record, when its object has no
  other owner record, or when it replaces one with the same key.\<close>

lemma reg_ok_put:
  assumes "reg_ok libs M" and "record_ok libs (own_key libs rec) rec"
    and "is_owner_record rec \<Longrightarrow> \<forall>k' rec'. M k' = Some rec' \<longrightarrow> is_owner_record rec' \<longrightarrow>
           record_object rec' = record_object rec \<longrightarrow> k' = own_key libs rec"
  shows "reg_ok libs (M(own_key libs rec \<mapsto> rec))"
  using assms unfolding reg_ok_def by (auto split: if_splits)

lemma registered_unique:
  assumes "reg_ok libs M" and "registered M x rec" and "registered M x rec'"
  shows "rec = rec'"
  using assms unfolding reg_ok_def registered_def by (metis option.inject)

lemma registered_key: "reg_ok libs M \<Longrightarrow> registered M x rec \<Longrightarrow> M (own_key libs rec) = Some rec"
  unfolding reg_ok_def registered_def record_ok_def by metis



section \<open>The owner lookup\<close>

lemma key_split:
  assumes "no_slash pid" and "no_slash pid'" and "prefix (relationship_key pid s) (relationship_key pid' s')"
  shows "pid = pid' \<and> prefix s s'"
proof -
  from assms(3) have "prefix (pid @ CHR ''/'' # s) (pid' @ CHR ''/'' # s')" by (simp add: relationship_key_def)
  from prefix_sep_split [OF this] assms(1,2) show ?thesis by (simp add: no_slash_def)
qed

lemma owner_prefix_exact:
  assumes "hex_ok libs" and "no_slash pid" and "record_ok libs k rec"
  shows "prefix (relationship_storage_prefix pid (acp_relation_prefix libs (obj_resource ob) (obj_id ob) ''owner'')) k \<longleftrightarrow>
     is_owner_record rec \<and> record_object rec = object_of pid ob"
proof
  let ?p = "acp_relation_prefix libs (obj_resource ob) (obj_id ob) ''owner''"
  have k: "k = own_key libs rec" "no_slash (rr_policy_id rec)" using assms(3) by (simp_all add: record_ok_def)
  assume "prefix (relationship_storage_prefix pid ?p) k"
  then have "pid = rr_policy_id rec \<and> prefix ?p (relationship_storage_key libs (rr_relationship rec))"
    using key_split [OF assms(2) k(2)] k(1) by (simp add: storage_prefix_key own_key_def)
  with acp_relation_prefix_exact [OF assms(1), of "obj_resource ob" "obj_id ob" "''owner''" "rr_relationship rec"]
  show "is_owner_record rec \<and> record_object rec = object_of pid ob"
    by (simp add: is_owner_record_def record_object_def object_of_def)
next
  assume o: "is_owner_record rec \<and> record_object rec = object_of pid ob"
  then have "prefix (acp_relation_prefix libs (obj_resource ob) (obj_id ob) ''owner'')
      (relationship_storage_key libs (rr_relationship rec))"
    using storage_key_prefix(1) [of libs "rr_relationship rec"]
    by (simp add: is_owner_record_def record_object_def object_of_def)
  with o assms(3) show "prefix (relationship_storage_prefix pid (acp_relation_prefix libs (obj_resource ob) (obj_id ob) ''owner'')) k"
    by (simp add: storage_prefix_key record_ok_def own_key_def record_object_def object_of_def)
qed

lemma store_record:
  assumes "acp_inv libs m" and "kv_view (am_store m) k = Some bs" and "prefix RELATIONSHIP_PREFIX k"
  obtains rec where "unjson_relationship libs bs = Inr rec" and "records libs m k = Some rec"
    and "record_ok libs k rec"
proof -
  from assms have "is_ok (unjson_relationship libs bs)" unfolding acp_inv_def base_inv_def by blast
  then obtain rec where "unjson_relationship libs bs = Inr rec" by (auto simp: is_ok_iff)
  moreover from this assms have "records libs m k = Some rec" by (auto simp: rel_map_Some)
  ultimately show thesis using that assms(1) by (auto simp: acp_inv_def base_inv_def reg_ok_def)
qed

lemma storage_prefix_rel [simp]: "prefix (relationship_storage_prefix pid p) k \<Longrightarrow> prefix RELATIONSHIP_PREFIX k"
  by (auto simp: storage_prefix_key relationship_key_def prefix_def)

abbreviation owner_entries :: "acp_libs \<Rightarrow> kv_store \<Rightarrow> string \<Rightarrow> object \<Rightarrow> (bytes \<times> bytes) list" where
  "owner_entries libs s pid ob \<equiv>
     prefix_iter s (relationship_storage_prefix pid (acp_relation_prefix libs (obj_resource ob) (obj_id ob) ''owner''))"

lemma owner_entry:
  assumes inv: "acp_inv libs m" and hex: "hex_ok libs" and pid: "no_slash pid"
    and e: "(k, bs) \<in> set (owner_entries libs (am_store m) pid ob)"
  obtains rec where "unjson_relationship libs bs = Inr rec" and "k = own_key libs rec"
    and "record_ok libs k rec" and "registered (records libs m) (object_of pid ob) rec"
proof -
  have wf: "kv_wf (am_store m)" using inv by (simp add: acp_inv_def base_inv_def)
  from e have v: "kv_view (am_store m) k = Some bs"
    and pre: "prefix (relationship_storage_prefix pid (acp_relation_prefix libs (obj_resource ob) (obj_id ob) ''owner'')) k"
    by (simp_all add: prefix_iter_set [OF wf])
  obtain rec where rec: "unjson_relationship libs bs = Inr rec" "records libs m k = Some rec" "record_ok libs k rec"
    by (rule store_record [OF inv v storage_prefix_rel [OF pre]])
  from owner_prefix_exact [OF hex pid rec(3), of ob] pre have "is_owner_record rec \<and> record_object rec = object_of pid ob"
    by blast
  with rec that show thesis by (auto simp: registered_def record_ok_def)
qed

lemma owner_entries_empty:
  assumes inv: "acp_inv libs m" and hex: "hex_ok libs" and pid: "no_slash pid"
  shows "owner_entries libs (am_store m) pid ob = [] \<longleftrightarrow> (\<forall>rec. \<not> registered (records libs m) (object_of pid ob) rec)"
proof
  assume none: "\<forall>rec. \<not> registered (records libs m) (object_of pid ob) rec"
  have "e \<notin> set (owner_entries libs (am_store m) pid ob)" for e
    using owner_entry [OF inv hex pid, of "fst e" "snd e" ob] none by (metis prod.collapse)
  then show "owner_entries libs (am_store m) pid ob = []" by (metis list.set_intros(1) neq_Nil_conv)
next
  assume empty: "owner_entries libs (am_store m) pid ob = []"
  show "\<forall>rec. \<not> registered (records libs m) (object_of pid ob) rec"
  proof (intro allI notI)
    fix rec assume "registered (records libs m) (object_of pid ob) rec"
    then obtain k bs where "kv_view (am_store m) k = Some bs" "records libs m k = Some rec"
      and o: "is_owner_record rec \<and> record_object rec = object_of pid ob"
      by (auto simp: registered_def rel_map_Some)
    moreover from this inv have "record_ok libs k rec" by (auto simp: acp_inv_def base_inv_def reg_ok_def)
    ultimately have "(k, bs) \<in> set (owner_entries libs (am_store m) pid ob)"
      using owner_prefix_exact [OF hex pid, of k rec ob] inv by (simp add: prefix_iter_set acp_inv_def base_inv_def)
    with empty show False by simp
  qed
qed

lemma owner_lookup:
  assumes inv: "acp_inv libs m" and hex: "hex_ok libs" and pid: "no_slash pid"
  shows "(registration_owner_record libs m pid ob = Inr None \<and>
            (\<forall>rec. \<not> registered (records libs m) (object_of pid ob) rec)) \<or>
         (\<exists>rec. registration_owner_record libs m pid ob = Inr (Some rec) \<and>
            registered (records libs m) (object_of pid ob) rec)"
proof (cases "owner_entries libs (am_store m) pid ob")
  case Nil
  with owner_entries_empty [OF inv hex pid, of ob] show ?thesis by (simp add: registration_owner_record_def)
next
  case (Cons e es)
  let ?M = "records libs m"
  obtain k bs where e: "e = (k, bs)" by fastforce
  have "(k, bs) \<in> set (owner_entries libs (am_store m) pid ob)" using Cons e by simp
  then obtain rec where rec: "unjson_relationship libs bs = Inr rec" "k = own_key libs rec" "record_ok libs k rec"
    "registered ?M (object_of pid ob) rec"
    by (rule owner_entry [OF inv hex pid])
  have "es = []"
  proof (rule ccontr)
    assume "es \<noteq> []"
    then obtain k' bs' where e': "(k', bs') \<in> set es" by (metis list.set_intros(1) neq_Nil_conv surj_pair)
    then have "(k', bs') \<in> set (owner_entries libs (am_store m) pid ob)" using Cons by simp
    then obtain rec' where "k' = own_key libs rec'" "registered ?M (object_of pid ob) rec'"
      by (rule owner_entry [OF inv hex pid])
    with rec have "k' = k" using registered_unique [of libs ?M] inv by (metis acp_inv_def base_inv_def)
    moreover have "sorted_wrt (<) (map fst (owner_entries libs (am_store m) pid ob))"
      using inv by (intro prefix_iter_sorted) (simp add: acp_inv_def base_inv_def)
    ultimately show False using Cons e e' by force
  qed
  moreover from rec obtain d where "rel_subject (rr_relationship rec) = Entity d" "md_owner_did (rr_metadata rec) = as_str d"
    by (auto simp: record_ok_def registered_def)
  ultimately have "registration_owner_record libs m pid ob = Inr (Some rec)"
    using Cons e rec
    by (simp add: registration_owner_record_def storage_prefix_key own_key_def registered_def is_owner_record_def
        record_object_def object_of_def)
  with rec(4) show ?thesis by blast
qed



section \<open>Writes to a module\<close>

lemma base_wf: "base_inv libs m \<Longrightarrow> kv_wf (am_store m)"
  by (simp add: base_inv_def)

lemma base_put_other:
  assumes "base_inv libs m" and "\<not> prefix RELATIONSHIP_PREFIX k" and "\<forall>i. policy_key i \<noteq> k"
  shows "base_inv libs (m\<lparr>am_store := kv_put k v (am_store m)\<rparr>)"
    and "records libs (m\<lparr>am_store := kv_put k v (am_store m)\<rparr>) = records libs m"
  using assms by (auto simp: base_inv_def)

lemma base_put_policy:
  assumes "base_inv libs m" and "no_slash i"
  shows "base_inv libs (m\<lparr>am_store := kv_put (policy_key i) v (am_store m)\<rparr>)"
    and "records libs (m\<lparr>am_store := kv_put (policy_key i) v (am_store m)\<rparr>) = records libs m"
  using assms by (auto simp: base_inv_def)

lemma base_cache:
  "base_inv libs m \<Longrightarrow> no_slash i \<Longrightarrow> base_inv libs (m\<lparr>am_policies := ord_insert i p (am_policies m)\<rparr>)"
  by (auto simp: base_inv_def)

lemma base_delete:
  assumes "base_inv libs m"
  shows "base_inv libs (m\<lparr>am_store := kv_delete k (am_store m)\<rparr>)"
    and "records libs (m\<lparr>am_store := kv_delete k (am_store m)\<rparr>) = (records libs m)(k := None)"
  using assms by (auto simp: base_inv_def)

lemma base_put_record:
  assumes "base_inv libs m" and "relationship_codec_ok libs" and "record_dids rec"
  shows "base_inv libs (m\<lparr>am_store := kv_put (own_key libs rec) (json_relationship libs rec) (am_store m)\<rparr>)"
    and "records libs (m\<lparr>am_store := kv_put (own_key libs rec) (json_relationship libs rec) (am_store m)\<rparr>) =
           (records libs m)(own_key libs rec \<mapsto> rec)"
proof -
  have dec: "unjson_relationship libs (json_relationship libs rec) = Inr rec"
    using assms(2,3) by (simp add: relationship_codec_ok_def)
  have apart: "policy_key i \<noteq> own_key libs rec" for i by (simp add: own_key_def)
  show "base_inv libs (m\<lparr>am_store := kv_put (own_key libs rec) (json_relationship libs rec) (am_store m)\<rparr>)"
    using assms(1) dec apart by (auto simp: base_inv_def)
  show "records libs (m\<lparr>am_store := kv_put (own_key libs rec) (json_relationship libs rec) (am_store m)\<rparr>) =
      (records libs m)(own_key libs rec \<mapsto> rec)"
    using base_wf [OF assms(1)] rel_map_put [OF own_key_prefix dec] by simp
qed

lemma registered_dids: "relationship_codec_ok libs \<Longrightarrow> registered (records libs m) x rec \<Longrightarrow> record_dids rec"
  by (auto simp: registered_def rel_map_Some relationship_codec_ok_def)

text \<open>A computation that touches no relationship record and no policy.\<close>

definition aside :: "acp_libs \<Rightarrow> 'a acp \<Rightarrow> bool" where
  "aside libs c \<longleftrightarrow>
     (\<forall>m r m'. base_inv libs m \<longrightarrow> c m = (r, m') \<longrightarrow>
        base_inv libs m' \<and> records libs m' = records libs m \<and> am_policies m' = am_policies m)"

named_theorems aside_rules \<open>computations that touch no relationship record\<close>

lemma asideD:
  "aside libs c \<Longrightarrow> base_inv libs m \<Longrightarrow> c m = (r, m') \<Longrightarrow>
     base_inv libs m' \<and> records libs m' = records libs m \<and> am_policies m' = am_policies m"
  unfolding aside_def by blast

lemma aside_reads [aside_rules]:
  "aside libs (st_ret x)" "aside libs (st_fail e)" "aside libs (st_lift r)" "aside libs (st_read f)"
  by (simp_all add: aside_def)

lemma aside_bind [aside_rules]:
  assumes "aside libs c" and "\<And>x. aside libs (f x)"
  shows "aside libs (st_bind c f)"
  unfolding aside_def
proof (intro allI impI)
  fix m r m' assume inv: "base_inv libs m" and run: "st_bind c f m = (r, m')"
  obtain r1 m1 where c: "c m = (r1, m1)" by fastforce
  note c' = asideD [OF assms(1) inv c]
  show "base_inv libs m' \<and> records libs m' = records libs m \<and> am_policies m' = am_policies m"
  proof (cases r1)
    case (Inl e)
    with run c c' show ?thesis by (simp add: st_bind_def)
  next
    case (Inr x)
    with run c have "f x m1 = (r, m')" by (simp add: st_bind_def)
    from asideD [OF assms(2) _ this] c' show ?thesis by simp
  qed
qed

lemma aside_split [aside_rules]:
  "aside libs x \<Longrightarrow> aside libs y \<Longrightarrow> aside libs (if b then x else y)"
  "aside libs x \<Longrightarrow> (\<And>v. aside libs (g v)) \<Longrightarrow> aside libs (case r of None \<Rightarrow> x | Some v \<Rightarrow> g v)"
  by (simp_all split: option.split)

lemma aside_put: "\<not> prefix RELATIONSHIP_PREFIX k \<Longrightarrow> \<forall>i. policy_key i \<noteq> k \<Longrightarrow> aside libs (acp_put k v)"
  unfolding aside_def by (auto simp: base_put_other(1) dest: base_wf)

lemma aside_delete: "\<not> prefix RELATIONSHIP_PREFIX k \<Longrightarrow> aside libs (acp_delete k)"
  unfolding aside_def by (auto simp: base_delete(1) rel_map_def fun_eq_iff)

lemma aside_keys [aside_rules]:
  "aside libs (acp_put POLICY_COUNTER_KEY v)" "aside libs (acp_put (access_decision_key j) v)" "aside libs (acp_put PARAMS_KEY v)"
  "aside libs (acp_put (commitment_key c) v)" "aside libs (acp_put commitment_counter_key v)"
  "aside libs (acp_put (commitment_by_commitment_index_key r c) v)" "aside libs (acp_put (commitment_expiry_key rc) v)"
  "aside libs (acp_put (amendment_event_key c) v)" "aside libs (acp_put amendment_event_counter_key v)"
  "aside libs (acp_put (amendment_event_policy_index_key j c) v)"
  "aside libs (acp_delete (commitment_by_commitment_index_key r c))" "aside libs (acp_delete (commitment_expiry_key rc))"
  by (simp_all add: aside_put aside_delete)

lemma aside_commitments [aside_rules]:
  "aside libs (update_commitment libs c)" "aside libs (create_commitment libs c)"
  "aside libs (create_amendment_event libs e)" "aside libs (update_amendment_event libs e)"
  unfolding create_commitment_def create_amendment_event_def update_amendment_event_def update_commitment_def Let_def
  by (intro aside_rules)+



section \<open>Steps of the registry\<close>

text \<open>What a command of an actor on a policy may do to the relationship records. Ownership is created where
  there is none, archived and restored by the owner, and moved to the actor only by an amendment, for
  which \<open>prior\<close> is the evidence.\<close>

definition owned_by :: "did \<Rightarrow> relationship_record \<Rightarrow> bool" where
  "owned_by d rec \<longleftrightarrow> is_owner_record rec \<and> rel_subject (rr_relationship rec) = Entity d \<and>
     md_owner_did (rr_metadata rec) = as_str d"

definition drop_object ::
  "string \<times> string \<times> string \<Rightarrow> (bytes \<rightharpoonup> relationship_record) \<Rightarrow> bytes \<rightharpoonup> relationship_record" where
  "drop_object x M k = (case M k of None \<Rightarrow> None | Some rec \<Rightarrow> if record_object rec = x then None else Some rec)"

inductive reg_step ::
  "acp_libs \<Rightarrow> did \<Rightarrow> string \<Rightarrow> (object \<Rightarrow> relationship_record \<Rightarrow> bool) \<Rightarrow>
     (bytes \<rightharpoonup> relationship_record) \<Rightarrow> (bytes \<rightharpoonup> relationship_record) \<Rightarrow> bool"
  for libs actor pid prior where
  idle: "reg_step libs actor pid prior M M"
| grant: "\<lbrakk>\<not> is_owner_record rec; rr_policy_id rec = pid; M (own_key libs rec) = None\<rbrakk> \<Longrightarrow>
    reg_step libs actor pid prior M (M(own_key libs rec \<mapsto> rec))"
| revoke: "\<forall>rec. M k = Some rec \<longrightarrow> \<not> is_owner_record rec \<Longrightarrow>
    reg_step libs actor pid prior M (M(k := None))"
| register: "\<lbrakk>\<forall>rec'. \<not> registered M (object_of pid ob) rec'; owned_by actor rec; record_object rec = object_of pid ob;
    \<not> rr_archived rec\<rbrakk> \<Longrightarrow>
    reg_step libs actor pid prior M (M(own_key libs rec \<mapsto> rec))"
| archive: "\<lbrakk>registered M (object_of pid ob) rec; \<not> rr_archived rec; md_owner_did (rr_metadata rec) = as_str actor\<rbrakk> \<Longrightarrow>
    reg_step libs actor pid prior M ((drop_object (object_of pid ob) M)(own_key libs rec \<mapsto> rec\<lparr>rr_archived := True\<rparr>))"
| unarchive: "\<lbrakk>registered M (object_of pid ob) rec; md_owner_did (rr_metadata rec) = as_str actor\<rbrakk> \<Longrightarrow>
    reg_step libs actor pid prior M (M(own_key libs rec \<mapsto> rec\<lparr>rr_archived := False\<rparr>))"
| amend: "\<lbrakk>registered M (object_of pid ob) rec; \<not> rr_archived rec; prior ob rec;
    owned_by actor rec'; record_object rec' = object_of pid ob; \<not> rr_archived rec'\<rbrakk> \<Longrightarrow>
    reg_step libs actor pid prior M (M(own_key libs rec := None, own_key libs rec' \<mapsto> rec'))"

lemma own_key_fields [simp]:
  "own_key libs (rec\<lparr>rr_archived := b\<rparr>) = own_key libs rec" "own_key libs (rec\<lparr>rr_metadata := md\<rparr>) = own_key libs rec"
  "record_object (rec\<lparr>rr_archived := b\<rparr>) = record_object rec" "record_object (rec\<lparr>rr_metadata := md\<rparr>) = record_object rec"
  "is_owner_record (rec\<lparr>rr_archived := b\<rparr>) = is_owner_record rec"
  "is_owner_record (rec\<lparr>rr_metadata := md\<rparr>) = is_owner_record rec"
  by (simp_all add: own_key_def record_object_def is_owner_record_def)

lemma reg_ok_sub: "reg_ok libs M \<Longrightarrow> M' \<subseteq>\<^sub>m M \<Longrightarrow> reg_ok libs M'"
  unfolding reg_ok_def map_le_def dom_def by (smt (verit) mem_Collect_eq option.distinct(1))

lemma drop_object_sub: "drop_object x M \<subseteq>\<^sub>m M"
  by (auto simp: map_le_def drop_object_def split: option.splits if_splits)

lemma registered_ok: "reg_ok libs M \<Longrightarrow> registered M x rec \<Longrightarrow> record_ok libs (own_key libs rec) rec"
  unfolding reg_ok_def registered_def record_ok_def by metis

lemma registered_upd:
  assumes "reg_ok libs M" and "registered M x rec" and "own_key libs rec' = own_key libs rec"
    and "record_object rec' = record_object rec" and "record_ok libs (own_key libs rec') rec'"
  shows "reg_ok libs (M(own_key libs rec' \<mapsto> rec'))"
proof (rule reg_ok_put [OF assms(1,5)], intro allI impI)
  fix k r assume "M k = Some r" "is_owner_record r" "record_object r = record_object rec'"
  then have "registered M x r" using assms(2,4) by (auto simp: registered_def)
  with assms have "r = rec" using registered_unique by metis
  with \<open>M k = Some r\<close> assms(1,3) show "k = own_key libs rec'" by (auto simp: reg_ok_def record_ok_def)
qed

lemma owned_record_ok: "owned_by d rec \<Longrightarrow> no_slash (rr_policy_id rec) \<Longrightarrow> record_ok libs (own_key libs rec) rec"
  by (auto simp: owned_by_def record_ok_def)

text \<open>Every step keeps the registration invariant.\<close>

lemma reg_step_ok:
  assumes "reg_step libs actor pid prior M M'" and ok: "reg_ok libs M" and "no_slash pid"
  shows "reg_ok libs M'"
  using assms(1)
proof cases
  case idle
  then show ?thesis using ok by simp
next
  case (grant rec)
  then show ?thesis using reg_ok_put [OF ok, of rec] assms(3) by (simp add: record_ok_def)
next
  case (revoke k)
  then show ?thesis using reg_ok_delete [OF ok] by simp
next
  case (register ob rec)
  have "record_ok libs (own_key libs rec) rec"
    using register assms(3) by (intro owned_record_ok) (auto simp: record_object_def object_of_def)
  then show ?thesis
    unfolding register(1) by (rule reg_ok_put [OF ok]) (use register in \<open>auto simp: registered_def\<close>)
next
  case (archive ob rec)
  let ?D = "drop_object (object_of pid ob) M" and ?rec = "rec\<lparr>rr_archived := True\<rparr>"
  have d: "reg_ok libs ?D" by (rule reg_ok_sub [OF ok drop_object_sub])
  have "record_ok libs (own_key libs ?rec) ?rec" using registered_ok [OF ok archive(2)] by (simp add: record_ok_def)
  from reg_ok_put [OF d this] archive show ?thesis
    by (auto simp: drop_object_def registered_def split: option.splits if_splits)
next
  case (unarchive ob rec)
  let ?rec = "rec\<lparr>rr_archived := False\<rparr>"
  have "record_ok libs (own_key libs ?rec) ?rec" using registered_ok [OF ok unarchive(2)] by (simp add: record_ok_def)
  from registered_upd [OF ok unarchive(2) _ _ this] unarchive show ?thesis by simp
next
  case (amend ob rec rec')
  have d: "reg_ok libs (M(own_key libs rec := None))" by (rule reg_ok_delete [OF ok])
  have r: "record_ok libs (own_key libs rec') rec'"
    using amend assms(3) by (intro owned_record_ok) (auto simp: record_object_def object_of_def)
  show ?thesis unfolding amend(1)
  proof (rule reg_ok_put [OF d r], intro allI impI)
    fix k r assume a: "(M(own_key libs rec := None)) k = Some r" "is_owner_record r" "record_object r = record_object rec'"
    then have "M k = Some r" "k \<noteq> own_key libs rec" by (auto split: if_splits)
    then have "registered M (object_of pid ob) r" using a amend by (auto simp: registered_def)
    with amend ok have "r = rec" using registered_unique by metis
    with \<open>M k = Some r\<close> ok have "k = own_key libs rec" by (auto simp: reg_ok_def record_ok_def)
    with \<open>k \<noteq> own_key libs rec\<close> show "k = own_key libs rec'" by simp
  qed
qed



section \<open>Commands take steps of the registry\<close>

definition amend_evidence ::
  "acp_libs \<Rightarrow> did \<Rightarrow> string \<Rightarrow> policy_cmd \<Rightarrow> acp_module \<Rightarrow> object \<Rightarrow> relationship_record \<Rightarrow> bool" where
  "amend_evidence libs actor pid cmd m ob rec \<longleftrightarrow>
     (\<exists>cid proof c leaf. cmd = RevealRegistration cid proof \<and> rp_object proof = ob \<and>
        get_commitment_by_id libs m cid = Inr (Some c) \<and> \<not> rc_expired c \<and> rc_policy_id c = pid \<and>
        registration_leaf libs pid ob (as_str actor) = Inr leaf \<and>
        verify_merkle_proof libs (rc_commitment c) proof leaf \<and>
        ts_block_height (md_creation_ts (rc_metadata c)) \<le> ts_block_height (md_creation_ts (rr_metadata rec)))"

text \<open>The identities a command stores: the acting account, and the subject of a relationship it sets. Every caller
  builds them with \<open>Did::new\<close>.\<close>

definition command_dids :: "did \<Rightarrow> policy_cmd \<Rightarrow> bool" where
  "command_dids actor cmd \<longleftrightarrow>
     did_ok actor \<and> (case cmd of SetRelationship rel \<Rightarrow> subject_ok (rel_subject rel) | _ \<Rightarrow> True)"

text \<open>A result whose record was just written, in a state where it may still be stamped.\<close>

definition stampable ::
  "acp_libs \<Rightarrow> did \<Rightarrow> string \<Rightarrow> (object \<Rightarrow> relationship_record \<Rightarrow> bool) \<Rightarrow> acp_module \<Rightarrow> relationship_record \<Rightarrow>
     acp_module \<Rightarrow> bool" where
  "stampable libs actor pid prior m rec m' \<longleftrightarrow>
     base_inv libs m' \<and> am_policies m' = am_policies m \<and> rr_policy_id rec = pid \<and> record_dids rec \<and>
     md_owner_did (rr_metadata rec) = as_str actor \<and>
     (\<exists>M. records libs m' = M(own_key libs rec \<mapsto> rec) \<and>
        (\<forall>md. md_owner_did md = as_str actor \<longrightarrow>
           reg_step libs actor pid prior (records libs m) (M(own_key libs rec \<mapsto> rec\<lparr>rr_metadata := md\<rparr>))))"

definition plain_step ::
  "acp_libs \<Rightarrow> did \<Rightarrow> string \<Rightarrow> (object \<Rightarrow> relationship_record \<Rightarrow> bool) \<Rightarrow> acp_module \<Rightarrow> acp_module \<Rightarrow> bool" where
  "plain_step libs actor pid prior m m' \<longleftrightarrow>
     base_inv libs m' \<and> am_policies m' = am_policies m \<and> reg_step libs actor pid prior (records libs m) (records libs m')"

lemma stampable_plain: "stampable libs actor pid prior m rec m' \<Longrightarrow> plain_step libs actor pid prior m m'"
  by (auto simp: stampable_def plain_step_def dest: spec [of _ "rr_metadata rec"])

lemma known_policy:
  "base_inv libs m \<Longrightarrow> cached_policy m pid = Inr p \<Longrightarrow> no_slash pid"
  "base_inv libs m \<Longrightarrow> has_policy_id m pid \<Longrightarrow> no_slash pid"
  by (auto simp: base_inv_def cached_policy_def has_policy_id_def)

lemma set_relationship_run:
  "rr_policy_id rec = pid \<Longrightarrow> set_relationship libs pid (relationship_storage_key libs (rr_relationship rec)) rec m =
     (Inr (), m\<lparr>am_store := kv_put (own_key libs rec) (json_relationship libs rec) (am_store m)\<rparr>)"
  by (simp add: set_relationship_def own_key_def)

lemma put_stampable:
  assumes "base_inv libs m1" and "relationship_codec_ok libs" and "am_policies m1 = am_policies m"
    and "rr_policy_id rec = pid" and "record_dids rec" and "md_owner_did (rr_metadata rec) = as_str actor"
    and "\<And>md. md_owner_did md = as_str actor \<Longrightarrow>
      reg_step libs actor pid prior (records libs m) ((records libs m1)(own_key libs rec \<mapsto> rec\<lparr>rr_metadata := md\<rparr>))"
  shows "stampable libs actor pid prior m rec
    (m1\<lparr>am_store := kv_put (own_key libs rec) (json_relationship libs rec) (am_store m1)\<rparr>)"
  unfolding stampable_def using base_put_record [OF assms(1,2,5)] assms(3-7) by auto

lemma set_step:
  assumes inv: "acp_inv libs m" and codec: "relationship_codec_ok libs" and dids: "subject_ok (rel_subject rel)"
    and run: "cmd_set_relationship libs actor pid rel m = (Inr r, m')"
  shows "(\<exists>rec. r = SetRelationshipResult True rec) \<and> m' = m \<or>
    (\<exists>rec. r = SetRelationshipResult False rec \<and> stampable libs actor pid prior m rec m')"
proof -
  let ?rec = "\<lparr>rr_policy_id = pid, rr_relationship = rel, rr_archived = False, rr_metadata = plain_metadata (as_str actor)\<rparr>"
  from run consider rec where "r = SetRelationshipResult True rec" "m' = m"
    | "r = SetRelationshipResult False ?rec" "rel_relation rel \<noteq> ''owner''" "get_relationship libs m pid rel = Inr None"
      "set_relationship libs pid (relationship_storage_key libs rel) ?rec m = (Inr (), m')"
    by (auto simp: cmd_set_relationship_def result_simps Let_def split: if_splits option.splits)
  then show ?thesis
  proof cases
    case 2
    have base: "base_inv libs m" using inv by (simp add: acp_inv_def)
    have "records libs m (own_key libs ?rec) = None"
      using 2(3) by (auto simp: get_relationship_def own_key_def rel_map_def split: option.splits if_splits)
    then have "reg_step libs actor pid prior (records libs m) ((records libs m)(own_key libs ?rec \<mapsto> ?rec\<lparr>rr_metadata := md\<rparr>))" for md
      using reg_step.grant [of "?rec\<lparr>rr_metadata := md\<rparr>" pid "records libs m" libs actor prior] 2(2)
      by (simp add: is_owner_record_def own_key_def)
    from put_stampable [OF base codec refl _ _ _ this] 2(1,4) dids show ?thesis
      using set_relationship_run [of ?rec pid libs m] by (auto simp: plain_metadata_def)
  qed blast
qed

lemma delete_step:
  assumes inv: "acp_inv libs m" and run: "cmd_delete_relationship libs actor pid rel m = (Inr r, m')"
  shows "(\<exists>b. r = DeleteRelationshipResult b) \<and> plain_step libs actor pid prior m m'"
proof -
  let ?k = "relationship_key pid (relationship_storage_key libs rel)"
  from run obtain stored where r: "r = DeleteRelationshipResult (stored \<noteq> None)" and no: "rel_relation rel \<noteq> ''owner''"
    and get: "get_relationship libs m pid rel = Inr stored"
    and m': "m' = m\<lparr>am_store := kv_delete ?k (am_store m)\<rparr>"
    by (auto simp: cmd_delete_relationship_def delete_relationship_def result_simps split: if_splits)
  have base: "base_inv libs m" using inv by (simp add: acp_inv_def)
  have not_owner: "\<forall>rec. records libs m ?k = Some rec \<longrightarrow> \<not> is_owner_record rec"
    using get no by (auto simp: get_relationship_def rel_map_Some is_owner_record_def split: if_splits)
  have "reg_step libs actor pid prior (records libs m) ((records libs m)(?k := None))"
    by (rule reg_step.revoke) (rule not_owner)
  with base_delete [OF base, of ?k] m' r show ?thesis by (simp add: plain_step_def)
qed

lemma owner_record_facts [simp]:
  "owned_by d (owner_record pid ob d)" "record_object (owner_record pid ob d) = object_of pid ob"
  "\<not> rr_archived (owner_record pid ob d)" "rr_policy_id (owner_record pid ob d) = pid"
  "md_owner_did (rr_metadata (owner_record pid ob d)) = as_str d" "record_dids (owner_record pid ob d) = did_ok d"
  by (simp_all add: owned_by_def owner_record_def is_owner_record_def record_object_def object_of_def with_entity_def
      plain_metadata_def relationship_new_def)

lemma owned_by_stamp: "owned_by d rec \<Longrightarrow> md_owner_did md = as_str d \<Longrightarrow> owned_by d (rec\<lparr>rr_metadata := md\<rparr>)"
  by (simp add: owned_by_def)

lemma register_stampable:
  assumes inv: "acp_inv libs m" and hex: "hex_ok libs" and codec: "relationship_codec_ok libs" and pid: "no_slash pid"
    and actor: "did_ok actor" and free: "ensure_object_unregistered libs m pid ob = Inr ()"
    and set: "set_relationship libs pid (relationship_storage_key libs (rr_relationship (owner_record pid ob actor)))
      (owner_record pid ob actor) m = (Inr (), m')"
  shows "stampable libs actor pid prior m (owner_record pid ob actor) m'"
proof -
  have base: "base_inv libs m" using inv by (simp add: acp_inv_def)
  have "owner_entries libs (am_store m) pid ob = []"
    using free by (simp add: ensure_object_unregistered_def split: if_splits)
  then have none: "\<forall>rec'. \<not> registered (records libs m) (object_of pid ob) rec'"
    using owner_entries_empty [OF inv hex pid, of ob] by blast
  have "m' = m\<lparr>am_store := kv_put (own_key libs (owner_record pid ob actor)) (json_relationship libs (owner_record pid ob actor)) (am_store m)\<rparr>"
    using set set_relationship_run [of "owner_record pid ob actor" pid libs m] by simp
  moreover have "reg_step libs actor pid prior (records libs m) ((records libs m)(own_key libs (owner_record pid ob actor) \<mapsto>
      (owner_record pid ob actor)\<lparr>rr_metadata := md\<rparr>))" if "md_owner_did md = as_str actor" for md
    using reg_step.register [OF none, of actor "(owner_record pid ob actor)\<lparr>rr_metadata := md\<rparr>" libs prior] that
    by (simp add: owned_by_stamp)
  ultimately show ?thesis using put_stampable [OF base codec refl] actor by simp
qed

lemma register_step:
  assumes inv: "acp_inv libs m" and hex: "hex_ok libs" and codec: "relationship_codec_ok libs" and actor: "did_ok actor"
    and run: "cmd_register_object libs actor pid ob m = (Inr r, m')"
  shows "\<exists>rec. r = RegisterObjectResult rec \<and> stampable libs actor pid prior m rec m'"
proof -
  from run obtain p where p: "cached_policy m pid = Inr p" and free: "ensure_object_unregistered libs m pid ob = Inr ()"
    and set: "set_relationship libs pid (relationship_storage_key libs (rr_relationship (owner_record pid ob actor)))
      (owner_record pid ob actor) m = (Inr (), m')"
    and r: "r = RegisterObjectResult (owner_record pid ob actor)"
    by (auto simp: cmd_register_object_def validate_registration_object_def result_simps Let_def)
  have "no_slash pid" using inv p known_policy(1) by (auto simp: acp_inv_def)
  from register_stampable [OF inv hex codec this actor free set] r show ?thesis by blast
qed


lemma delete_keys_run:
  assumes "base_inv libs m"
  shows "\<exists>m'. delete_keys ks m = (Inr (), m') \<and> base_inv libs m' \<and> am_policies m' = am_policies m \<and>
    records libs m' = (\<lambda>k. if k \<in> set ks then None else records libs m k)"
  using assms
proof (induction ks arbitrary: m)
  case (Cons k ks)
  let ?m = "m\<lparr>am_store := kv_delete k (am_store m)\<rparr>"
  from Cons.IH [OF base_delete(1) [OF Cons.prems, of k]] base_delete(2) [OF Cons.prems, of k]
  show ?case by (auto simp: st_bind_def fun_eq_iff)
qed simp

lemma record_prefix_exact:
  assumes "hex_ok libs" and "no_slash pid" and "record_ok libs k rec"
  shows "prefix (relationship_storage_prefix pid (acp_object_prefix libs (obj_resource ob) (obj_id ob))) k \<longleftrightarrow>
     record_object rec = object_of pid ob"
proof
  let ?p = "acp_object_prefix libs (obj_resource ob) (obj_id ob)"
  have k: "k = own_key libs rec" "no_slash (rr_policy_id rec)" using assms(3) by (simp_all add: record_ok_def)
  assume "prefix (relationship_storage_prefix pid ?p) k"
  then have "pid = rr_policy_id rec \<and> prefix ?p (relationship_storage_key libs (rr_relationship rec))"
    using key_split [OF assms(2) k(2)] k(1) by (simp add: storage_prefix_key own_key_def)
  with acp_object_prefix_exact [OF assms(1), of "obj_resource ob" "obj_id ob" "rr_relationship rec"]
  show "record_object rec = object_of pid ob" by (simp add: record_object_def object_of_def)
next
  assume o: "record_object rec = object_of pid ob"
  then have "prefix (acp_object_prefix libs (obj_resource ob) (obj_id ob)) (relationship_storage_key libs (rr_relationship rec))"
    using storage_key_prefix(2) [of libs "rr_relationship rec"] by (simp add: record_object_def object_of_def)
  with o assms(3) show "prefix (relationship_storage_prefix pid (acp_object_prefix libs (obj_resource ob) (obj_id ob))) k"
    by (simp add: storage_prefix_key record_ok_def own_key_def record_object_def object_of_def)
qed

lemma archive_loop_keys:
  "archive_loop libs pid ob es = Inr ks \<Longrightarrow>
     (\<forall>k. k \<in> set ks \<longleftrightarrow> (\<exists>bs rec. (k, bs) \<in> set es \<and> unjson_relationship libs bs = Inr rec \<and>
        record_object rec = object_of pid ob))"
proof (induction libs pid ob es arbitrary: ks rule: archive_loop.induct)
  case (2 libs pid ob key bs rest)
  from 2(2) obtain rec ks' where dec: "unjson_relationship libs bs = Inr rec" and p: "rr_policy_id rec = pid"
    and rest: "archive_loop libs pid ob rest = Inr ks'"
    and ks: "ks = (if rel_resource (rr_relationship rec) = obj_resource ob \<and> rel_object_id (rr_relationship rec) = obj_id ob
      then key # ks' else ks')"
    by (auto split: if_splits)
  have c: "(rel_resource (rr_relationship rec) = obj_resource ob \<and> rel_object_id (rr_relationship rec) = obj_id ob) \<longleftrightarrow>
      record_object rec = object_of pid ob"
    using p by (auto simp: record_object_def object_of_def)
  have "\<forall>k. k \<in> set ks' \<longleftrightarrow> (\<exists>bs rec. (k, bs) \<in> set rest \<and> unjson_relationship libs bs = Inr rec \<and>
        record_object rec = object_of pid ob)"
    using 2(1) [OF _ _ rest] dec p 2(2) by (auto split: if_splits)
  with ks dec show ?case unfolding c by auto
qed simp

lemma archive_keys:
  assumes inv: "acp_inv libs m" and hex: "hex_ok libs" and pid: "no_slash pid"
    and loop: "archive_loop libs pid ob (prefix_iter (am_store m)
      (relationship_storage_prefix pid (acp_object_prefix libs (obj_resource ob) (obj_id ob)))) = Inr ks"
  shows "(\<lambda>k. if k \<in> set ks then None else records libs m k) = drop_object (object_of pid ob) (records libs m)"
proof
  fix k
  let ?p = "relationship_storage_prefix pid (acp_object_prefix libs (obj_resource ob) (obj_id ob))"
  have wf: "kv_wf (am_store m)" using inv by (simp add: acp_inv_def base_inv_def)
  have "k \<in> set ks \<longleftrightarrow> (\<exists>rec. records libs m k = Some rec \<and> record_object rec = object_of pid ob)"
  proof
    assume "k \<in> set ks"
    then obtain bs rec where "kv_view (am_store m) k = Some bs" "prefix ?p k" "unjson_relationship libs bs = Inr rec"
      "record_object rec = object_of pid ob"
      using archive_loop_keys [OF loop] by (auto simp: prefix_iter_set [OF wf])
    then show "\<exists>rec. records libs m k = Some rec \<and> record_object rec = object_of pid ob"
      using storage_prefix_rel by (auto simp: rel_map_Some)
  next
    assume "\<exists>rec. records libs m k = Some rec \<and> record_object rec = object_of pid ob"
    then obtain rec bs where rec: "records libs m k = Some rec" "record_object rec = object_of pid ob"
      "kv_view (am_store m) k = Some bs" "unjson_relationship libs bs = Inr rec" by (auto simp: rel_map_Some)
    then have "record_ok libs k rec" using inv by (auto simp: acp_inv_def reg_ok_def)
    then have "prefix ?p k" using record_prefix_exact [OF hex pid] rec by simp
    with rec show "k \<in> set ks" using archive_loop_keys [OF loop] by (auto simp: prefix_iter_set [OF wf])
  qed
  then show "(if k \<in> set ks then None else records libs m k) = drop_object (object_of pid ob) (records libs m) k"
    by (auto simp: drop_object_def split: option.splits)
qed

lemma archive_step:
  assumes inv: "acp_inv libs m" and hex: "hex_ok libs" and codec: "relationship_codec_ok libs"
    and run: "cmd_archive_object libs actor pid ob m = (Inr r, m')"
  shows "(\<exists>b n. r = ArchiveObjectResult b n) \<and> plain_step libs actor pid prior m m'"
proof -
  have base: "base_inv libs m" using inv by (simp add: acp_inv_def)
  from run have known: "has_policy_id m pid" by (auto simp: cmd_archive_object_def result_simps split: if_splits)
  have pid: "no_slash pid" by (rule known_policy(2) [OF base known])
  from run known obtain rec where rec: "registration_owner_record libs m pid ob = Inr (Some rec)"
    and cases: "rr_archived rec \<and> m' = m \<and> r = ArchiveObjectResult True 0 \<or>
      (\<exists>ks m1. \<not> rr_archived rec \<and> md_owner_did (rr_metadata rec) = as_str actor \<and>
        archive_loop libs pid ob (prefix_iter (am_store m)
          (relationship_storage_prefix pid (acp_object_prefix libs (obj_resource ob) (obj_id ob)))) = Inr ks \<and>
        delete_keys ks m = (Inr (), m1) \<and>
        set_relationship libs pid (relationship_storage_key libs (rr_relationship rec)) (rec\<lparr>rr_archived := True\<rparr>) m1 = (Inr (), m') \<and>
        r = ArchiveObjectResult True (of_nat (length ks)))"
    by (auto simp: cmd_archive_object_def result_simps Let_def split: if_splits)
  have reg: "registered (records libs m) (object_of pid ob) rec" using owner_lookup [OF inv hex pid, of ob] rec by auto
  from cases show ?thesis
  proof (elim disjE exE conjE)
    assume "m' = m" "r = ArchiveObjectResult True 0"
    then show ?thesis using base by (auto simp: plain_step_def intro: reg_step.idle)
  next
    fix ks m1 assume a: "\<not> rr_archived rec" "md_owner_did (rr_metadata rec) = as_str actor"
      "archive_loop libs pid ob (prefix_iter (am_store m)
          (relationship_storage_prefix pid (acp_object_prefix libs (obj_resource ob) (obj_id ob)))) = Inr ks"
      "delete_keys ks m = (Inr (), m1)"
      "set_relationship libs pid (relationship_storage_key libs (rr_relationship rec)) (rec\<lparr>rr_archived := True\<rparr>) m1 = (Inr (), m')"
      "r = ArchiveObjectResult True (of_nat (length ks))"
    from delete_keys_run [OF base, of ks] a(4) archive_keys [OF inv hex pid a(3)]
    have m1: "base_inv libs m1" "am_policies m1 = am_policies m" "records libs m1 = drop_object (object_of pid ob) (records libs m)"
      by auto
    have "rr_policy_id rec = pid" using reg by (auto simp: registered_def record_object_def object_of_def)
    then have "m' = m1\<lparr>am_store := kv_put (own_key libs rec) (json_relationship libs (rec\<lparr>rr_archived := True\<rparr>)) (am_store m1)\<rparr>"
      using a(5) set_relationship_run [of "rec\<lparr>rr_archived := True\<rparr>" pid libs m1] by simp
    with base_put_record [OF m1(1) codec, of "rec\<lparr>rr_archived := True\<rparr>"] registered_dids [OF codec reg] m1 reg_step.archive [OF reg a(1,2)] a(6)
    show ?thesis by (auto simp: plain_step_def)
  qed
qed

lemma unarchive_step:
  assumes inv: "acp_inv libs m" and hex: "hex_ok libs" and codec: "relationship_codec_ok libs"
    and run: "cmd_unarchive_object libs actor pid ob m = (Inr r, m')"
  shows "(\<exists>rec b. r = UnarchiveObjectResult rec b) \<and> plain_step libs actor pid prior m m'"
proof -
  have base: "base_inv libs m" using inv by (simp add: acp_inv_def)
  from run have known: "has_policy_id m pid" by (auto simp: cmd_unarchive_object_def result_simps split: if_splits)
  have pid: "no_slash pid" by (rule known_policy(2) [OF base known])
  from run known obtain rec where rec: "registration_owner_record libs m pid ob = Inr (Some rec)"
    and own: "md_owner_did (rr_metadata rec) = as_str actor"
    and m': "m' = m\<lparr>am_store := kv_put (relationship_key pid (relationship_storage_key libs (rr_relationship rec)))
      (json_relationship libs (rec\<lparr>rr_archived := False\<rparr>)) (am_store m)\<rparr>"
    and r: "r = UnarchiveObjectResult (rec\<lparr>rr_archived := False\<rparr>) (rr_archived rec)"
    by (auto simp: cmd_unarchive_object_def result_simps Let_def storage_prefix_key split: if_splits)
  have reg: "registered (records libs m) (object_of pid ob) rec" using owner_lookup [OF inv hex pid, of ob] rec by auto
  then have "relationship_key pid (relationship_storage_key libs (rr_relationship rec)) = own_key libs rec"
    by (auto simp: registered_def record_object_def object_of_def own_key_def)
  with m' base_put_record [OF base codec, of "rec\<lparr>rr_archived := False\<rparr>"] registered_dids [OF codec reg] reg_step.unarchive [OF reg own] r
  show ?thesis by (simp add: plain_step_def)
qed


lemma amend_stampable:
  assumes inv: "acp_inv libs m" and codec: "relationship_codec_ok libs" and actor: "did_ok actor"
    and reg: "registered (records libs m) (object_of pid ob) existing" "\<not> rr_archived existing" "prior ob existing"
    and run: "amend_registration libs actor pid cid c ob existing m = (Inr r, m')"
  shows "\<exists>rec ev. r = RevealRegistrationResult rec (Some ev) \<and> stampable libs actor pid prior m rec m'"
proof -
  have base: "base_inv libs m" using inv by (simp add: acp_inv_def)
  let ?rec = "owner_record pid ob actor"
  from run obtain ev0 ev m1 where create: "create_amendment_event libs ev0 m = (Inr ev, m1)"
    and m': "m' = m1\<lparr>am_store := kv_put (own_key libs ?rec) (json_relationship libs ?rec)
      (kv_delete (relationship_key pid (relationship_storage_key libs (rr_relationship existing))) (am_store m1))\<rparr>"
    and r: "r = RevealRegistrationResult ?rec (Some ev)"
    by (auto simp: amend_registration_def result_simps Let_def delete_relationship_def set_relationship_def own_key_def
        split: if_splits)
  have key: "relationship_key pid (relationship_storage_key libs (rr_relationship existing)) = own_key libs existing"
    using reg(1) by (auto simp: registered_def record_object_def object_of_def own_key_def)
  let ?m2 = "m1\<lparr>am_store := kv_delete (own_key libs existing) (am_store m1)\<rparr>"
  have m1: "base_inv libs m1" "records libs m1 = records libs m" "am_policies m1 = am_policies m"
    using asideD [OF aside_commitments(3) base create] by simp_all
  have m2: "base_inv libs ?m2" "records libs ?m2 = (records libs m)(own_key libs existing := None)"
    using base_delete [OF m1(1), of "own_key libs existing"] m1(2) by simp_all
  have "reg_step libs actor pid prior (records libs m)
      ((records libs ?m2)(own_key libs ?rec \<mapsto> ?rec\<lparr>rr_metadata := md\<rparr>))" if "md_owner_did md = as_str actor" for md
    unfolding m2(2) using reg_step.amend [where prior = prior, OF reg, of actor "?rec\<lparr>rr_metadata := md\<rparr>" libs] that
    by (simp add: owned_by_stamp)
  from put_stampable [OF m2(1) codec _ _ _ _ this] m1(3) m' r key actor show ?thesis by simp
qed

lemma reveal_step:
  assumes inv: "acp_inv libs m" and hex: "hex_ok libs" and codec: "relationship_codec_ok libs" and actor: "did_ok actor"
    and run: "cmd_reveal_registration libs actor pid cid proof m = (Inr r, m')"
  shows "\<exists>rec ev. r = RevealRegistrationResult rec ev \<and>
    stampable libs actor pid (amend_evidence libs actor pid (RevealRegistration cid proof) m) m rec m'"
proof -
  let ?ob = "rp_object proof" and ?prior = "amend_evidence libs actor pid (RevealRegistration cid proof) m"
  have base: "base_inv libs m" using inv by (simp add: acp_inv_def)
  from run obtain p c leaf reg owner where p: "cached_policy m pid = Inr p"
    and c: "get_commitment_by_id libs m cid = Inr (Some c)" "\<not> rc_expired c" "rc_policy_id c = pid"
    and leaf: "registration_leaf libs pid ?ob (as_str actor) = Inr leaf" "verify_merkle_proof libs (rc_commitment c) proof leaf"
    and owner: "query_object_owner libs m pid ?ob = Inr (reg, owner)"
    and rest: "(if \<not> reg
         then st_bind (st_read (\<lambda>m. ensure_object_unregistered libs m pid ?ob)) (\<lambda>_.
           st_bind (set_relationship libs pid (relationship_storage_key libs (rr_relationship (owner_record pid ?ob actor))) (owner_record pid ?ob actor)) (\<lambda>_.
           st_ret (RevealRegistrationResult (owner_record pid ?ob actor) None)))
         else amend_registration libs actor pid cid c ?ob (the owner)) m = (Inr r, m')"
    by (auto simp: cmd_reveal_registration_def validate_registration_object_def result_simps Let_def split: if_splits prod.splits)
  have pid: "no_slash pid" by (rule known_policy(1) [OF base p])
  show ?thesis
  proof (cases reg)
    case False
    with rest have "ensure_object_unregistered libs m pid ?ob = Inr ()"
      "set_relationship libs pid (relationship_storage_key libs (rr_relationship (owner_record pid ?ob actor))) (owner_record pid ?ob actor) m = (Inr (), m')"
      "r = RevealRegistrationResult (owner_record pid ?ob actor) None"
      by (auto simp: result_simps)
    then show ?thesis using register_stampable [OF inv hex codec pid actor] by blast
  next
    case True
    with owner obtain rec where rec: "registration_owner_record libs m pid ?ob = Inr (Some rec)" "\<not> rr_archived rec" "owner = Some rec"
      by (auto simp: query_object_owner_def split: option.splits if_splits)
    have reg: "registered (records libs m) (object_of pid ?ob) rec" using owner_lookup [OF inv hex pid, of ?ob] rec by auto
    from rest True rec have amend: "amend_registration libs actor pid cid c ?ob rec m = (Inr r, m')" by simp
    then have "ts_block_height (md_creation_ts (rc_metadata c)) \<le> ts_block_height (md_creation_ts (rr_metadata rec))"
      by (auto simp: amend_registration_def split: if_splits)
    with c leaf have "?prior ?ob rec" by (auto simp: amend_evidence_def)
    from amend_stampable [where prior = ?prior, OF inv codec actor reg rec(2) this amend] show ?thesis by blast
  qed
qed


lemma aside_plain: "aside libs c \<Longrightarrow> base_inv libs m \<Longrightarrow> c m = (r, m') \<Longrightarrow> plain_step libs actor pid prior m m'"
  using asideD [of libs c m r m'] by (auto simp: plain_step_def intro: reg_step.idle)

lemma commit_aside [aside_rules]: "aside libs (cmd_commit_registrations libs actor pid root)"
  unfolding cmd_commit_registrations_def by (intro aside_rules)

lemma flag_aside [aside_rules]: "aside libs (cmd_flag_hijack_attempt libs actor pid i)"
  unfolding cmd_flag_hijack_attempt_def Let_def by (intro aside_rules)

lemma stamp_relationship_step:
  assumes st: "stampable libs actor pid prior m rec m1" and codec: "relationship_codec_ok libs"
    and md: "md_owner_did md = as_str actor"
  shows "\<exists>m2. stamp_relationship libs pid rec md m1 = (Inr (rec\<lparr>rr_metadata := md\<rparr>), m2) \<and> plain_step libs actor pid prior m m2"
proof -
  let ?rec = "rec\<lparr>rr_metadata := md\<rparr>"
  from st obtain M where base: "base_inv libs m1" and pol: "am_policies m1 = am_policies m" and p: "rr_policy_id rec = pid" "record_dids ?rec"
    and M: "records libs m1 = M(own_key libs rec \<mapsto> rec)"
    and step: "reg_step libs actor pid prior (records libs m) (M(own_key libs rec \<mapsto> ?rec))"
    using md by (auto simp: stampable_def)
  from base_put_record [OF base codec, of ?rec] M pol step set_relationship_run [of ?rec pid libs m1] p show ?thesis
    by (simp add: stamp_relationship_def st_bind_def plain_step_def Let_def)
qed

lemma plain_then_aside:
  assumes "plain_step libs actor pid prior m m1" and "aside libs c" and "c m1 = (r, m')"
  shows "plain_step libs actor pid prior m m'"
  using assms(1) asideD [OF assms(2) _ assms(3)] by (auto simp: plain_step_def)

lemma command_metadata_owner: "command_metadata libs actor cmd block submission m = Inr md \<Longrightarrow> md_owner_did md = as_str actor"
  by (cases cmd) (auto simp: submission_metadata_def Let_def split: if_splits)

lemma stamped_step:
  assumes st: "stampable libs actor pid prior m rec m1" and codec: "relationship_codec_ok libs"
    and md: "md_owner_did md = as_str actor"
    and r: "r = RegisterObjectResult rec \<or> r = SetRelationshipResult False rec \<or> (\<exists>ev. r = RevealRegistrationResult rec ev)"
    and run: "stamp_result libs pid md emd r m1 = (Inr r', m')"
  shows "plain_step libs actor pid prior m m'"
proof -
  obtain m2 where m2: "stamp_relationship libs pid rec md m1 = (Inr (rec\<lparr>rr_metadata := md\<rparr>), m2)" "plain_step libs actor pid prior m m2"
    using stamp_relationship_step [OF st codec md] by blast
  from r run m2(1) consider "m' = m2"
    | ev where "update_amendment_event libs ev m2 = (Inr (), m')"
    by (auto simp: st_bind_def Let_def split: option.splits prod.splits sum.splits)
  then show ?thesis using m2(2) plain_then_aside [OF m2(2) aside_commitments(4)] by cases auto
qed

text \<open>Every successful command is one step of the registry, whether it is run directly, with the metadata of the
  actor alone, or through \<open>execute_policy_cmd\<close>, which stamps the result.\<close>

lemma run_command_step:
  assumes inv: "acp_inv libs m" and hex: "hex_ok libs" and codec: "relationship_codec_ok libs"
    and dids: "command_dids actor cmd" and run: "run_command libs actor pid cmd m = (Inr r, m')"
  shows "plain_step libs actor pid (amend_evidence libs actor pid cmd m) m m'"
proof -
  let ?P = "amend_evidence libs actor pid cmd m"
  have base: "base_inv libs m" using inv by (simp add: acp_inv_def)
  have actor: "did_ok actor" using dids by (simp add: command_dids_def)
  note st = stampable_plain [where prior = ?P]
  have idle: "plain_step libs actor pid ?P m m" using base by (simp add: plain_step_def reg_step.idle)
  show ?thesis
  proof (cases cmd)
    case (SetRelationship rel)
    then have "subject_ok (rel_subject rel)" using dids by (simp add: command_dids_def)
    with set_step [OF inv codec this, of actor pid r m' ?P] SetRelationship run idle st show ?thesis
      by auto
  next
    case (DeleteRelationship rel)
    with delete_step [OF inv, of actor pid rel r m' ?P] run show ?thesis by auto
  next
    case (RegisterObject ob)
    with register_step [OF inv hex codec actor, of pid ob r m' ?P] run st show ?thesis by auto
  next
    case (ArchiveObject ob)
    with archive_step [OF inv hex codec, of actor pid ob r m' ?P] run show ?thesis by auto
  next
    case (UnarchiveObject ob)
    with unarchive_step [OF inv hex codec, of actor pid ob r m' ?P] run show ?thesis by auto
  next
    case (CommitRegistrations root)
    with run show ?thesis using aside_plain [OF commit_aside base] by auto
  next
    case (RevealRegistration cid rp)
    with reveal_step [OF inv hex codec actor, of pid cid rp r m'] run st show ?thesis by auto
  next
    case (FlagHijackAttempt i)
    with run show ?thesis using aside_plain [OF flag_aside base] by auto
  qed
qed

lemma execute_step:
  assumes inv: "acp_inv libs m" and hex: "hex_ok libs" and codec: "relationship_codec_ok libs"
    and dids: "command_dids actor cmd"
    and run: "execute_policy_cmd libs actor pid cmd block submission m = (Inr r, m')"
  shows "plain_step libs actor pid (amend_evidence libs actor pid cmd m) m m'"
proof -
  let ?P = "amend_evidence libs actor pid cmd m"
  have base: "base_inv libs m" using inv by (simp add: acp_inv_def)
  from run obtain md r0 m1 where md: "command_metadata libs actor cmd block submission m = Inr md"
    and direct: "run_command libs actor pid cmd m = (Inr r0, m1)"
    and stamp: "stamp_result libs pid md (submission_metadata actor block submission) r0 m1 = (Inr r, m')"
    by (auto simp: execute_policy_cmd_def direct_policy_cmd_def result_simps split: if_splits)
  have actor: "did_ok actor" using dids by (simp add: command_dids_def)
  note owner = command_metadata_owner [OF md]
  note stamped = stamped_step [where prior = ?P and r = r0, OF _ codec owner _ stamp]
  show ?thesis
  proof (cases cmd)
    case (SetRelationship rel)
    then have "subject_ok (rel_subject rel)" using dids by (simp add: command_dids_def)
    with SetRelationship set_step [OF inv codec this, of actor pid r0 m1 ?P] direct stamp stamped base show ?thesis
      by (auto simp: plain_step_def intro: reg_step.idle)
  next
    case (DeleteRelationship rel)
    with delete_step [OF inv, of actor pid rel r0 m1 ?P] direct stamp show ?thesis by auto
  next
    case (RegisterObject ob)
    with register_step [OF inv hex codec actor, of pid ob r0 m1 ?P] direct stamped show ?thesis by auto
  next
    case (ArchiveObject ob)
    with archive_step [OF inv hex codec, of actor pid ob r0 m1 ?P] direct stamp show ?thesis by auto
  next
    case (UnarchiveObject ob)
    with unarchive_step [OF inv hex codec, of actor pid ob r0 m1 ?P] direct stamp show ?thesis by auto
  next
    case (CommitRegistrations root)
    with direct have c: "cmd_commit_registrations libs actor pid root m = (Inr r0, m1)" by simp
    then obtain c where r0: "r0 = CommitRegistrationsResult c"
      by (auto simp: cmd_commit_registrations_def result_simps split: if_splits)
    from stamp r0 have "update_commitment libs (c\<lparr>rc_metadata := md\<rparr>) m1 = (Inr (), m')"
      by (auto simp: result_simps Let_def)
    then show ?thesis by (rule plain_then_aside [OF aside_plain [OF commit_aside base c] aside_commitments(1)])
  next
    case (RevealRegistration cid rp)
    with reveal_step [OF inv hex codec actor, of pid cid rp r0 m1] direct stamped show ?thesis by auto
  next
    case (FlagHijackAttempt i)
    with direct have c: "cmd_flag_hijack_attempt libs actor pid i m = (Inr r0, m1)" by simp
    then obtain ev where "r0 = FlagHijackAttemptResult ev"
      by (auto simp: cmd_flag_hijack_attempt_def result_simps Let_def split: if_splits)
    with stamp have "m' = m1" by simp
    with aside_plain [OF flag_aside base c] show ?thesis by simp
  qed
qed

end
