(* ===== verification/Acp_Decision.thy ===== *)
theory Acp_Decision
  imports Acp_Module Qmdb_Properties
begin

text \<open>
  Access decisions: the identity and the lifetime of a decision (\<open>acp/decision.rs\<close>), and the operations
  of \<open>acp/mod.rs\<close> that evaluate an access request with a bounded engine and record the outcome. A
  decision is recorded only when every operation is permitted; the record verifies for its request, from
  its own revision until its expiry height, and never after.
\<close>

section \<open>Requests and their identifiers\<close>

definition invalid :: "string \<Rightarrow> acp_error" where
  "invalid reason = InvalidAccessRequest reason"

definition request_fields :: "decision_request \<Rightarrow> string list" where
  "request_fields req =
     [dr_policy_id req, dr_creator req, as_str (ar_actor (dr_request req))]
       @ concat (map (\<lambda>op. [obj_resource (opn_object op), obj_id (opn_object op), opn_permission op])
           (ar_operations (dr_request req)))"

definition decision_id :: "acp_libs \<Rightarrow> decision_request \<Rightarrow> acp_error + string" where
  "decision_id libs req =
     (if dr_policy_id req = [] \<or> dr_creator req = [] \<or> ar_operations (dr_request req) = []
      then Inl (invalid ''policy, creator and operations must be nonempty'')
      else if length (ar_operations (dr_request req)) > 64
            \<or> sum_list (map length (request_fields req)) > 64 * 1024
      then Inl (invalid ''access decision request exceeds limits'')
      else
        res_bind (map_err StateError (borsh_decision_request libs req)) (\<lambda>encoded.
        if length encoded > 64 * 1024 then Inl (invalid ''access decision request exceeds byte limit'')
        else Inr (hex_encode libs (sha256 libs (''vera/access-decision/v1'' @ [CHR 0x00] @ encoded)))))"

definition verify_issuance ::
  "acp_libs \<Rightarrow> decision_request \<Rightarrow> access_decision \<Rightarrow> timestamp \<Rightarrow> acp_error + u64" where
  "verify_issuance libs req decision at =
     res_bind (decision_id libs req) (\<lambda>i.
     if ad_id decision \<noteq> i \<or> ad_policy_id decision \<noteq> dr_policy_id req \<or> ad_creator decision \<noteq> dr_creator req
        \<or> ad_creator_acc_sequence decision \<noteq> dr_creator_sequence req
        \<or> ad_actor decision \<noteq> as_str (ar_actor (dr_request req))
        \<or> ad_operations decision \<noteq> ar_operations (dr_request req)
     then Inl (invalid ''access decision differs from the requested operation'')
     else if ad_issued_height decision = 0 \<or> ad_issued_height decision > ts_block_height at
        \<or> ts_block_height (ad_creation_time decision) \<noteq> ad_issued_height decision
        \<or> ts_seconds (ad_creation_time decision) = 0
        \<or> ts_seconds (ad_creation_time decision) > ts_seconds at
     then Inl (invalid ''invalid access decision issuance revision'')
     else
       res_bind (ok_or (invalid ''access decision expiry overflow'')
         (checked_add (ad_issued_height decision) (dp_decision_expiration_delta (ad_params decision)))) (\<lambda>expires.
       if expires \<le> ad_issued_height decision then Inl (invalid ''invalid access decision lifetime'')
       else Inr expires))"

definition verify_record ::
  "acp_libs \<Rightarrow> decision_request \<Rightarrow> bytes \<Rightarrow> timestamp \<Rightarrow> acp_error + access_decision" where
  "verify_record libs req bs at =
     res_bind (decode_decision libs bs) (\<lambda>decision.
     res_bind (verify_issuance libs req decision at) (\<lambda>expires.
     if ts_block_height at \<ge> expires then Inl (invalid ''access decision expired'')
     else Inr decision))"

definition decision_verify_issuance ::
  "acp_libs \<Rightarrow> access_decision \<Rightarrow> u64 \<Rightarrow> string \<Rightarrow> timestamp \<Rightarrow> acp_error + u64" where
  "decision_verify_issuance libs decision deployment_id i at =
     (if ad_id decision \<noteq> i then Inl (invalid ''access decision ID differs from the requested record'')
      else
        res_bind (map_err (\<lambda>_. invalid ''invalid decision creator'') (did_new (ad_creator decision))) (\<lambda>_.
        res_bind (map_err (\<lambda>_. invalid ''invalid decision actor'') (did_new (ad_actor decision))) (\<lambda>actor.
        verify_issuance libs
          \<lparr>dr_deployment_id = deployment_id, dr_policy_id = ad_policy_id decision, dr_creator = ad_creator decision,
           dr_creator_sequence = ad_creator_acc_sequence decision,
           dr_request = \<lparr>ar_operations = ad_operations decision, ar_actor = actor\<rparr>\<rparr> decision at)))"


section \<open>Evaluating requests\<close>

definition permission_engine :: "acp_libs \<Rightarrow> policy \<Rightarrow> read_capture engine" where
  "permission_engine libs p =
     \<lparr>eng_ops = qmdb_ops libs capture_record_ops, eng_lookup = add_policy lookup_new p\<rparr>"

definition permission_snapshot :: "acp_module \<Rightarrow> read_capture" where
  "permission_snapshot m = capture_new (kv_clone (am_store m)) PERMISSION_READ_LIMITS"

definition check_operation ::
  "read_capture engine \<Rightarrow> string \<Rightarrow> did \<Rightarrow> operation \<Rightarrow> (read_capture, acp_error, bool) stm" where
  "check_operation eng policy_id actor op c =
     (case check eng policy_id (obj_resource (opn_object op)) (obj_id (opn_object op)) (opn_permission op) actor c of
        (r, c') \<Rightarrow> (map_err (\<lambda>e. StateError (''permission evaluation failed: '' @ zerror_to_string e)) r, c'))"

fun require_loop ::
  "read_capture engine \<Rightarrow> string \<Rightarrow> did \<Rightarrow> operation list \<Rightarrow> (read_capture, acp_error, unit) stm" where
  "require_loop eng policy_id actor [] = st_ret ()"
| "require_loop eng policy_id actor (op # ops) =
     st_bind (check_operation eng policy_id actor op) (\<lambda>granted.
     if \<not> granted
     then st_fail (Unauthorized (''actor '' @ as_str actor @ '' denied '' @ opn_permission op @ '' on ''
                     @ obj_resource (opn_object op) @ '':'' @ obj_id (opn_object op)))
     else require_loop eng policy_id actor ops)"

fun verify_ops_loop ::
  "read_capture engine \<Rightarrow> string \<Rightarrow> did \<Rightarrow> operation list \<Rightarrow> (read_capture, acp_error, bool) stm" where
  "verify_ops_loop eng policy_id actor [] = st_ret True"
| "verify_ops_loop eng policy_id actor (op # ops) =
     st_bind (check_operation eng policy_id actor op) (\<lambda>granted.
     if \<not> granted then st_ret False else verify_ops_loop eng policy_id actor ops)"

definition query_verify_access_request ::
  "acp_libs \<Rightarrow> acp_module \<Rightarrow> string \<Rightarrow> access_request \<Rightarrow> acp_error + bool" where
  "query_verify_access_request libs m policy_id request =
     res_bind (cached_policy m policy_id) (\<lambda>p.
     fst (verify_ops_loop (permission_engine libs p) policy_id (ar_actor request) (ar_operations request)
            (permission_snapshot m)))"

definition decision_params_default :: decision_params where
  "decision_params_default =
     \<lparr>dp_decision_expiration_delta = 100, dp_proof_expiration_delta = 50, dp_ticket_expiration_delta = 100\<rparr>"

definition expected_request ::
  "did \<Rightarrow> string \<Rightarrow> access_request \<Rightarrow> block_exec_ctx \<Rightarrow> tx_exec_ctx \<Rightarrow> decision_request" where
  "expected_request creator policy_id request block tx =
     \<lparr>dr_deployment_id = bx_deployment_id block, dr_policy_id = policy_id, dr_creator = as_str creator,
      dr_creator_sequence = tx_sequence tx, dr_request = request\<rparr>"

definition check_access ::
  "acp_libs \<Rightarrow> did \<Rightarrow> string \<Rightarrow> access_request \<Rightarrow> block_exec_ctx \<Rightarrow> tx_exec_ctx \<Rightarrow> access_decision acp" where
  "check_access libs creator policy_id request block tx =
     (if tx_signer tx \<noteq> as_str creator \<or> ts_block_height (bx_timestamp block) = 0 \<or> ts_seconds (bx_timestamp block) = 0
      then st_fail (InvalidAccessRequest ''invalid decision execution context'')
      else
        st_bind (st_lift (decision_id libs (expected_request creator policy_id request block tx))) (\<lambda>i.
        st_bind (st_read (\<lambda>m. cached_policy m policy_id)) (\<lambda>p.
        st_bind (st_read (\<lambda>m. fst (require_loop (permission_engine libs p) policy_id (ar_actor request)
                                   (ar_operations request) (permission_snapshot m)))) (\<lambda>_.
        let decision = \<lparr>ad_id = i, ad_policy_id = policy_id, ad_creator = as_str creator,
                        ad_creator_acc_sequence = tx_sequence tx, ad_operations = ar_operations request,
                        ad_actor = as_str (ar_actor request), ad_params = decision_params_default,
                        ad_creation_time = bx_timestamp block,
                        ad_issued_height = ts_block_height (bx_timestamp block)\<rparr> in
        st_bind (set_access_decision libs decision) (\<lambda>_.
        st_ret decision)))))"

definition query_access_decision :: "acp_libs \<Rightarrow> acp_module \<Rightarrow> string \<Rightarrow> acp_error + access_decision option" where
  "query_access_decision libs m i = get_access_decision libs m i"



section \<open>Correctness of the evaluation\<close>

definition operations_permitted ::
  "acp_libs \<Rightarrow> (bytes \<rightharpoonup> bytes) \<Rightarrow> policy \<Rightarrow> string \<Rightarrow> did \<Rightarrow> operation list \<Rightarrow> bool" where
  "operations_permitted libs V p pid actor ops \<longleftrightarrow>
     (\<forall>op \<in> set ops. permitted (add_policy lookup_new p) (qmdb_tuples libs V) pid actor
        (obj_resource (opn_object op), obj_id (opn_object op), opn_permission op))"

lemma snapshot_holds: "kv_wf (am_store m) \<Longrightarrow> cap_holds (kv_view (am_store m)) (permission_snapshot m)"
  by (simp add: permission_snapshot_def cap_holds_def kv_holds_def capture_new_def)

lemma check_operation_ok:
  "triple (cap_holds V) (check_operation (permission_engine libs p) pid actor op)
     (\<lambda>b. b \<longleftrightarrow> operations_permitted libs V p pid actor [op])"
proof (rule tripleI)
  fix c r c' assume c: "cap_holds V c" and run: "check_operation (permission_engine libs p) pid actor op c = (r, c')"
  let ?k = "check (permission_engine libs p) pid (obj_resource (opn_object op)) (obj_id (opn_object op)) (opn_permission op) actor"
  obtain r1 where r1: "?k c = (r1, c')" and r: "r = map_err (\<lambda>e. StateError (''permission evaluation failed: '' @ zerror_to_string e)) r1"
    using run by (auto simp: check_operation_def split: prod.splits)
  from qcap.check_ok [OF TrueI c r1 [unfolded permission_engine_def]] r
  show "cap_holds V c' \<and> (\<forall>x. r = Inr x \<longrightarrow> x = operations_permitted libs V p pid actor [op])"
    by (simp add: operations_permitted_def)
qed

lemma require_loop_ok:
  "triple (cap_holds V) (require_loop (permission_engine libs p) pid actor ops)
     (\<lambda>_. operations_permitted libs V p pid actor ops)"
proof (induction ops)
  case Nil
  show ?case unfolding require_loop.simps by (rule triple_ret) (simp add: operations_permitted_def)
next
  case (Cons op ops)
  show ?case unfolding require_loop.simps
  proof (rule triple_bind [OF check_operation_ok], goal_cases)
    case (1 g)
    then show ?case
      by (cases g) (use Cons.IH in \<open>auto simp: operations_permitted_def simp del: st_simps elim!: triple_weaken\<close>)
  qed
qed

lemma verify_ops_loop_ok:
  "triple (cap_holds V) (verify_ops_loop (permission_engine libs p) pid actor ops)
     (\<lambda>b. b \<longleftrightarrow> operations_permitted libs V p pid actor ops)"
proof (induction ops)
  case Nil
  show ?case unfolding verify_ops_loop.simps by (rule triple_ret) (simp add: operations_permitted_def)
next
  case (Cons op ops)
  show ?case unfolding verify_ops_loop.simps
  proof (rule triple_bind [OF check_operation_ok], goal_cases)
    case (1 g)
    then show ?case
      by (cases g) (use Cons.IH in \<open>auto simp: operations_permitted_def simp del: st_simps intro!: triple_ret elim!: triple_weaken\<close>)
  qed
qed

lemma acp_put_run [simp]: "acp_put k v m = (Inr (), m\<lparr>am_store := kv_put k v (am_store m)\<rparr>)"
  by (simp add: acp_put_def)

lemma check_access_parts:
  assumes "check_access libs creator pid request block tx m = (Inr d, m')"
  obtains p bs where "map_of (am_policies m) pid = Some p"
    and "fst (require_loop (permission_engine libs p) pid (ar_actor request) (ar_operations request)
           (permission_snapshot m)) = Inr ()"
    and "decision_id libs (expected_request creator pid request block tx) = Inr (ad_id d)"
    and "d = \<lparr>ad_id = ad_id d, ad_policy_id = pid, ad_creator = as_str creator,
           ad_creator_acc_sequence = tx_sequence tx, ad_operations = ar_operations request,
           ad_actor = as_str (ar_actor request), ad_params = decision_params_default,
           ad_creation_time = bx_timestamp block, ad_issued_height = ts_block_height (bx_timestamp block)\<rparr>"
    and "borsh_decision libs d = Inr bs"
    and "m' = m\<lparr>am_store := kv_put (access_decision_key (ad_id d)) bs (am_store m)\<rparr>"
    and "ts_block_height (bx_timestamp block) \<noteq> 0" and "ts_seconds (bx_timestamp block) \<noteq> 0"
  using assms
  by (auto simp: check_access_def Let_def result_simps cached_policy_def set_access_decision_def split: if_splits)

lemma require_permits:
  assumes "kv_wf (am_store m)"
    and "fst (require_loop (permission_engine libs p) pid actor ops (permission_snapshot m)) = Inr ()"
  shows "operations_permitted libs (kv_view (am_store m)) p pid actor ops"
  using tripleD [OF require_loop_ok snapshot_holds [OF assms(1)]] assms(2) by (metis prod.collapse)

text \<open>C22. \<open>check_access\<close> records a decision only for what the specification permits, and the record is exactly the
  one expected: when it returns a decision, the policy is known to the module and every requested operation
  is permitted to the actor by the policy and the live relationship records; the decision carries this
  policy, creator, transaction sequence, actor and list of operations, the default lifetimes of 100, 50 and
  100 blocks, and the block's time and height, and is identified by the digest of its request. The module
  has changed in one key alone, the decision's, which now holds the encoding of this decision.\<close>

theorem recorded_decision_is_permitted:
  assumes "kv_wf (am_store m)" and "check_access libs creator pid request block tx m = (Inr d, m')"
  shows "\<exists>p bs i. map_of (am_policies m) pid = Some p \<and>
     operations_permitted libs (kv_view (am_store m)) p pid (ar_actor request) (ar_operations request) \<and>
     decision_id libs (expected_request creator pid request block tx) = Inr i \<and>
     d = \<lparr>ad_id = i, ad_policy_id = pid, ad_creator = as_str creator, ad_creator_acc_sequence = tx_sequence tx,
       ad_operations = ar_operations request, ad_actor = as_str (ar_actor request),
       ad_params = \<lparr>dp_decision_expiration_delta = 100, dp_proof_expiration_delta = 50, dp_ticket_expiration_delta = 100\<rparr>,
       ad_creation_time = bx_timestamp block, ad_issued_height = ts_block_height (bx_timestamp block)\<rparr> \<and>
     borsh_decision libs d = Inr bs \<and>
     m' = m\<lparr>am_store := kv_put (access_decision_key i) bs (am_store m)\<rparr> \<and>
     get_ref (am_store m') (access_decision_key i) = Some bs"
proof -
  obtain p bs where parts: "map_of (am_policies m) pid = Some p"
    "fst (require_loop (permission_engine libs p) pid (ar_actor request) (ar_operations request)
           (permission_snapshot m)) = Inr ()"
    "decision_id libs (expected_request creator pid request block tx) = Inr (ad_id d)"
    "d = \<lparr>ad_id = ad_id d, ad_policy_id = pid, ad_creator = as_str creator,
           ad_creator_acc_sequence = tx_sequence tx, ad_operations = ar_operations request,
           ad_actor = as_str (ar_actor request), ad_params = decision_params_default,
           ad_creation_time = bx_timestamp block, ad_issued_height = ts_block_height (bx_timestamp block)\<rparr>"
    "borsh_decision libs d = Inr bs"
    "m' = m\<lparr>am_store := kv_put (access_decision_key (ad_id d)) bs (am_store m)\<rparr>"
    by (rule check_access_parts [OF assms(2)])
  have "get_ref (am_store m') (access_decision_key (ad_id d)) = Some bs" using parts(6) assms(1) by simp
  with parts(1,3-6) require_permits [OF assms(1) parts(2)] show ?thesis
    unfolding decision_params_default_def by blast
qed

text \<open>C23. \<open>query_verify_access_request\<close>, when it returns Ok, answers exactly whether every operation is
  permitted, for the policy the module holds and the live relationship records, within any read budget.\<close>

theorem verify_access_request_correct:
  assumes "kv_wf (am_store m)" and "query_verify_access_request libs m pid request = Inr b"
  shows "\<exists>p. map_of (am_policies m) pid = Some p \<and>
    (b \<longleftrightarrow> operations_permitted libs (kv_view (am_store m)) p pid (ar_actor request) (ar_operations request))"
proof -
  from assms(2) obtain p where p: "map_of (am_policies m) pid = Some p"
    and run: "fst (verify_ops_loop (permission_engine libs p) pid (ar_actor request) (ar_operations request)
      (permission_snapshot m)) = Inr b"
    by (auto simp: query_verify_access_request_def cached_policy_def)
  with tripleD [OF verify_ops_loop_ok snapshot_holds [OF assms(1)]] show ?thesis by (metis prod.collapse)
qed

text \<open>C24. A recorded decision is good from its issuance until, and not including, its expiry height. At any
  revision not before the issuance, verifying the stored record against the request that led to it returns
  the decision while the height is less than the issued height plus 100, and the error for expiry from
  then on; no height makes the sum wrap around. The record is assumed to be decoded as it was encoded.\<close>

theorem decision_verifies_until_expiry:
  assumes "kv_wf (am_store m)" and run: "check_access libs creator pid request block tx m = (Inr d, m')"
    and "borsh_decision libs d = Inr bs" and "decode_decision libs bs = Inr d"
    and "ts_block_height (bx_timestamp block) \<le> ts_block_height at" and "ts_seconds (bx_timestamp block) \<le> ts_seconds at"
    and "unat (ts_block_height (bx_timestamp block)) + 100 < 2 ^ 64"
  shows "get_ref (am_store m') (access_decision_key (ad_id d)) = Some bs \<and>
    verify_record libs (expected_request creator pid request block tx) bs at =
      (if unat (ts_block_height at) < unat (ts_block_height (bx_timestamp block)) + 100 then Inr d
       else Inl (invalid ''access decision expired''))"
proof -
  let ?h = "ts_block_height (bx_timestamp block)"
  obtain bs' where i: "decision_id libs (expected_request creator pid request block tx) = Inr (ad_id d)"
    and d: "d = \<lparr>ad_id = ad_id d, ad_policy_id = pid, ad_creator = as_str creator,
           ad_creator_acc_sequence = tx_sequence tx, ad_operations = ar_operations request,
           ad_actor = as_str (ar_actor request), ad_params = decision_params_default,
           ad_creation_time = bx_timestamp block, ad_issued_height = ?h\<rparr>"
    and bs': "borsh_decision libs d = Inr bs'"
    and m': "m' = m\<lparr>am_store := kv_put (access_decision_key (ad_id d)) bs' (am_store m)\<rparr>"
    and nz: "?h \<noteq> 0" "ts_seconds (bx_timestamp block) \<noteq> 0"
    by (rule check_access_parts [OF run])
  have sum: "unat (?h + 100) = unat ?h + 100" using assms(7) by (simp add: unat_word_ariths)
  then have add: "checked_add ?h 100 = Some (?h + 100)" by (simp add: checked_add_Some)
  have gt: "\<not> ?h + 100 \<le> ?h" "?h + 100 \<le> ts_block_height at \<longleftrightarrow> \<not> unat (ts_block_height at) < unat ?h + 100"
    using sum by (auto simp: word_le_nat_alt)
  obtain i0 where d0: "d = \<lparr>ad_id = i0, ad_policy_id = pid, ad_creator = as_str creator,
           ad_creator_acc_sequence = tx_sequence tx, ad_operations = ar_operations request,
           ad_actor = as_str (ar_actor request), ad_params = decision_params_default,
           ad_creation_time = bx_timestamp block, ad_issued_height = ?h\<rparr>"
    using d by blast
  have v: "verify_issuance libs (expected_request creator pid request block tx) d at = Inr (?h + 100)"
    using i nz assms(5,6) add gt(1) by (simp add: verify_issuance_def d0 decision_params_default_def not_less expected_request_def)
  have "bs' = bs" using bs' assms(3) by simp
  then have "get_ref (am_store m') (access_decision_key (ad_id d)) = Some bs" using m' assms(1) by simp
  moreover have "verify_record libs (expected_request creator pid request block tx) bs at =
      (if unat (ts_block_height at) < unat ?h + 100 then Inr d else Inl (invalid ''access decision expired''))"
    using v gt(2) assms(4) by (simp add: verify_record_def)
  ultimately show ?thesis by blast
qed



section \<open>A concrete decision\<close>

definition d_block :: block_exec_ctx where
  "d_block = \<lparr>bx_genesis_id = [], bx_deployment_id = 7, bx_timestamp = \<lparr>ts_seconds = 1000, ts_block_height = 5\<rparr>\<rparr>"

definition d_tx :: tx_exec_ctx where
  "d_tx = \<lparr>tx_sequence = 3, tx_hash = [], tx_signer = ''did:key:w''\<rparr>"

definition d_decision :: access_decision where
  "d_decision = \<lparr>ad_id = hex_lower (''vera/access-decision/v1'' @ [CHR 0x00]), ad_policy_id = ''p'', ad_creator = ''did:key:w'',
     ad_creator_acc_sequence = 3, ad_operations = ar_operations q_request, ad_actor = ''did:key:o'',
     ad_params = decision_params_default, ad_creation_time = \<lparr>ts_seconds = 1000, ts_block_height = 5\<rparr>, ad_issued_height = 5\<rparr>"

definition d_libs :: acp_libs where
  "d_libs = q_libs\<lparr>borsh_decision := (\<lambda>_. Inr ''D''), unborsh_decision := (\<lambda>_. Inr d_decision)\<rparr>"

definition d_module :: acp_module where
  "d_module = \<lparr>am_store = q_store, am_policies = [(''p'', q_policy)]\<rparr>"

lemma d_codecs:
  "hex_encode d_libs = hex_lower" "sha256 d_libs = (\<lambda>bs. bs)" "json_subject d_libs = json_subject q_libs"
  "unjson_relationship d_libs ''R'' = Inr q_record" "borsh_decision_request d_libs r = Inr []"
  "borsh_decision d_libs d = Inr ''D''" "unborsh_decision d_libs bs = Inr d_decision"
  by (simp_all add: d_libs_def q_libs_def)

lemma d_key: "relationship_storage_key d_libs rel = relationship_storage_key q_libs rel"
  by (simp add: relationship_storage_key_def acp_relation_prefix_def acp_object_prefix_def d_libs_def)

lemma d_key_length: "length (relationship_key ''p'' (relationship_storage_key q_libs q_rel)) = 99"
  by (simp add: relationship_key_def relationship_storage_key_def acp_relation_prefix_def
      acp_object_prefix_def key_simps q_libs_def hex_lower_def q_rel_def q_owner_def)

lemma d_granted:
  "fst (require_loop (permission_engine d_libs q_policy) ''p'' q_owner (ar_operations q_request)
     (permission_snapshot d_module)) = Inr ()"
  by (simp add: q_eval d_codecs d_key d_key_length permission_engine_def permission_snapshot_def d_module_def check_operation_def
      capture_record_ops_def capture_read_record_def capture_read_def capture_new_def PERMISSION_READ_LIMITS_def
      consume_reads_def consume_records_def consume_bytes_def q_direct q_record_def cong: st_bind_lazy)


lemma d_id:
  "decision_id d_libs (expected_request (Did ''did:key:w'') ''p'' q_request d_block d_tx) = Inr (ad_id d_decision)"
  by (simp add: decision_id_def expected_request_def request_fields_def q_request_def q_owner_def d_codecs
      d_decision_def)

definition d_after :: acp_module where
  "d_after = d_module\<lparr>am_store := kv_put (access_decision_key (ad_id d_decision)) ''D'' q_store\<rparr>"

lemma d_run: "check_access d_libs (Did ''did:key:w'') ''p'' q_request d_block d_tx d_module = (Inr d_decision, d_after)"
proof -
  have "ar_actor q_request = q_owner" "cached_policy d_module ''p'' = Inr q_policy" "am_store d_module = q_store"
    by (simp_all add: q_request_def cached_policy_def d_module_def)
  with d_granted d_id show ?thesis
    by (simp add: check_access_def st_bind_def Let_def set_access_decision_def d_codecs d_after_def)
      (simp add: d_tx_def d_block_def d_decision_def q_owner_def)
qed

lemma d_wf: "kv_wf (am_store d_module)"
  by (simp add: d_module_def q_wf)

theorem recorded_decision_is_permitted_witness:
  "ar_operations q_request \<noteq> [] \<and> operations_permitted d_libs (kv_view q_store) q_policy ''p'' q_owner (ar_operations q_request) \<and>
   ad_creator d_decision = ''did:key:w'' \<and> ad_creator_acc_sequence d_decision = 3 \<and> ad_issued_height d_decision = 5 \<and>
   decision_id d_libs (expected_request (Did ''did:key:w'') ''p'' q_request d_block d_tx) = Inr (ad_id d_decision) \<and>
   get_ref (am_store d_after) (access_decision_key (ad_id d_decision)) = Some ''D''"
proof -
  have p: "map_of (am_policies d_module) ''p'' = Some q_policy" and a: "ar_actor q_request = q_owner" "am_store d_module = q_store"
    by (simp_all add: d_module_def q_request_def)
  from recorded_decision_is_permitted [OF d_wf d_run] p a obtain bs i where
    rec: "operations_permitted d_libs (kv_view q_store) q_policy ''p'' q_owner (ar_operations q_request)"
    and i: "decision_id d_libs (expected_request (Did ''did:key:w'') ''p'' q_request d_block d_tx) = Inr i"
    and b: "borsh_decision d_libs d_decision = Inr bs" "get_ref (am_store d_after) (access_decision_key i) = Some bs"
    by auto
  have "i = ad_id d_decision" "bs = ''D''" using i b(1) d_id d_codecs(6) by simp_all
  with rec i b(2) show ?thesis by (simp add: d_decision_def q_request_def)
qed

lemma d_verified: "query_verify_access_request d_libs d_module ''p'' q_request = Inr True"
proof -
  have "cached_policy d_module ''p'' = Inr q_policy" by (simp add: cached_policy_def d_module_def)
  then show ?thesis
    by (simp add: query_verify_access_request_def q_eval d_codecs d_key d_key_length permission_engine_def
        permission_snapshot_def d_module_def check_operation_def capture_record_ops_def capture_read_record_def
        capture_read_def capture_new_def PERMISSION_READ_LIMITS_def consume_reads_def consume_records_def
        consume_bytes_def q_direct q_record_def cong: st_bind_lazy)
qed

theorem verify_access_request_correct_witness:
  "operations_permitted d_libs (kv_view q_store) q_policy ''p'' q_owner (ar_operations q_request)"
  using verify_access_request_correct [OF d_wf d_verified] by (simp add: d_module_def q_request_def)

theorem decision_verifies_until_expiry_witness:
  "verify_record d_libs (expected_request (Did ''did:key:w'') ''p'' q_request d_block d_tx) ''D''
      \<lparr>ts_seconds = 2000, ts_block_height = 104\<rparr> = Inr d_decision \<and>
   verify_record d_libs (expected_request (Did ''did:key:w'') ''p'' q_request d_block d_tx) ''D''
      \<lparr>ts_seconds = 2000, ts_block_height = 105\<rparr> = Inl (invalid ''access decision expired'')"
proof -
  have dec: "borsh_decision d_libs d_decision = Inr ''D''" "decode_decision d_libs ''D'' = Inr d_decision"
    by (simp_all add: d_codecs decode_decision_def)
  show ?thesis
    using decision_verifies_until_expiry [OF d_wf d_run dec, of "\<lparr>ts_seconds = 2000, ts_block_height = 104\<rparr>"]
      decision_verifies_until_expiry [OF d_wf d_run dec, of "\<lparr>ts_seconds = 2000, ts_block_height = 105\<rparr>"]
    by (simp add: d_block_def)
qed

end
