(* ===== verification/Acp_Frames.thy ===== *)
theory Acp_Frames
  imports Acp_Expiry Acp_Invariants Acp_Decision
begin

text \<open>
  Frame rules for the operations of the ACP module. \<open>spares z c\<close> says that the computation \<open>c\<close> changes no
  key in the zone \<open>z\<close>, whatever its result. Policies, relationships, decisions and amendment events lie
  outside the zones of the operation ledger and of the registration commitments.
\<close>

section \<open>Sparing a zone\<close>

definition spares :: "bytes \<Rightarrow> 'a acp \<Rightarrow> bool" where
  "spares z c \<longleftrightarrow> (\<forall>m r m'. kv_wf (am_store m) \<longrightarrow> c m = (r, m') \<longrightarrow>
     kv_wf (am_store m') \<and> (\<forall>k. prefix z k \<longrightarrow> kv_view (am_store m') k = kv_view (am_store m) k))"

named_theorems spares_rules \<open>computations that change no key of a zone\<close>

lemma sparesD:
  assumes "spares z c" and "kv_wf (am_store m)" and "c m = (r, m')"
  shows "kv_wf (am_store m')" and "prefix z k \<Longrightarrow> kv_view (am_store m') k = kv_view (am_store m) k"
  using assms unfolding spares_def by blast+

lemma spares_reads [spares_rules]:
  "spares z (st_ret x)" "spares z (st_fail e)" "spares z (st_lift r)" "spares z (st_read f)"
  by (simp_all add: spares_def)

lemma spares_bind_given:
  assumes "spares z c" and "\<And>m x m'. kv_wf (am_store m) \<Longrightarrow> c m = (Inr x, m') \<Longrightarrow> spares z (g x)"
  shows "spares z (st_bind c g)"
  unfolding spares_def
proof (intro allI impI)
  fix m r m' assume wf: "kv_wf (am_store m)" and run: "st_bind c g m = (r, m')"
  obtain r1 m1 where c: "c m = (r1, m1)" by fastforce
  note c' = sparesD [OF assms(1) wf c]
  show "kv_wf (am_store m') \<and> (\<forall>k. prefix z k \<longrightarrow> kv_view (am_store m') k = kv_view (am_store m) k)"
  proof (cases r1)
    case (Inl e)
    with run c c' show ?thesis by (simp add: st_bind_def)
  next
    case (Inr x)
    with run c have "g x m1 = (r, m')" by (simp add: st_bind_def)
    from sparesD [OF assms(2) [OF wf c [unfolded Inr]] c'(1) this] c'(2) show ?thesis by simp
  qed
qed

lemma spares_bind [spares_rules]: "spares z c \<Longrightarrow> (\<And>x. spares z (g x)) \<Longrightarrow> spares z (st_bind c g)"
  by (rule spares_bind_given)

lemma spares_split [spares_rules]:
  "spares z x \<Longrightarrow> spares z y \<Longrightarrow> spares z (if b then x else y)"
  "spares z x \<Longrightarrow> (\<And>v. spares z (g v)) \<Longrightarrow> spares z (case r of None \<Rightarrow> x | Some v \<Rightarrow> g v)"
  "(\<And>a b. spares z (h a b)) \<Longrightarrow> spares z (case p of (a, b) \<Rightarrow> h a b)"
  by (simp_all split: option.split prod.split)

lemma spares_writes:
  "\<not> prefix z k \<Longrightarrow> spares z (acp_put k v)" "\<not> prefix z k \<Longrightarrow> spares z (acp_delete k)" "spares z (cache_policy i p)"
  by (auto simp: spares_def acp_delete_def cache_policy_def)

lemma spares_delete_keys: "\<forall>k \<in> set ks. \<not> prefix z k \<Longrightarrow> spares z (delete_keys ks)"
proof (induction ks)
  case (Cons k ks)
  then show ?case unfolding delete_keys.simps by (intro spares_bind spares_writes) simp_all
qed (simp add: spares_reads)

abbreviation ledger_zones :: "bytes set" where
  "ledger_zones \<equiv> {OPERATION_ZONE, COMMITMENT_ZONE}"

lemma zone_keys:
  assumes "z \<in> ledger_zones"
  shows "\<not> prefix z (relationship_key p s)" "\<not> prefix z (policy_key i)" "\<not> prefix z POLICY_COUNTER_KEY"
    "\<not> prefix z (access_decision_key i)" "\<not> prefix z PARAMS_KEY" "\<not> prefix z (amendment_event_key c)"
    "\<not> prefix z amendment_event_counter_key" "\<not> prefix z (amendment_event_policy_index_key i c)"
    "prefix RELATIONSHIP_PREFIX k \<Longrightarrow> \<not> prefix z k"
  using assms by (auto simp: key_simps OPERATION_ZONE_def COMMITMENT_ZONE_def policy_key_def access_decision_key_def
      amendment_event_key_def amendment_event_counter_key_def amendment_event_policy_index_key_def
      amendment_event_policy_index_prefix_def relationship_key_def prefix_def)

lemma spares_storage [spares_rules]:
  assumes "z \<in> ledger_zones"
  shows "spares z (set_relationship libs p s rec)" "spares z (delete_relationship p s)"
    "spares z (acp_put (relationship_storage_prefix p s) v)"
    "spares z (set_policy_record libs i pr)" "spares z (acp_put POLICY_COUNTER_KEY v)" "spares z (cache_policy i q)"
    "spares z (acp_put (access_decision_key i) v)" "spares z (acp_put PARAMS_KEY v)"
    "spares z (create_amendment_event libs ev)" "spares z (update_amendment_event libs ev)"
  unfolding set_relationship_def delete_relationship_def set_policy_record_def create_amendment_event_def
    update_amendment_event_def Let_def storage_prefix_key
  by (intro spares_rules spares_writes zone_keys [OF assms])+

lemma commitment_keys_zone [simp]:
  "\<not> prefix OPERATION_ZONE (commitment_key i)" "\<not> prefix OPERATION_ZONE commitment_counter_key"
  "\<not> prefix OPERATION_ZONE (commitment_by_commitment_index_key r i)" "\<not> prefix OPERATION_ZONE (commitment_expiry_key c)"
  using zones_disjoint commitment_zone by blast+

lemma spares_commitments [spares_rules]:
  "spares OPERATION_ZONE (update_commitment libs c)" "spares OPERATION_ZONE (create_commitment libs c)"
  unfolding create_commitment_def update_commitment_def Let_def
  by (intro spares_rules spares_writes commitment_keys_zone)+


section \<open>The operations\<close>

lemma archive_loop_sub: "archive_loop libs pid ob es = Inr ks \<Longrightarrow> set ks \<subseteq> fst ` set es"
proof (induction libs pid ob es arbitrary: ks rule: archive_loop.induct)
  case (2 libs pid ob key bs rest)
  then show ?case by (auto split: if_splits) blast+
qed simp

lemma orphan_loop_sub: "orphan_loop libs pid new es = Inr ks \<Longrightarrow> set ks \<subseteq> fst ` set es"
proof (induction libs pid new es arbitrary: ks rule: orphan_loop.induct)
  case (2 libs pid new key bs rest)
  then show ?case by (auto simp: Let_def split: if_splits) blast+
qed simp

lemma policy_prefix_rel: "prefix (relationship_policy_prefix pid) k \<Longrightarrow> prefix RELATIONSHIP_PREFIX k"
  by (auto simp: relationship_policy_prefix_def prefix_def)

lemma entries_outside:
  assumes z: "z \<in> ledger_zones" and wf: "kv_wf s" and "set ks \<subseteq> fst ` set (prefix_iter s p)"
    and p: "\<And>k. prefix p k \<Longrightarrow> prefix RELATIONSHIP_PREFIX k"
  shows "\<forall>k \<in> set ks. \<not> prefix z k"
proof
  fix k assume "k \<in> set ks"
  then obtain v where "(k, v) \<in> set (prefix_iter s p)" using assms(3) by auto
  then have "prefix p k" by (simp add: prefix_iter_set [OF wf])
  then show "\<not> prefix z k" using zone_keys(9) [OF z] p by blast
qed

lemma spares_sweep:
  assumes z: "z \<in> ledger_zones" and "\<And>es ks. loop es = Inr ks \<Longrightarrow> set ks \<subseteq> fst ` set es"
    and "\<And>k. prefix p k \<Longrightarrow> prefix RELATIONSHIP_PREFIX k" and "\<And>ks. spares z (g ks)"
  shows "spares z (st_bind (st_read (\<lambda>m. loop (prefix_iter (am_store m) p))) (\<lambda>ks. st_bind (delete_keys ks) (\<lambda>_. g ks)))"
proof (rule spares_bind_given [OF spares_reads(4)])
  fix m ks m' assume wf: "kv_wf (am_store m)"
    and "st_read (\<lambda>m. loop (prefix_iter (am_store m) p)) m = (Inr ks, m')"
  then have "loop (prefix_iter (am_store m) p) = Inr ks" by auto
  from entries_outside [OF z wf assms(2) [OF this] assms(3)] have "spares z (delete_keys ks)"
    by (intro spares_delete_keys)
  then show "spares z (st_bind (delete_keys ks) (\<lambda>_. g ks))" using assms(4) by (rule spares_bind)
qed

lemma archive_spares [spares_rules]: "z \<in> ledger_zones \<Longrightarrow> spares z (cmd_archive_object libs actor pid ob)"
  unfolding cmd_archive_object_def Let_def
  by (intro spares_sweep [OF _ archive_loop_sub storage_prefix_rel] spares_rules)

lemma edit_spares: "z \<in> ledger_zones \<Longrightarrow> spares z (edit_policy libs actor pid pol mt)"
  unfolding edit_policy_def Let_def prefix_scan_iter
  by (intro spares_sweep [OF _ orphan_loop_sub policy_prefix_rel] spares_rules)

lemma create_policy_spares: "z \<in> ledger_zones \<Longrightarrow> spares z (create_policy_with_metadata libs pol mt md)"
  unfolding create_policy_with_metadata_def Let_def by (intro spares_rules)

lemma decision_spares: "z \<in> ledger_zones \<Longrightarrow> spares z (check_access libs actor pid request block tx)"
  unfolding check_access_def set_access_decision_def Let_def by (intro spares_rules)

lemma params_spares: "z \<in> ledger_zones \<Longrightarrow> spares z (set_params libs params)"
  unfolding set_params_def by (intro spares_rules)

lemma commands_spare [spares_rules]:
  assumes "z \<in> ledger_zones"
  shows "spares z (cmd_set_relationship libs actor pid rel)" "spares z (cmd_delete_relationship libs actor pid rel)"
    "spares z (cmd_register_object libs actor pid ob)" "spares z (cmd_unarchive_object libs actor pid ob)"
    "spares z (amend_registration libs actor pid i c ob rec)" "spares z (cmd_flag_hijack_attempt libs actor pid i)"
  unfolding cmd_set_relationship_def cmd_delete_relationship_def cmd_register_object_def cmd_unarchive_object_def
    amend_registration_def cmd_flag_hijack_attempt_def Let_def
  by (intro spares_rules assms)+

lemma reveal_spares [spares_rules]: "z \<in> ledger_zones \<Longrightarrow> spares z (cmd_reveal_registration libs actor pid i rp)"
  unfolding cmd_reveal_registration_def Let_def by (intro spares_rules)

lemma commit_spares [spares_rules]: "spares OPERATION_ZONE (cmd_commit_registrations libs actor pid root)"
  unfolding cmd_commit_registrations_def by (intro spares_rules)

text \<open>A command, with the stamping of its result, leaves the ledger alone; it leaves the commitments alone
  unless it commits.\<close>

lemma stamp_relationship_spares [spares_rules]: "z \<in> ledger_zones \<Longrightarrow> spares z (stamp_relationship libs pid rec md)"
  unfolding stamp_relationship_def Let_def by (intro spares_rules)

lemma stamp_spares:
  assumes z: "z \<in> ledger_zones" and "z = OPERATION_ZONE \<or> (\<forall>c. r \<noteq> CommitRegistrationsResult c)"
  shows "spares z (stamp_result libs pid md emd r)"
proof (cases "(libs, pid, md, emd, r)" rule: stamp_result.cases)
  case (3 libs pid md emd c)
  then have "z = OPERATION_ZONE" "r = CommitRegistrationsResult c" using assms(2) by auto
  then show ?thesis by (auto simp: Let_def intro!: spares_rules)
qed (use z in \<open>auto simp: Let_def intro!: spares_rules\<close>)

lemma run_command_spares:
  assumes "z \<in> ledger_zones" and "z = OPERATION_ZONE \<or> (\<forall>root. cmd \<noteq> CommitRegistrations root)"
  shows "spares z (run_command libs actor pid cmd)"
  using assms by (cases cmd) (auto intro: spares_rules)

lemma command_result_commit:
  assumes "run_command libs actor pid cmd m = (Inr (CommitRegistrationsResult c), m')"
  shows "\<exists>root. cmd = CommitRegistrations root"
  using assms
  by (cases cmd)
    (auto simp: cmd_set_relationship_def cmd_delete_relationship_def cmd_register_object_def cmd_archive_object_def
      cmd_unarchive_object_def cmd_reveal_registration_def amend_registration_def cmd_flag_hijack_attempt_def result_simps
      Let_def split: if_splits option.splits prod.splits)

lemma execute_spares:
  assumes z: "z \<in> ledger_zones" and c: "z = OPERATION_ZONE \<or> (\<forall>root. cmd \<noteq> CommitRegistrations root)"
  shows "spares z (execute_policy_cmd libs actor pid cmd block submission)"
proof -
  have "spares z (st_bind (run_command libs actor pid cmd) (stamp_result libs pid md emd))" for md emd
  proof (rule spares_bind_given [OF run_command_spares [OF assms]])
    fix m r m' assume "run_command libs actor pid cmd m = (Inr r, m')"
    then have "z = OPERATION_ZONE \<or> (\<forall>c. r \<noteq> CommitRegistrationsResult c)" using c command_result_commit by blast
    then show "spares z (stamp_result libs pid md emd r)" by (rule stamp_spares [OF z])
  qed
  then have "spares z (st_bind (direct_policy_cmd libs actor pid cmd) (stamp_result libs pid md emd))" for md emd
    by (simp add: direct_policy_cmd_def spares_def st_bind_def)
  then show ?thesis unfolding execute_policy_cmd_def
    by (intro spares_split(1) spares_reads(2) spares_bind [OF spares_reads(4)])
qed



section \<open>Commitments\<close>

lemma counter_keys [simp]: "commitment_key i \<noteq> commitment_counter_key" "commitment_expiry_key c \<noteq> commitment_counter_key"
  by (auto simp: commitment_key_def commitment_counter_key_def commitment_expiry_key_def expiry_prefix_def
      SECONDS_PREFIX_def HEIGHT_PREFIX_def key_simps split: duration.splits)

lemma com_ok_counter:
  assumes ok: "com_ok libs s"
  shows "com_ok libs (kv_put commitment_counter_key v s)"
proof -
  let ?s = "kv_put commitment_counter_key v s"
  have wf: "kv_wf s" using ok by (simp add: com_ok_def)
  have m: "com_map libs ?s = com_map libs s" using wf by (simp add: com_map_def fun_eq_iff)
  then have pend: "pending_on p libs ?s = pending_on p libs s" for p by (simp add: pending_on_def)
  have "kv_view ?s k = Some w \<and> prefix p k \<longleftrightarrow> kv_view s k = Some w \<and> prefix p k"
    if "p \<in> {SECONDS_PREFIX, HEIGHT_PREFIX}" for p k w
    using wf expiry_zone_apart(3) [OF that] by auto
  then show ?thesis using ok wf pend unfolding com_ok_def by simp
qed

lemma create_commitment_ok:
  assumes ok: "com_ok libs (am_store m)" and codec: "commitment_codec_ok libs" and len: "length (rc_commitment c) = 32"
    and run: "create_commitment libs c m = (Inr c', m')"
  shows "com_ok libs (am_store m')" and "rc_id c' \<noteq> 0" and "rc_commitment c' = rc_commitment c"
proof -
  from run obtain counter n m1 where n: "checked_add counter 1 = Some n" and c': "c' = c\<lparr>rc_id := n\<rparr>"
    and upd: "update_commitment libs (c\<lparr>rc_id := n\<rparr>) m = (Inr (), m1)"
    and m': "m' = m1\<lparr>am_store := kv_put commitment_counter_key (to_be_bytes n) (am_store m1)\<rparr>"
    by (auto simp: create_commitment_def result_simps Let_def split: if_splits)
  have n0: "n \<noteq> 0" using n by (auto simp: checked_add_Some)
  obtain m2 where "update_commitment libs (c\<lparr>rc_id := n\<rparr>) m = (Inr (), m2)" "com_ok libs (am_store m2)"
    by (rule update_commitment_ok [OF ok codec, of "c\<lparr>rc_id := n\<rparr>"]) (use n0 len in simp_all)
  with upd have "com_ok libs (am_store m1)" by simp
  then show "com_ok libs (am_store m')" unfolding m' by (simp add: com_ok_counter)
  show "rc_id c' \<noteq> 0" "rc_commitment c' = rc_commitment c" using n0 c' by simp_all
qed

lemma direct_spares:
  assumes "z \<in> ledger_zones" and "z = OPERATION_ZONE \<or> (\<forall>root. cmd \<noteq> CommitRegistrations root)"
  shows "spares z (direct_policy_cmd libs actor pid cmd)"
  unfolding direct_policy_cmd_def by (intro spares_split(1) spares_reads(2) run_command_spares [OF assms])

lemma direct_com_ok:
  assumes ok: "com_ok libs (am_store m)" and codec: "commitment_codec_ok libs"
    and run: "direct_policy_cmd libs actor pid cmd m = (Inr r, m')"
  shows "com_ok libs (am_store m')"
proof (cases "\<exists>root. cmd = CommitRegistrations root")
  case False
  then have sp: "spares COMMITMENT_ZONE (direct_policy_cmd libs actor pid cmd)" by (intro direct_spares) auto
  have wf: "kv_wf (am_store m)" using ok by (simp add: com_ok_def)
  show ?thesis by (rule conjunct1 [OF com_ok_zone [OF ok]]) (rule sparesD [OF sp wf run], assumption?)+
next
  case True
  with run obtain root and params :: acp_params and c where "length root = 32"
    and create: "create_commitment libs \<lparr>rc_id = 0, rc_policy_id = pid, rc_commitment = root, rc_expired = False,
       rc_validity = ap_registrations_commitment_validity params, rc_metadata = plain_metadata (as_str actor)\<rparr> m = (Inr c, m')"
    by (auto simp: direct_policy_cmd_def cmd_commit_registrations_def result_simps Let_def split: if_splits)
  then show ?thesis using create_commitment_ok(1) [OF ok codec _ create] by simp
qed

lemma command_com_ok:
  assumes ok: "com_ok libs (am_store m)" and codec: "commitment_codec_ok libs"
    and run: "execute_policy_cmd libs actor pid cmd block submission m = (Inr r, m')"
  shows "com_ok libs (am_store m')"
proof (cases "\<exists>root. cmd = CommitRegistrations root")
  case False
  then have sp: "spares COMMITMENT_ZONE (execute_policy_cmd libs actor pid cmd block submission)"
    by (intro execute_spares) auto
  have wf: "kv_wf (am_store m)" using ok by (simp add: com_ok_def)
  show ?thesis by (rule conjunct1 [OF com_ok_zone [OF ok]]) (rule sparesD [OF sp wf run], assumption?)+
next
  case True
  then obtain root where cmd: "cmd = CommitRegistrations root" by blast
  let ?md = "submission_metadata actor block submission"
  from run obtain params :: acp_params and c m1 where len: "length root = 32"
    and create: "create_commitment libs \<lparr>rc_id = 0, rc_policy_id = pid, rc_commitment = root, rc_expired = False,
       rc_validity = ap_registrations_commitment_validity params, rc_metadata = plain_metadata (as_str actor)\<rparr> m = (Inr c, m1)"
    and upd: "update_commitment libs (c\<lparr>rc_metadata := ?md\<rparr>) m1 = (Inr (), m')"
    unfolding cmd by (auto simp: execute_policy_cmd_def direct_policy_cmd_def cmd_commit_registrations_def result_simps
        Let_def split: if_splits)
  have c: "com_ok libs (am_store m1)" "rc_id c \<noteq> 0" "length (rc_commitment c) = 32"
    using create_commitment_ok [OF ok codec _ create] len by simp_all
  obtain m2 where "update_commitment libs (c\<lparr>rc_metadata := ?md\<rparr>) m1 = (Inr (), m2)" "com_ok libs (am_store m2)"
    by (rule update_commitment_ok [OF c(1) codec, of "c\<lparr>rc_metadata := ?md\<rparr>"]) (use c in simp_all)
  with upd show ?thesis by simp
qed

end
