(* ===== verification/Acp_Reachable.thy ===== *)
theory Acp_Reachable
  imports Acp_Frames Acp_Atomicity
begin

text \<open>
  The states of the ACP module reachable by its operations, from the empty module: policies, commands run
  directly or submitted, decisions, outcomes of delegated operations, parameters and the ends of blocks. Every reachable state
  satisfies the invariants of the registry, of the ledger and of the commitments, so that their
  consequences hold without assumptions about the stored bytes.
\<close>

section \<open>The invariant of the module\<close>

definition module_ok :: "acp_libs \<Rightarrow> acp_module \<Rightarrow> bool" where
  "module_ok libs m \<longleftrightarrow> acp_inv libs m \<and> ledger_ok m \<and> com_ok libs (am_store m)"

lemma module_okI: "acp_inv libs m \<Longrightarrow> ledger_ok m \<Longrightarrow> com_ok libs (am_store m) \<Longrightarrow> module_ok libs m"
  by (simp add: module_ok_def)

lemma module_okD:
  assumes "module_ok libs m"
  shows "acp_inv libs m" and "base_inv libs m" and "kv_wf (am_store m)" and "ledger_ok m" and "com_ok libs (am_store m)"
  using assms by (simp_all add: module_ok_def acp_inv_def base_inv_def)

text \<open>An operation that stays out of both zones only has to keep the registry; one that stays inside them
  keeps it.\<close>

lemma outside_zones:
  assumes ok: "module_ok libs m" and run: "c m = (r, m')" and sp: "\<And>z. z \<in> ledger_zones \<Longrightarrow> spares z c"
    and inv: "acp_inv libs m'"
  shows "module_ok libs m'"
proof (rule module_okI [OF inv])
  note wf = module_okD(3) [OF ok]
  have z: "OPERATION_ZONE \<in> ledger_zones" "COMMITMENT_ZONE \<in> ledger_zones" by simp_all
  note o = sparesD [OF sp [OF z(1)] wf run] and c = sparesD [OF sp [OF z(2)] wf run]
  show "ledger_ok m'" by (rule conjunct1 [OF ledger_ok_zone [OF module_okD(4) [OF ok] o(1) o(2)]])
  show "com_ok libs (am_store m')" by (rule conjunct1 [OF com_ok_zone [OF module_okD(5) [OF ok] c(1) c(2)]])
qed

lemma acp_inv_zones:
  assumes inv: "acp_inv libs m" and wf: "kv_wf (am_store m')" and pol: "am_policies m' = am_policies m"
    and same: "\<And>k. \<forall>z \<in> ledger_zones. \<not> prefix z k \<Longrightarrow> kv_view (am_store m') k = kv_view (am_store m) k"
  shows "acp_inv libs m'"
proof -
  have rel: "kv_view (am_store m') k = kv_view (am_store m) k" if "prefix RELATIONSHIP_PREFIX k" for k
    using same zone_keys(9) that by blast
  then have "records libs m' = records libs m" by (auto simp: rel_map_def fun_eq_iff)
  moreover have "kv_view (am_store m') (policy_key i) = kv_view (am_store m) (policy_key i)" for i
    using same zone_keys(2) by blast
  ultimately show ?thesis using inv wf pol rel by (auto simp: acp_inv_def base_inv_def)
qed

lemma acp_new_ok: "module_ok libs acp_new"
proof -
  have "rel_map libs Map.empty = Map.empty" by (simp add: rel_map_def fun_eq_iff)
  moreover have "kv_view (am_store acp_new) = Map.empty" "kv_wf (am_store acp_new)" by (simp_all add: acp_new_def)
  moreover have "am_policies acp_new = []" by (simp add: acp_new_def)
  ultimately show ?thesis
    by (simp add: module_ok_def acp_inv_def base_inv_def reg_ok_def ledger_ok_def ledger_index_def retained_keys_def
        com_ok_def pending_on_def com_map_def operation_bytes_def operation_budget_def kv_read_simps)
qed



section \<open>Every operation keeps it\<close>

lemma compiled_id: "compile_policy libs policy mt counter spec = Inr p \<Longrightarrow> no_slash (pol_id p)"
  by (auto simp: compile_policy_def no_slash_def generate_policy_id_def hex_lower_no_slash dest!: build_policy_parts(6)
      split: if_splits)

lemma create_policy_inv:
  assumes inv: "acp_inv libs m" and run: "create_policy_with_metadata libs policy mt md m = (Inr rec, m')"
  shows "acp_inv libs m'"
proof -
  from run obtain counter p where p: "compile_policy libs policy mt counter None = Inr p"
    and m': "m' = m\<lparr>am_store := kv_put (policy_key (pol_id p)) (json_policy_record libs
        \<lparr>pr_policy = p, pr_raw_policy = policy, pr_marshal_type = mt, pr_metadata = md\<rparr>)
          (kv_put POLICY_COUNTER_KEY (to_be_bytes counter) (am_store m)),
        am_policies := ord_insert (pol_id p) p (am_policies m)\<rparr>"
    by (auto simp: create_policy_with_metadata_def set_policy_record_def cache_policy_def result_simps Let_def split: if_splits)
  let ?m1 = "m\<lparr>am_store := kv_put POLICY_COUNTER_KEY (to_be_bytes counter) (am_store m)\<rparr>"
  have base: "base_inv libs m" using inv by (simp add: acp_inv_def)
  note m1 = base_put_other [OF base other_keys(2), of "to_be_bytes counter"]
  note id = compiled_id [OF p]
  from base_cache [OF base_put_policy(1) [OF m1(1) id] id] base_put_policy(2) [OF m1(1) id] m1(2) inv m'
  show ?thesis by (simp add: acp_inv_def)
qed

lemma delete_keys_inv: "acp_inv libs m \<Longrightarrow> delete_keys ks m = (Inr (), m1) \<Longrightarrow> acp_inv libs m1 \<and> am_policies m1 = am_policies m"
  using delete_keys_run [of libs m ks] by (auto simp: acp_inv_def map_le_def elim!: reg_ok_sub)

lemma edit_policy_inv:
  assumes inv: "acp_inv libs m" and run: "edit_policy libs creator pid policy mt m = (Inr r, m')"
  shows "acp_inv libs m'"
proof -
  from run obtain existing ks m1 rec p where known: "get_policy_record libs m pid = Inr (Some existing)"
    and del: "delete_keys ks m = (Inr (), m1)"
    and m': "m' = m1\<lparr>am_store := kv_put (policy_key pid) (json_policy_record libs rec) (am_store m1),
      am_policies := ord_insert pid p (am_policies m1)\<rparr>"
    by (auto simp: edit_policy_def set_policy_record_def cache_policy_def result_simps Let_def split: if_splits)
  have "no_slash pid" using known inv
    by (auto simp: get_policy_record_def acp_inv_def base_inv_def split: option.splits)
  moreover have m1: "acp_inv libs m1" using delete_keys_inv [OF inv del] by simp
  ultimately show ?thesis using base_cache [OF base_put_policy(1)] base_put_policy(2) m'
    by (simp add: acp_inv_def)
qed

lemma run_command_known:
  assumes "base_inv libs m" and "run_command libs actor pid cmd m = (Inr r, m')" and "\<forall>i. cmd \<noteq> FlagHijackAttempt i"
  shows "no_slash pid"
proof -
  have "(\<exists>p. cached_policy m pid = Inr p) \<or> has_policy_id m pid"
    using assms(2,3)
    by (cases cmd)
      (auto simp: cmd_set_relationship_def cmd_delete_relationship_def cmd_register_object_def cmd_archive_object_def
        cmd_unarchive_object_def cmd_reveal_registration_def cmd_commit_registrations_def validate_registration_object_def
        result_simps Let_def split: if_splits)
  then show ?thesis using known_policy [OF assms(1)] by blast
qed

text \<open>A command runs in one of two ways: directly, on behalf of another module, or as a submission whose result is
  stamped with the metadata of the block and the transaction.\<close>

definition runs_command ::
  "acp_libs \<Rightarrow> did \<Rightarrow> string \<Rightarrow> policy_cmd \<Rightarrow> acp_module \<Rightarrow> policy_cmd_result \<Rightarrow> acp_module \<Rightarrow> bool" where
  "runs_command libs actor pid cmd m r m' \<longleftrightarrow>
     direct_policy_cmd libs actor pid cmd m = (Inr r, m') \<or>
     (\<exists>block submission. execute_policy_cmd libs actor pid cmd block submission m = (Inr r, m'))"

lemma command_known_policy:
  assumes "base_inv libs m" and "runs_command libs actor pid cmd m r m'" and "\<nexists>i. cmd = FlagHijackAttempt i"
  shows "no_slash pid"
proof -
  from assms(2) obtain r0 m1 where "run_command libs actor pid cmd m = (Inr r0, m1)"
    by (auto simp: runs_command_def execute_policy_cmd_def direct_policy_cmd_def result_simps split: if_splits)
  then show ?thesis using run_command_known [OF assms(1)] assms(3) by blast
qed

lemma flag_command_records:
  assumes base: "base_inv libs m" and "runs_command libs actor pid (FlagHijackAttempt i) m r m'"
  shows "base_inv libs m' \<and> records libs m' = records libs m"
proof -
  from assms(2) have flag: "cmd_flag_hijack_attempt libs actor pid i m = (Inr r, m')"
    by (auto simp: runs_command_def execute_policy_cmd_def direct_policy_cmd_def cmd_flag_hijack_attempt_def result_simps
        Let_def split: if_splits)
  from asideD [OF flag_aside base this] show ?thesis by simp
qed

lemma command_step:
  assumes "acp_inv libs m" and "hex_ok libs" and "relationship_codec_ok libs" and "command_dids actor cmd"
    and run: "runs_command libs actor pid cmd m r m'"
  shows "plain_step libs actor pid (amend_evidence libs actor pid cmd m) m m'"
  using run run_command_step [OF assms(1-4)] execute_step [OF assms(1-4)]
  by (auto simp: runs_command_def direct_policy_cmd_def split: if_splits)

lemma command_inv:
  assumes inv: "acp_inv libs m" and hex: "hex_ok libs" and codec: "relationship_codec_ok libs"
    and dids: "command_dids actor cmd" and run: "runs_command libs actor pid cmd m r m'"
  shows "acp_inv libs m'"
proof (cases "\<exists>i. cmd = FlagHijackAttempt i")
  case True
  then show ?thesis using flag_command_records inv run by (auto simp: acp_inv_def)
next
  case False
  have "plain_step libs actor pid (amend_evidence libs actor pid cmd m) m m'"
    by (rule command_step [OF inv hex codec dids run])
  moreover have "no_slash pid" using command_known_policy [OF _ run False] inv by (simp add: acp_inv_def)
  ultimately show ?thesis using reg_step_ok inv by (auto simp: plain_step_def acp_inv_def)
qed

lemma command_ok:
  assumes ok: "module_ok libs m" and hex: "hex_ok libs" and codecs: "relationship_codec_ok libs" "commitment_codec_ok libs"
    and dids: "command_dids actor cmd" and run: "runs_command libs actor pid cmd m r m'"
  shows "module_ok libs m'"
proof (rule module_okI)
  show "acp_inv libs m'" by (rule command_inv [OF module_okD(1) [OF ok] hex codecs(1) dids run])
  have "spares OPERATION_ZONE (direct_policy_cmd libs actor pid cmd)"
    "spares OPERATION_ZONE (execute_policy_cmd libs actor pid cmd block submission)" for block submission
    by (rule direct_spares execute_spares; simp)+
  note sp = sparesD [OF this(1) module_okD(3) [OF ok]] sparesD [OF this(2) module_okD(3) [OF ok]]
  have "kv_wf (am_store m')" "\<And>k. prefix OPERATION_ZONE k \<Longrightarrow> kv_view (am_store m') k = kv_view (am_store m) k"
    using run sp unfolding runs_command_def by blast+
  then show "ledger_ok m'" by (rule conjunct1 [OF ledger_ok_zone [OF module_okD(4) [OF ok]]])
  show "com_ok libs (am_store m')"
    using run direct_com_ok [OF module_okD(5) [OF ok] codecs(2)] command_com_ok [OF module_okD(5) [OF ok] codecs(2)]
    unfolding runs_command_def by blast
qed

lemma decision_inv:
  assumes inv: "acp_inv libs m" and run: "check_access libs actor pid request block tx m = (Inr d, m')"
  shows "acp_inv libs m'"
proof -
  have "aside libs (check_access libs actor pid request block tx)"
    unfolding check_access_def set_access_decision_def Let_def by (intro aside_rules)
  from asideD [OF this _ run] inv show ?thesis by (simp add: acp_inv_def)
qed

lemma params_inv:
  assumes inv: "acp_inv libs m" and run: "set_params libs params m = (Inr u, m')"
  shows "acp_inv libs m'"
proof -
  have "aside libs (set_params libs params)" unfolding set_params_def by (intro aside_rules)
  from asideD [OF this _ run] inv show ?thesis by (simp add: acp_inv_def)
qed

lemma inside_operation_zone:
  assumes ok: "module_ok libs m" and led: "ledger_ok m'" and pol: "am_policies m' = am_policies m"
    and same: "\<And>k. \<not> prefix OPERATION_ZONE k \<Longrightarrow> kv_view (am_store m') k = kv_view (am_store m) k"
  shows "module_ok libs m'"
proof (rule module_okI [OF _ led])
  have wf: "kv_wf (am_store m')" using led by (simp add: ledger_ok_def ledger_index_def)
  show "acp_inv libs m'" by (rule acp_inv_zones [OF module_okD(1) [OF ok] wf pol]) (simp add: same)
  show "com_ok libs (am_store m')"
    by (rule conjunct1 [OF com_ok_zone [OF module_okD(5) [OF ok] wf]]) (use same zones_disjoint in blast)
qed

lemma outcome_ok:
  assumes ok: "module_ok libs m" and sha: "\<forall>bs. length (vera_sha vl bs) = 32" and len: "length (or_id record) = 32"
    and fresh: "get_operation vl m actor (or_id record) = Inr None"
    and run: "complete_operation vl actor record m = (Inr u, m')"
  shows "module_ok libs m'"
proof (rule inside_operation_zone [OF ok])
  note compl = complete_run [OF module_okD(4) [OF ok] sha len fresh run]
  show "ledger_ok m'" "am_policies m' = am_policies m" by (rule compl)+
  obtain key bs where key: "operation_key vl actor (or_id record) = Inr key"
    and view: "kv_view (am_store m') = (kv_view (am_store m))(key \<mapsto> bs, op_index key \<mapsto> key,
      BYTES_KEY \<mapsto> the (kv_view (am_store m') BYTES_KEY))" using compl(3) by blast
  have "prefix OPERATION_PREFIX key" by (rule operation_key_shape(1) [OF key sha len])
  then have zone: "prefix OPERATION_ZONE key" "prefix OPERATION_ZONE (op_index key)" "prefix OPERATION_ZONE BYTES_KEY"
    by (auto simp: OPERATION_ZONE_def ledger_consts op_index_def prefix_def)
  show "kv_view (am_store m') k = kv_view (am_store m) k" if "\<not> prefix OPERATION_ZONE k" for k
    by (subst view) (use zone that in auto)
qed

lemma budget_ok:
  assumes ok: "module_ok libs m" and run: "set_operation_budget b m = (Inr u, m')"
  shows "module_ok libs m'"
proof (rule inside_operation_zone [OF ok])
  have m': "m' = m\<lparr>am_store := kv_put BUDGET_KEY (to_be_bytes b) (am_store m)\<rparr>"
    using run by (auto simp: set_operation_budget_def result_simps split: if_splits)
  show "ledger_ok m'" "am_policies m' = am_policies m" using set_budget_run [OF module_okD(4) [OF ok] run] by simp_all
  have "prefix OPERATION_ZONE BUDGET_KEY" by (simp add: OPERATION_ZONE_def ledger_consts)
  then show "kv_view (am_store m') k = kv_view (am_store m) k" if "\<not> prefix OPERATION_ZONE k" for k
    using m' that module_okD(3) [OF ok] by auto
qed

lemma end_block_ok:
  assumes ok: "module_ok libs m" and codec: "commitment_codec_ok libs" and run: "end_blocker libs block m = (Inr out, m')"
  shows "module_ok libs m'"
proof -
  obtain m1 B Bs Bh where m1: "end_blocker libs block m = (Inr (map expired (Bs @ Bh)), m1)" "ledger_ok m1"
    "com_ok libs (am_store m1)" "am_policies m1 = am_policies m"
    "\<forall>k. \<not> prefix OPERATION_ZONE k \<and> \<not> prefix COMMITMENT_ZONE k \<longrightarrow> kv_view (am_store m1) k = kv_view (am_store m) k"
    by (rule end_blocker_run [OF module_okD(4,5) [OF ok] codec, of block]) (rule that)
  have wf: "kv_wf (am_store m1)" using m1(3) by (simp add: com_ok_def)
  have "acp_inv libs m1" by (rule acp_inv_zones [OF module_okD(1) [OF ok] wf m1(4)]) (use m1(5) in simp)
  then show ?thesis using m1(1-3) run by (simp add: module_ok_def)
qed



section \<open>Reachable states\<close>

text \<open>One constructor for each operation of \<open>AcpModule\<close> that writes and is not merely a part of another:
  \<open>create_policy_with_metadata\<close> (also behind \<open>create_policy\<close>), \<open>edit_policy\<close>, \<open>direct_policy_cmd\<close> (called by the
  bulletin and the rings), \<open>execute_policy_cmd\<close>, \<open>check_access\<close>, \<open>complete_operation\<close>, \<open>set_operation_budget\<close>,
  \<open>set_params\<close> and \<open>end_blocker\<close>. The one that remains, \<open>update_params\<close>, always fails. Only calls that succeed are
  steps: \<open>failed_calls_change_nothing\<close> below shows that the others leave the module as it was, and a failed
  \<open>execute_policy_cmd\<close> does so by the atomicity of commands. The identities in a command come from \<open>Did::new\<close>. An
  outcome is recorded only for an operation that has none, as \<open>with_delegation\<close> checks before it runs the
  operation; \<open>outcome_still_absent\<close> shows that the operation itself cannot change that. A delegated call
  is then its operation followed by the outcome, or, when it fails, no step at all, since it restores a
  copy of the module. A module rebuilt from a saved store is not a step.\<close>

inductive acp_reachable :: "vera_libs \<Rightarrow> acp_module \<Rightarrow> bool" for vl where
  start: "acp_reachable vl acp_new"
| create: "\<lbrakk>acp_reachable vl m; create_policy_with_metadata (acp_codecs vl) policy mt md m = (Inr rec, m')\<rbrakk> \<Longrightarrow>
    acp_reachable vl m'"
| edit: "\<lbrakk>acp_reachable vl m; edit_policy (acp_codecs vl) creator pid policy mt m = (Inr r, m')\<rbrakk> \<Longrightarrow> acp_reachable vl m'"
| direct: "\<lbrakk>acp_reachable vl m; command_dids actor cmd; direct_policy_cmd (acp_codecs vl) actor pid cmd m = (Inr result, m')\<rbrakk> \<Longrightarrow>
    acp_reachable vl m'"
| command: "\<lbrakk>acp_reachable vl m; command_dids actor cmd;
    execute_policy_cmd (acp_codecs vl) actor pid cmd block submission m = (Inr result, m')\<rbrakk> \<Longrightarrow>
    acp_reachable vl m'"
| decision: "\<lbrakk>acp_reachable vl m; check_access (acp_codecs vl) actor pid request block submission m = (Inr d, m')\<rbrakk> \<Longrightarrow>
    acp_reachable vl m'"
| outcome: "\<lbrakk>acp_reachable vl m; length (or_id record) = 32; get_operation vl m worker (or_id record) = Inr None;
    complete_operation vl worker record m = (Inr u, m')\<rbrakk> \<Longrightarrow> acp_reachable vl m'"
| budget: "\<lbrakk>acp_reachable vl m; set_operation_budget b m = (Inr u, m')\<rbrakk> \<Longrightarrow> acp_reachable vl m'"
| params: "\<lbrakk>acp_reachable vl m; set_params (acp_codecs vl) ps m = (Inr u, m')\<rbrakk> \<Longrightarrow> acp_reachable vl m'"
| end_block: "\<lbrakk>acp_reachable vl m; end_blocker (acp_codecs vl) block m = (Inr out, m')\<rbrakk> \<Longrightarrow> acp_reachable vl m'"

lemma set_decision_clean: "fails_clean (set_access_decision libs d)"
  unfolding set_access_decision_def by (intro clean_read never_fails_clean clean_rules)

lemma failed_calls_change_nothing:
  "fails_clean (create_policy_with_metadata libs policy mt md)" "fails_clean (edit_policy libs creator pid policy mt)"
  "fails_clean (direct_policy_cmd libs creator pid cmd)" "fails_clean (check_access libs creator pid request block tx)"
  "fails_clean (complete_operation vl worker out)" "fails_clean (set_operation_budget b)" "fails_clean (set_params libs ps)"
  unfolding create_policy_with_metadata_def edit_policy_def check_access_def complete_operation_def set_operation_budget_def
    set_params_def Let_def
  by (intro direct_clean set_decision_clean clean_read clean_split clean_leaf fails_clean_write never_fails_clean clean_rules)+

lemma outcome_still_absent:
  assumes "spares OPERATION_ZONE c" and "kv_wf (am_store m)" and "c m = (r, m')"
    and "\<forall>bs. length (vera_sha vl bs) = 32" and "length i = 32"
  shows "get_operation vl m' actor i = get_operation vl m actor i"
proof (cases "operation_key vl actor i")
  case (Inr key)
  then have "prefix OPERATION_PREFIX key" by (rule operation_key_shape(1) [OF _ assms(4,5)])
  then have "prefix OPERATION_ZONE key" by (auto simp: OPERATION_ZONE_def ledger_consts prefix_def)
  with sparesD [OF assms(1-3)] Inr assms(2) show ?thesis by (simp add: get_operation_def kv_read_simps)
qed (simp add: get_operation_def)

text \<open>What is asked of the libraries: hex encoding is injective and has no separator, a digest has 32 bytes,
  and the codecs of relationship records, with valid DIDs, and of commitments round-trip.\<close>

definition module_libs_ok :: "vera_libs \<Rightarrow> bool" where
  "module_libs_ok vl \<longleftrightarrow> hex_ok (acp_codecs vl) \<and> (\<forall>bs. length (vera_sha vl bs) = 32) \<and>
     relationship_codec_ok (acp_codecs vl) \<and> commitment_codec_ok (acp_codecs vl)"

lemma module_libsD:
  assumes "module_libs_ok vl"
  shows "hex_ok (acp_codecs vl)" and "\<forall>bs. length (vera_sha vl bs) = 32" and "relationship_codec_ok (acp_codecs vl)"
    and "commitment_codec_ok (acp_codecs vl)"
  using assms by (simp_all add: module_libs_ok_def)

lemma reachable_ok:
  assumes "acp_reachable vl m" and libs: "module_libs_ok vl"
  shows "module_ok (acp_codecs vl) m"
  using assms(1)
proof induction
  case start
  show ?case by (rule acp_new_ok)
next
  case (create m policy mt md rec m')
  show ?case by (rule outside_zones [OF create.IH create.hyps(2) create_policy_spares])
      (use create_policy_inv [OF module_okD(1) [OF create.IH] create.hyps(2)] in simp_all)
next
  case (edit m creator pid policy mt r m')
  show ?case by (rule outside_zones [OF edit.IH edit.hyps(2) edit_spares])
      (use edit_policy_inv [OF module_okD(1) [OF edit.IH] edit.hyps(2)] in simp_all)
next
  case (direct m actor cmd pid result m')
  then have "runs_command (acp_codecs vl) actor pid cmd m result m'" by (simp add: runs_command_def)
  then show ?case by (rule command_ok [OF direct.IH module_libsD(1,3,4) [OF libs] direct.hyps(2)])
next
  case (command m actor cmd pid block submission result m')
  then have "runs_command (acp_codecs vl) actor pid cmd m result m'" by (auto simp: runs_command_def)
  then show ?case by (rule command_ok [OF command.IH module_libsD(1,3,4) [OF libs] command.hyps(2)])
next
  case (decision m actor pid request block submission d m')
  show ?case by (rule outside_zones [OF decision.IH decision.hyps(2) decision_spares])
      (use decision_inv [OF module_okD(1) [OF decision.IH] decision.hyps(2)] in simp_all)
next
  case (outcome m rec worker u m')
  show ?case by (rule outcome_ok [OF outcome.IH module_libsD(2) [OF libs] outcome.hyps(2-4)])
next
  case (budget m b u m')
  show ?case by (rule budget_ok [OF budget.IH budget.hyps(2)])
next
  case (params m ps u m')
  show ?case by (rule outside_zones [OF params.IH params.hyps(2) params_spares])
      (use params_inv [OF module_okD(1) [OF params.IH] params.hyps(2)] in simp_all)
next
  case (end_block m block out m')
  show ?case by (rule end_block_ok [OF end_block.IH module_libsD(4) [OF libs] end_block.hyps(2)])
qed

end
