(* ===== verification/Demo_Vera.thy ===== *)
theory Demo_Vera
  imports Vera_Types Demo_Libs
begin

text \<open>
  A concrete instance of the library parameters of the Vera module, with self-delimiting encodings of its
  records. It satisfies the hypotheses of the module's theorems and carries their concrete runs.
\<close>

section \<open>Encodings\<close>

fun enc_nat :: "nat \<Rightarrow> bytes" where
  "enc_nat 0 = [CHR 0x00]"
| "enc_nat (Suc n) = CHR 0x01 # enc_nat n"

fun dec_nat :: "nat dec" where
  "dec_nat [] = None"
| "dec_nat (c # cs) = (if c = CHR 0x00 then Some (0, cs) else map_option (\<lambda>(n, r). (Suc n, r)) (dec_nat cs))"

lemma inverts_nat [simp]: "inverts dec_nat enc_nat"
  unfolding inverts_def
proof (intro allI)
  fix n rest show "dec_nat (enc_nat n @ rest) = Some (n, rest)" by (induction n) simp_all
qed

definition enc_option :: "('a \<Rightarrow> bytes) \<Rightarrow> 'a option \<Rightarrow> bytes" where
  "enc_option e = enc_list e \<circ> (\<lambda>x. case x of None \<Rightarrow> [] | Some y \<Rightarrow> [y])"

definition dec_option :: "'a dec \<Rightarrow> 'a option dec" where
  "dec_option d = dec_map (\<lambda>xs. case xs of [] \<Rightarrow> None | y # _ \<Rightarrow> Some y) (\<lambda>bs. dec_list (length bs) d bs)"

lemma inverts_option [simp]: "inverts d e \<Longrightarrow> inverts (dec_option d) (enc_option e)"
  unfolding dec_option_def enc_option_def by (rule inverts_map [OF inverts_list]) (simp_all split: option.split)

definition enc_time :: "timestamp \<Rightarrow> bytes" where
  "enc_time = enc_pair to_be_bytes to_be_bytes \<circ> (\<lambda>t. (ts_seconds t, ts_block_height t))"

definition dec_time :: "timestamp dec" where
  "dec_time = dec_map (\<lambda>(s, h). \<lparr>ts_seconds = s, ts_block_height = h\<rparr>) (dec_pair dec_u64 dec_u64)"

lemma inverts_time [simp]: "inverts dec_time enc_time"
  unfolding dec_time_def enc_time_def by (rule inverts_map) simp_all

text \<open>Enumerations by their position.\<close>

definition token_statuses :: "jws_token_status list" where
  "token_statuses = [TokenUnspecified, TokenValid, TokenInvalid]"

definition scopes :: "delegation_scope list" where
  "scopes = [PolicyCommandsScope, CreatePolicyScope, EditPolicyScope, RecordAccessDecisionScope, ManageRingsScope,
     StoreThresholdObjectScope]"

definition enc_enum :: "'a list \<Rightarrow> 'a \<Rightarrow> bytes" where
  "enc_enum xs = enc_nat \<circ> (\<lambda>x. length (takeWhile (\<lambda>y. y \<noteq> x) xs))"

definition dec_enum :: "'a list \<Rightarrow> 'a dec" where
  "dec_enum xs = dec_map (\<lambda>n. xs ! n) dec_nat"

lemma inverts_enum:
  assumes "\<And>x. x \<in> set xs"
  shows "inverts (dec_enum xs) (enc_enum xs)"
  unfolding dec_enum_def enc_enum_def
proof (rule inverts_map [OF inverts_nat])
  fix x
  have "length (takeWhile (\<lambda>y. y \<noteq> x) xs) < length xs" using assms [of x]
    by (metis (full_types) length_takeWhile_le le_neq_implies_less takeWhile_eq_all_conv takeWhile_eq_take take_all_iff)
  then show "xs ! length (takeWhile (\<lambda>y. y \<noteq> x) xs) = x" using nth_length_takeWhile by blast
qed

lemma inverts_status [simp]: "inverts (dec_enum token_statuses) (enc_enum token_statuses)"
  by (rule inverts_enum) (rule jws_token_status.exhaust, auto simp: token_statuses_def)

lemma inverts_scope [simp]: "inverts (dec_enum scopes) (enc_enum scopes)"
  by (rule inverts_enum) (rule delegation_scope.exhaust, auto simp: scopes_def)


section \<open>The records\<close>

definition enc_token :: "jws_token_record \<Rightarrow> bytes" where
  "enc_token = enc_pair enc_str4 (enc_pair (enc_pair enc_time enc_time) (enc_pair (enc_enum token_statuses)
     (enc_pair (enc_pair (enc_option enc_time) (enc_pair (enc_option enc_time) (enc_option enc_time))) enc_string)))
     \<circ> (\<lambda>r. ((jt_token_hash r, jt_bearer_token r, jt_issuer_did r, jt_authorized_account r),
       (jt_issued_at r, jt_expires_at r), jt_status r,
       (jt_first_used_at r, jt_last_used_at r, jt_invalidated_at r), jt_invalidated_by r))"

definition dec_token :: "jws_token_record dec" where
  "dec_token = dec_map (\<lambda>((h, b, i, a), (s, x), st, (f, l, v), w).
      \<lparr>jt_token_hash = h, jt_bearer_token = b, jt_issuer_did = i, jt_authorized_account = a, jt_issued_at = s,
       jt_expires_at = x, jt_status = st, jt_first_used_at = f, jt_last_used_at = l, jt_invalidated_at = v,
       jt_invalidated_by = w\<rparr>)
    (dec_pair dec_str4 (dec_pair (dec_pair dec_time dec_time) (dec_pair (dec_enum token_statuses)
      (dec_pair (dec_pair (dec_option dec_time) (dec_pair (dec_option dec_time) (dec_option dec_time))) dec_string))))"

lemma inverts_token [simp]: "inverts dec_token enc_token"
  unfolding dec_token_def enc_token_def by (rule inverts_map) simp_all

definition enc_relay :: "relay_state \<Rightarrow> bytes" where
  "enc_relay = enc_pair enc_string (enc_pair (enc_list (enc_enum scopes)) (enc_pair to_be_bytes to_be_bytes))
     \<circ> (\<lambda>s. (rg_issuer (rst_grant s), rg_scopes (rst_grant s), rg_expires_at (rst_grant s), rst_sequence s))"

definition dec_relay :: "relay_state dec" where
  "dec_relay = dec_map (\<lambda>(i, ss, x, n). \<lparr>rst_grant = \<lparr>rg_issuer = i, rg_scopes = ss, rg_expires_at = x\<rparr>, rst_sequence = n\<rparr>)
    (dec_pair dec_string (dec_pair (\<lambda>bs. dec_list (length bs) (dec_enum scopes) bs) (dec_pair dec_u64 dec_u64)))"

lemma inverts_relay [simp]: "inverts dec_relay enc_relay"
  unfolding dec_relay_def enc_relay_def by (rule inverts_map) (simp_all add: inverts_list)

definition enc_administration :: "administration_state \<Rightarrow> bytes" where
  "enc_administration = enc_pair (enc_pair enc_nat (enc_list enc_string)) (enc_pair to_be_bytes (enc_option enc_string))
     \<circ> (\<lambda>s. ((op_threshold (as_policy s), op_keys (as_policy s)), as_sequence s, as_membership_policy s))"

definition dec_administration :: "administration_state dec" where
  "dec_administration = dec_map (\<lambda>((t, ks), n, p).
      \<lparr>as_policy = \<lparr>op_threshold = t, op_keys = ks\<rparr>, as_sequence = n, as_membership_policy = p\<rparr>)
    (dec_pair (dec_pair dec_nat (\<lambda>bs. dec_list (length bs) dec_string bs)) (dec_pair dec_u64 (dec_option dec_string)))"

lemma inverts_administration [simp]: "inverts dec_administration enc_administration"
  unfolding dec_administration_def enc_administration_def by (rule inverts_map) (simp_all add: inverts_list)

definition enc_operation :: "operation_record \<Rightarrow> bytes" where
  "enc_operation = enc_pair enc_str4 (enc_pair enc_string (enc_pair enc_time enc_string))
     \<circ> (\<lambda>r. ((or_id r, or_digest r, or_actor r, or_submission r), or_worker r, or_revision r, or_result r))"

definition dec_operation :: "operation_record dec" where
  "dec_operation = dec_map (\<lambda>((i, d, a, s), w, t, r).
      \<lparr>or_id = i, or_digest = d, or_actor = a, or_submission = s, or_worker = w, or_revision = t, or_result = r\<rparr>)
    (dec_pair dec_str4 (dec_pair dec_string (dec_pair dec_time dec_string)))"

lemma inverts_operation [simp]: "inverts dec_operation enc_operation"
  unfolding dec_operation_def enc_operation_def by (rule inverts_map) simp_all

definition enc_config :: "chain_config \<Rightarrow> bytes" where
  "enc_config = enc_pair enc_bool enc_bool \<circ> (\<lambda>c. (cc_allow_zero_fee_txs c, cc_ignore_bearer_auth c))"

definition dec_config :: "chain_config dec" where
  "dec_config = dec_map (\<lambda>(a, b). \<lparr>cc_allow_zero_fee_txs = a, cc_ignore_bearer_auth = b\<rparr>) (dec_pair dec_bool dec_bool)"

lemma inverts_config [simp]: "inverts dec_config enc_config"
  unfolding dec_config_def enc_config_def by (rule inverts_map) simp_all



section \<open>The instance\<close>

text \<open>The codecs of the ACP module with a policy definition that has one resource.\<close>

definition w_libs :: acp_libs where
  "w_libs = demo_libs\<lparr>policy_codecs := (policy_codecs demo_libs)\<lparr>json_parsed_policy := \<lambda>_. Inr parsed_demo\<rparr>\<rparr>"

definition w_vl :: vera_libs where
  "w_vl = \<lparr>acp_codecs = w_libs, jwt_codecs = j_libs, hex_decode = (\<lambda>_. Inl ''odd''),
     json_operation = (\<lambda>r. Inr (enc_operation r)), unjson_operation = decode_all dec_operation,
     borsh_token = (\<lambda>r. Inr (enc_token r)), unborsh_token = decode_all dec_token,
     borsh_config = (\<lambda>c. Inr (enc_config c)), unborsh_config = decode_all dec_config,
     unborsh_vera_params = (\<lambda>_. Inr ()), borsh_vera_params = Inr [],
     borsh_relay = (\<lambda>s. Inr (enc_relay s)), unborsh_relay = decode_all dec_relay,
     borsh_administration = (\<lambda>s. Inr (enc_administration s)), unborsh_administration = decode_all dec_administration,
     borsh_admin_request = (\<lambda>q. Inr (to_be_bytes (aq_sequence q)))\<rparr>"

lemma w_hex: "hex_ok w_libs"
  using demo_hex_ok by (simp add: hex_ok_def w_libs_def)

lemma w_codecs: "relationship_codec_ok w_libs" "commitment_codec_ok w_libs" "event_codec_ok w_libs"
  using demo_codecs by (simp_all add: relationship_codec_ok_def commitment_codec_ok_def event_codec_ok_def w_libs_def)

lemma w_sha: "length (vera_sha w_vl bs) = 32"
  using demo_sha by (simp add: vera_sha_def w_vl_def w_libs_def)

end
