(* ===== verification/Demo_Run.thy ===== *)
theory Demo_Run
  imports Acp_Reachable Demo_Vera
begin

text \<open>
  Concrete histories of the ACP module on the demonstration codecs: a policy is created, then an object is
  registered by a submission or directly, a commitment is recorded, or the outcome of a delegated operation
  is kept. The theorems about reachable states are exercised on them.
\<close>

lemma w_libs_ok: "module_libs_ok w_vl"
  using w_hex w_codecs w_sha by (simp add: module_libs_ok_def w_vl_def)

lemma w_vl_codecs [simp]: "acp_codecs w_vl = w_libs"
  by (simp add: w_vl_def)


section \<open>The policy\<close>

lemma parsed_demo_builds: "is_ok (build_policy sha parsed_demo counter)"
  unfolding build_policy_def demo_schema
  by (simp add: parsed_demo_def defra_check_def pres_has_permission_def build_resource_def
      build_relation_def build_subject_restriction_def subject_restriction_of_def build_permission_def
      demo_expression policy_validate_def relation_direct_def relation_computed_def get_relation_def
      get_resource_def resource_get_relation_def actor_list_def Let_def text_simps)

definition w_policy :: policy where
  "w_policy = (case build_policy (sha256 w_libs) parsed_demo 1 of Inr p \<Rightarrow> p | Inl _ \<Rightarrow> policy_new [] [])"

definition w_pid :: string where "w_pid = pol_id w_policy"

lemma w_built: "build_policy (sha256 w_libs) parsed_demo 1 = Inr w_policy"
  using parsed_demo_builds [of "sha256 w_libs" 1] by (auto simp: w_policy_def is_ok_iff)

lemma w_compiled: "compile_policy w_libs ''x'' ShortJson 1 None = Inr w_policy"
  using w_built build_policy_parts(5) [OF w_built]
  by (simp add: compile_policy_def with_spec_def w_libs_def)

lemma built_actor: "build_policy sha parsed counter = Inr p \<Longrightarrow> \<exists>a. pol_actor p = Some a \<and> resd_name a = ''actor''"
  by (auto simp: build_policy_def Let_def)

lemma w_file: "get_resource w_policy ''file'' \<noteq> None \<and> \<not> is_actor w_policy ''file''"
proof -
  have "\<exists>r. pol_resources w_policy = [r] \<and> resd_name r = ''file''"
    using build_policy_parts(1) [OF w_built]
    by (auto simp: parsed_demo_def build_resource_def list_all2_Cons1)
  moreover have "\<exists>a. pol_actor w_policy = Some a \<and> resd_name a = ''actor''"
    by (rule built_actor [OF w_built])
  ultimately show ?thesis by (auto simp: get_resource_def is_actor_def)
qed

definition w_record :: policy_record where
  "w_record = \<lparr>pr_policy = w_policy, pr_raw_policy = ''x'', pr_marshal_type = ShortJson,
     pr_metadata = plain_metadata ''did:key:o''\<rparr>"

definition w_module :: acp_module where
  "w_module = \<lparr>am_store = kv_put (policy_key w_pid) (json_policy_record w_libs w_record)
       (kv_put POLICY_COUNTER_KEY (to_be_bytes 1) kv_default), am_policies = [(w_pid, w_policy)]\<rparr>"

lemma w_create: "create_policy_with_metadata w_libs ''x'' ShortJson (plain_metadata ''did:key:o'') acp_new = (Inr w_record, w_module)"
  using w_compiled
  by (simp add: create_policy_with_metadata_def next_policy_counter_def decode_counter_def checked_add_def acp_new_def
      st_bind_def set_policy_record_def cache_policy_def w_record_def w_module_def w_pid_def Let_def)

lemma w_reachable: "acp_reachable w_vl w_module"
  by (rule acp_reachable.create [OF acp_reachable.start, of w_vl "''x''" ShortJson "plain_metadata ''did:key:o''" w_record])
    (simp add: w_create)

lemma w_known: "has_policy_id w_module w_pid" "cached_policy w_module w_pid = Inr w_policy"
  by (simp_all add: has_policy_id_def cached_policy_def w_module_def)



section \<open>A registration\<close>

definition w_owner :: did where "w_owner = Did ''did:key:o''"
lemma w_owner_ok: "did_ok w_owner"
  by (simp add: did_ok_def is_ok_iff w_owner_def DID_KEY_PREFIX_def)

definition w_object :: object where "w_object = \<lparr>obj_resource = ''file'', obj_id = ''a''\<rparr>"

definition w_owner_record :: relationship_record where
  "w_owner_record = (owner_record w_pid w_object w_owner)\<lparr>rr_metadata := submission_metadata w_owner x_block x_tx\<rparr>"

definition w_owned :: acp_module where
  "w_owned = snd (execute_policy_cmd w_libs w_owner w_pid (RegisterObject w_object) x_block x_tx w_module)"

lemma w_no_relationships: "prefix RELATIONSHIP_PREFIX k \<Longrightarrow> kv_view (am_store w_module) k = None"
  using other_keys(1,2) by (auto simp: w_module_def)

lemma w_unregistered: "ensure_object_unregistered w_libs w_module w_pid w_object = Inr ()"
proof -
  have wf: "kv_wf (am_store w_module)" by (simp add: w_module_def)
  have "e \<notin> set (owner_entries w_libs (am_store w_module) w_pid w_object)" for e
    using w_no_relationships [of "fst e"] storage_prefix_rel
    by (cases e) (auto simp: prefix_iter_set [OF wf])
  then have "owner_entries w_libs (am_store w_module) w_pid w_object = []" by (metis list.set_intros(1) neq_Nil_conv)
  then show ?thesis by (simp add: ensure_object_unregistered_def)
qed

lemma w_register:
  "execute_policy_cmd w_libs w_owner w_pid (RegisterObject w_object) x_block x_tx w_module =
     (Inr (RegisterObjectResult w_owner_record), w_owned)"
proof -
  have "validate_registration_object w_module w_pid w_object = Inr ()"
    using w_file by (simp add: validate_registration_object_def w_known w_object_def)
  moreover have "obj_id w_object \<noteq> []" by (simp add: w_object_def)
  ultimately have "fst (execute_policy_cmd w_libs w_owner w_pid (RegisterObject w_object) x_block x_tx w_module) =
      Inr (RegisterObjectResult w_owner_record)"
    using w_unregistered
    by (simp add: execute_policy_cmd_def direct_policy_cmd_def cmd_register_object_def set_relationship_def
        stamp_relationship_def st_bind_def Let_def w_owner_record_def x_block_def x_tx_def)
  then show ?thesis unfolding w_owned_def by (metis prod.collapse)
qed

lemma w_owned_reachable: "acp_reachable w_vl w_owned"
  by (rule acp_reachable.command [OF w_reachable _ w_register [folded w_vl_codecs]]) (simp add: command_dids_def w_owner_ok)

lemma w_owned_view: "records w_libs w_owned = [own_key w_libs w_owner_record \<mapsto> w_owner_record]"
proof -
  let ?r = "owner_record w_pid w_object w_owner" and ?o = w_owner_record
  have base: "base_inv w_libs w_module"
    using module_okD(2) [OF reachable_ok [OF w_reachable w_libs_ok]] by simp
  have dids: "record_dids ?r" "record_dids ?o" using w_owner_ok by (simp_all add: w_owner_record_def)
  have key: "own_key w_libs ?o = own_key w_libs ?r" "rr_policy_id ?r = w_pid" "rr_policy_id ?o = w_pid"
    by (simp_all add: w_owner_record_def)
  have "w_owned = (let m = w_module\<lparr>am_store := kv_put (own_key w_libs ?r) (json_relationship w_libs ?r) (am_store w_module)\<rparr>
      in m\<lparr>am_store := kv_put (own_key w_libs ?o) (json_relationship w_libs ?o) (am_store m)\<rparr>)"
    using w_register set_relationship_run [OF key(2), of w_libs] set_relationship_run [OF key(3), of w_libs]
    by (auto simp: execute_policy_cmd_def direct_policy_cmd_def cmd_register_object_def stamp_relationship_def result_simps
        Let_def w_owner_record_def split: if_splits)
  moreover have "records w_libs w_module = Map.empty" using w_no_relationships by (auto simp: rel_map_def fun_eq_iff)
  ultimately show ?thesis
    using base_put_record(2) [OF base w_codecs(1), of ?r]
      base_put_record(2) [OF base_put_record(1) [OF base w_codecs(1), of ?r] w_codecs(1), of ?o] key(1) dids by (simp add: Let_def)
qed

lemma w_registered: "registered (records w_libs w_owned) (object_of w_pid w_object) w_owner_record"
  using owner_record_facts(1) [where d = w_owner and pid = w_pid and ob = w_object]
  by (auto simp: registered_def w_owned_view w_owner_record_def owned_by_def)



lemma w_owned_policies: "am_policies w_owned = [(w_pid, w_policy)]"
proof -
  have base: "acp_inv w_libs w_module" using module_okD(1) [OF reachable_ok [OF w_reachable w_libs_ok]] by simp
  from execute_step [OF base w_hex w_codecs(1) _ w_register] w_owner_ok command_dids_def show ?thesis by (simp add: plain_step_def w_module_def)
qed

lemma w_unarchive:
  "\<exists>r m'. execute_policy_cmd w_libs w_owner w_pid (UnarchiveObject w_object) x_block x_tx w_owned = (Inr r, m')"
proof -
  have inv: "acp_inv w_libs w_owned" using module_okD(1) [OF reachable_ok [OF w_owned_reachable w_libs_ok]] by simp
  have "no_slash w_pid" using compiled_id [OF w_compiled] by (simp add: w_pid_def)
  from owner_lookup [OF inv w_hex this, of w_object] have "registration_owner_record w_libs w_owned w_pid w_object = Inr (Some w_owner_record)"
    using w_registered registered_unique inv unfolding acp_inv_def by blast
  moreover have "md_owner_did (rr_metadata w_owner_record) = as_str w_owner" by (simp add: w_owner_record_def submission_metadata_def)
  moreover have "obj_id w_object \<noteq> []" by (simp add: w_object_def)
  ultimately show ?thesis
    by (simp add: execute_policy_cmd_def direct_policy_cmd_def cmd_unarchive_object_def has_policy_id_def w_owned_policies
        st_bind_def Let_def x_block_def x_tx_def)
qed


section \<open>A direct registration\<close>

text \<open>The same registration run directly, as the bulletin and the rings run it: the record carries the owner and
  no more.\<close>

definition w_direct :: acp_module where
  "w_direct = snd (direct_policy_cmd w_libs w_owner w_pid (RegisterObject w_object) w_module)"

lemma w_direct_register:
  "direct_policy_cmd w_libs w_owner w_pid (RegisterObject w_object) w_module =
     (Inr (RegisterObjectResult (owner_record w_pid w_object w_owner)), w_direct)"
proof -
  have "validate_registration_object w_module w_pid w_object = Inr ()"
    using w_file by (simp add: validate_registration_object_def w_known w_object_def)
  moreover have "obj_id w_object \<noteq> []" by (simp add: w_object_def)
  ultimately have "fst (direct_policy_cmd w_libs w_owner w_pid (RegisterObject w_object) w_module) =
      Inr (RegisterObjectResult (owner_record w_pid w_object w_owner))"
    using w_unregistered by (simp add: direct_policy_cmd_def cmd_register_object_def set_relationship_def st_bind_def Let_def)
  then show ?thesis unfolding w_direct_def by (metis prod.collapse)
qed

lemma w_register_dids: "command_dids w_owner (RegisterObject ob)" "command_dids w_owner (UnarchiveObject ob)"
  by (simp_all add: command_dids_def w_owner_ok)

lemma w_direct_reachable: "acp_reachable w_vl w_direct"
  by (rule acp_reachable.direct [OF w_reachable w_register_dids(1) w_direct_register [folded w_vl_codecs]])

lemma w_direct_store:
  "w_direct = w_module\<lparr>am_store := kv_put (own_key w_libs (owner_record w_pid w_object w_owner))
     (json_relationship w_libs (owner_record w_pid w_object w_owner)) (am_store w_module)\<rparr>"
  using w_direct_register set_relationship_run [of "owner_record w_pid w_object w_owner" w_pid w_libs]
  by (auto simp: direct_policy_cmd_def cmd_register_object_def result_simps Let_def split: if_splits)

lemma w_direct_policies: "am_policies w_direct = [(w_pid, w_policy)]"
  by (simp add: w_direct_store w_module_def)

lemma w_direct_registered: "registered (records w_libs w_direct) (object_of w_pid w_object) (owner_record w_pid w_object w_owner)"
proof -
  have base: "base_inv w_libs w_module" using module_okD(2) [OF reachable_ok [OF w_reachable w_libs_ok]] by simp
  have "records w_libs w_direct (own_key w_libs (owner_record w_pid w_object w_owner)) = Some (owner_record w_pid w_object w_owner)"
    unfolding w_direct_store using base_put_record(2) [OF base w_codecs(1)] w_owner_ok by simp
  then show ?thesis using owner_record_facts(1) [of w_owner w_pid w_object] by (auto simp: registered_def owned_by_def)
qed

lemma w_direct_unarchive:
  "\<exists>r m'. direct_policy_cmd w_libs w_owner w_pid (UnarchiveObject w_object) w_direct = (Inr r, m')"
proof -
  have inv: "acp_inv w_libs w_direct" using module_okD(1) [OF reachable_ok [OF w_direct_reachable w_libs_ok]] by simp
  have "no_slash w_pid" using compiled_id [OF w_compiled] by (simp add: w_pid_def)
  from owner_lookup [OF inv w_hex this, of w_object]
  have "registration_owner_record w_libs w_direct w_pid w_object = Inr (Some (owner_record w_pid w_object w_owner))"
    using w_direct_registered registered_unique inv unfolding acp_inv_def by blast
  moreover have "obj_id w_object \<noteq> []" by (simp add: w_object_def)
  ultimately show ?thesis
    by (simp add: direct_policy_cmd_def cmd_unarchive_object_def has_policy_id_def w_direct_policies st_bind_def Let_def)
qed


section \<open>A commitment\<close>

definition w_root :: bytes where "w_root = replicate 32 (CHR 0x09)"

definition w_commitment :: registrations_commitment where
  "w_commitment = \<lparr>rc_id = 1, rc_policy_id = w_pid, rc_commitment = w_root, rc_expired = False,
     rc_validity = Seconds 600, rc_metadata = submission_metadata w_owner x_block x_tx\<rparr>"

definition w_committed :: acp_module where
  "w_committed = snd (execute_policy_cmd w_libs w_owner w_pid (CommitRegistrations w_root) x_block x_tx w_module)"

lemma w_no_commitments:
  "prefix COMMITMENT_ZONE k \<Longrightarrow> kv_view (am_store w_module) k = None" "prefix OPERATION_ZONE k \<Longrightarrow> kv_view (am_store w_module) k = None"
  using zone_keys(2,3) [of COMMITMENT_ZONE] zone_keys(2,3) [of OPERATION_ZONE] by (auto simp: w_module_def)

lemma w_commit:
  "execute_policy_cmd w_libs w_owner w_pid (CommitRegistrations w_root) x_block x_tx w_module =
     (Inr (CommitRegistrationsResult w_commitment), w_committed) \<and>
   com_map w_libs (am_store w_committed) = [1 \<mapsto> w_commitment]"
proof -
  let ?c = "w_commitment\<lparr>rc_metadata := plain_metadata (as_str w_owner)\<rparr>"
  have ok: "com_ok w_libs (am_store w_module)" using module_okD(5) [OF reachable_ok [OF w_reachable w_libs_ok]] by simp
  have none: "com_map w_libs (am_store w_module) = Map.empty"
    by (auto simp: com_map_def fun_eq_iff w_no_commitments(1))
  obtain m1 where m1: "update_commitment w_libs ?c w_module = (Inr (), m1)" "com_ok w_libs (am_store m1)"
    "com_map w_libs (am_store m1) = (com_map w_libs (am_store w_module))(rc_id ?c \<mapsto> ?c)"
    by (rule update_commitment_ok [OF ok w_codecs(2), of ?c]) (simp_all add: w_commitment_def w_root_def)
  let ?m = "m1\<lparr>am_store := kv_put commitment_counter_key (to_be_bytes 1) (am_store m1)\<rparr>"
  have m: "com_ok w_libs (am_store ?m)" "com_map w_libs (am_store ?m) = com_map w_libs (am_store m1)"
    using com_ok_counter [OF m1(2)] m1(2) by (simp_all add: com_map_def fun_eq_iff com_ok_def)
  obtain m2 where m2: "update_commitment w_libs w_commitment ?m = (Inr (), m2)"
    "com_map w_libs (am_store m2) = (com_map w_libs (am_store ?m))(rc_id w_commitment \<mapsto> w_commitment)"
    by (rule update_commitment_ok [OF m(1) w_codecs(2), of w_commitment]) (simp_all add: w_commitment_def w_root_def)
  have "kv_view (am_store w_module) PARAMS_KEY = None"
    by (simp add: w_module_def key_simps policy_key_def)
  then have "execute_policy_cmd w_libs w_owner w_pid (CommitRegistrations w_root) x_block x_tx w_module =
      (Inr (CommitRegistrationsResult w_commitment), m2)"
    using m1(1) m2(1)
    by (simp add: execute_policy_cmd_def direct_policy_cmd_def cmd_commit_registrations_def create_commitment_def get_params_def
        acp_params_default_def decode_counter_def w_no_commitments(1) checked_add_def w_known st_bind_def Let_def w_root_def
        w_commitment_def x_block_def x_tx_def)
  then show ?thesis using m2(2) m(2) m1(3) none by (simp add: w_committed_def w_commitment_def)
qed

lemma w_committed_reachable: "acp_reachable w_vl w_committed"
  by (rule acp_reachable.command [OF w_reachable _ conjunct1 [OF w_commit, folded w_vl_codecs]])
    (simp add: command_dids_def w_owner_ok)

lemma w_pending: "pending_on SECONDS_PREFIX w_libs (am_store w_committed) = {w_commitment}"
  "pending_on HEIGHT_PREFIX w_libs (am_store w_committed) = {}"
  using w_commit prefixes_differ by (auto simp: pending_on_def w_commitment_def expiry_prefix_def)

lemma w_no_operations: "prefix OPERATION_ZONE k \<Longrightarrow> kv_view (am_store w_committed) k = None"
proof -
  have sp: "spares OPERATION_ZONE (execute_policy_cmd w_libs w_owner w_pid (CommitRegistrations w_root) x_block x_tx)"
    by (rule execute_spares) simp_all
  have "kv_wf (am_store w_module)" by (simp add: w_module_def)
  from sparesD(2) [OF sp this conjunct1 [OF w_commit]] show "prefix OPERATION_ZONE k \<Longrightarrow> ?thesis"
    using w_no_commitments(2) by simp
qed

lemma w_retained: "retained_keys (am_store w_committed) = {}"
  using w_no_operations by (auto simp: retained_keys_def OPERATION_ZONE_def ledger_consts prefix_def)


section \<open>An outcome\<close>

text \<open>The outcome of an operation delegated by a provider account, to be kept until time 1500, is recorded after
  the commitment.\<close>

definition w_delegator :: string where "w_delegator = ''did:opk:'' @ replicate 64 (CHR ''a'')"

definition w_outcome :: operation_record where
  "w_outcome = \<lparr>or_id = to_be_bytes 1500 @ replicate 24 (CHR 0x07), or_digest = replicate 32 (CHR 0x01), or_actor = w_delegator,
     or_submission = replicate 32 (CHR 0x07), or_worker = ''did:key:w'', or_revision = \<lparr>ts_seconds = 1000, ts_block_height = 5\<rparr>,
     or_result = ''null''\<rparr>"

definition w_key :: bytes where
  "w_key = OPERATION_PREFIX @ vera_sha w_vl (''vera/operation-actor/v1'' @ [CHR 0x00] @ w_delegator) @ or_id w_outcome"

definition w_finished :: acp_module where
  "w_finished = snd (complete_operation w_vl w_delegator w_outcome w_committed)"

lemma w_operation_key: "operation_key w_vl w_delegator (or_id w_outcome) = Inr w_key"
proof -
  have "did_new w_delegator = Inr (Did w_delegator)"
    by (simp add: w_delegator_def DID_OPK_PREFIX_def is_lower_hex_def byte_between_def list_all_iff)
  moreover have "\<not> starts_with w_delegator ''did:key:''" by (simp add: w_delegator_def starts_with_def)
  ultimately show ?thesis by (simp add: operation_key_def w_key_def)
qed

lemma w_outcome_id: "length (or_id w_outcome) = 32" "op_dead w_key = 1500"
  using w_sha by (simp_all add: w_outcome_def w_key_def op_dead_def op_ident_def operation_expires_at_def to_be_bytes_def)

lemma w_key_zone: "prefix OPERATION_ZONE w_key" "prefix OPERATION_ZONE BYTES_KEY" "prefix OPERATION_ZONE BUDGET_KEY"
  by (simp_all add: w_key_def OPERATION_ZONE_def ledger_consts)

lemma enc_string_length: "length (enc_string s) = Suc (2 * length s)"
  by (induction s) simp_all

lemma w_outcome_size: "length (enc_operation w_outcome) = 384"
  by (simp add: enc_operation_def enc_str4_def enc_pair_def enc_time_def enc_string_length w_outcome_def w_delegator_def)

lemma w_wf: "kv_wf (am_store w_committed)"
  using module_okD(3) [OF reachable_ok [OF w_committed_reachable w_libs_ok]] .

lemma w_complete: "complete_operation w_vl w_delegator w_outcome w_committed = (Inr (), w_finished)"
proof -
  have "json_operation w_vl w_outcome = Inr (enc_operation w_outcome)" by (simp add: w_vl_def)
  moreover have "operation_bytes w_committed = Inr 0" "operation_budget w_committed = Inr DEFAULT_OPERATION_BYTES"
    using w_wf w_no_operations w_key_zone by (simp_all add: operation_bytes_def operation_budget_def kv_read_simps)
  ultimately have "fst (complete_operation w_vl w_delegator w_outcome w_committed) = Inr ()"
    using w_operation_key w_outcome_size
    by (simp add: complete_operation_def st_bind_def checked_add_def MAX_OPERATION_RECORD_BYTES_def DEFAULT_OPERATION_BYTES_def)
  then show ?thesis unfolding w_finished_def by (metis prod.collapse)
qed

lemma w_fresh: "get_operation w_vl w_committed w_delegator (or_id w_outcome) = Inr None"
  using w_wf w_operation_key w_no_operations w_key_zone(1) by (simp add: get_operation_def kv_read_simps)

lemma w_finished_reachable: "acp_reachable w_vl w_finished"
  by (rule acp_reachable.outcome [OF w_committed_reachable w_outcome_id(1) w_fresh w_complete])

lemma w_finished_view:
  "kv_view (am_store w_finished) w_key = Some (enc_operation w_outcome)" "retained_keys (am_store w_finished) = {w_key}"
  "com_map w_libs (am_store w_finished) = com_map w_libs (am_store w_committed)"
proof -
  have led: "ledger_ok w_committed" using module_okD(4) [OF reachable_ok [OF w_committed_reachable w_libs_ok]] .
  have "\<forall>bs. length (vera_sha w_vl bs) = 32" using w_sha by blast
  from complete_run(3) [OF led this w_outcome_id(1) w_fresh w_complete] w_operation_key
  have view: "kv_view (am_store w_finished) = (kv_view (am_store w_committed))(w_key \<mapsto> enc_operation w_outcome,
      op_index w_key \<mapsto> w_key, BYTES_KEY \<mapsto> the (kv_view (am_store w_finished) BYTES_KEY))"
    and ret: "retained_keys (am_store w_finished) = insert w_key (retained_keys (am_store w_committed))"
    by (auto simp: w_vl_def)
  have apart: "op_index w_key \<noteq> w_key" "BYTES_KEY \<noteq> w_key" and zone: "prefix OPERATION_ZONE (op_index w_key)"
    by (simp_all add: w_key_def op_index_def ledger_consts OPERATION_ZONE_def)
  show "kv_view (am_store w_finished) w_key = Some (enc_operation w_outcome)" by (subst view) (simp add: apart [symmetric])
  show "retained_keys (am_store w_finished) = {w_key}" using ret w_retained by simp
  have "commitment_key i \<notin> {w_key, op_index w_key, BYTES_KEY}" for i
    using commitment_keys_zone(1) [of i] w_key_zone(1,2) zone by (metis empty_iff insert_iff)
  then have "kv_view (am_store w_finished) (commitment_key i) = kv_view (am_store w_committed) (commitment_key i)" for i
    by (subst view) simp
  then show "com_map w_libs (am_store w_finished) = com_map w_libs (am_store w_committed)" by (simp add: com_map_def fun_eq_iff)
qed

lemma w_finished_pending: "pending_on SECONDS_PREFIX w_libs (am_store w_finished) = {w_commitment}"
  "pending_on HEIGHT_PREFIX w_libs (am_store w_finished) = {}"
  using w_pending w_finished_view(3) by (simp_all add: pending_on_def)

end
