(* ===== verification/Acp_Guarantees.thy ===== *)
theory Acp_Guarantees
  imports Demo_Run
begin

text \<open>
  What the ACP module guarantees in every reachable state: the owner of an object is unique and its lookup
  cannot fail, ownership moves only to the holder of an earlier commitment, retained outcomes stay within
  the budget, and the end of a block cannot fail and in time serves every deadline.
\<close>

section \<open>Ownership\<close>

lemma key_object:
  assumes hex: "hex_ok libs" and r: "record_ok libs k r" and r': "record_ok libs k r'"
  shows "record_object r = record_object r'"
proof -
  let ?pid = "rr_policy_id r" and ?ob = "\<lparr>obj_resource = rel_resource (rr_relationship r), obj_id = rel_object_id (rr_relationship r)\<rparr>"
  have obj: "record_object r = object_of ?pid ?ob" by (simp add: record_object_def object_of_def)
  have pid: "no_slash ?pid" using r by (simp add: record_ok_def)
  from record_prefix_exact [OF hex pid r, of ?ob] record_prefix_exact [OF hex pid r', of ?ob] obj show ?thesis by simp
qed

definition still_owned :: "did \<Rightarrow> (bytes \<rightharpoonup> relationship_record) \<Rightarrow> string \<times> string \<times> string \<Rightarrow> relationship_record \<Rightarrow> bool" where
  "still_owned actor M x rec \<longleftrightarrow> (\<exists>rec'. registered M x rec' \<and>
     rel_subject (rr_relationship rec') = rel_subject (rr_relationship rec) \<and>
     (rr_archived rec' = rr_archived rec \<or> md_owner_did (rr_metadata rec) = as_str actor))"

lemma still_owned_same: "M k = Some rec \<Longrightarrow> is_owner_record rec \<Longrightarrow> record_object rec = x \<Longrightarrow> still_owned actor M x rec"
  unfolding still_owned_def registered_def by blast

lemma reg_step_owner:
  assumes step: "reg_step libs actor pid prior M M'" and ok: "reg_ok libs M" and hex: "hex_ok libs" and pid: "no_slash pid"
    and reg: "registered M x rec"
  shows "still_owned actor M' x rec \<or> (\<exists>ob rec'. x = object_of pid ob \<and> \<not> rr_archived rec \<and> prior ob rec \<and>
    registered M' x rec' \<and> owned_by actor rec')"
proof -
  note x = registered_key [OF ok reg] registered_ok [OF ok reg]
  have o: "is_owner_record rec" "record_object rec = x" using reg by (simp_all add: registered_def)
  note same = still_owned_same [OF _ o]
  have apart: "own_key libs rec \<noteq> own_key libs r" if "owned_by actor r" "record_object r = object_of pid ob" "x \<noteq> object_of pid ob" for r ob
  proof
    assume eq: "own_key libs rec = own_key libs r"
    have "record_ok libs (own_key libs r) r"
      using that pid by (intro owned_record_ok) (auto simp: record_object_def object_of_def)
    with key_object [OF hex x(2)] eq that o(2) show False by simp
  qed
  show ?thesis using step
  proof cases
    case idle
    then show ?thesis using same x(1) by blast
  next
    case (grant r)
    then show ?thesis using same x(1) by (metis fun_upd_apply option.distinct(1))
  next
    case (revoke k)
    then show ?thesis using same x(1) o(1) by (metis fun_upd_apply)
  next
    case (register ob r)
    then have "x \<noteq> object_of pid ob" using reg by blast
    from apart [OF register(3,4) this] show ?thesis using same x(1) register(1) by (metis fun_upd_apply)
  next
    case (archive ob r)
    show ?thesis
    proof (cases "x = object_of pid ob")
      case True
      then have "r = rec" using archive(2) registered_unique [OF ok reg] by blast
      then have "still_owned actor M' x rec" using archive(1,4) o
        by (auto simp: still_owned_def registered_def intro!: exI [of _ "rec\<lparr>rr_archived := True\<rparr>"])
      then show ?thesis by blast
    next
      case False
      have "own_key libs rec \<noteq> own_key libs r"
        using registered_key [OF ok archive(2)] x(1) archive(2) False o(2) by (auto simp: registered_def)
      then show ?thesis using same [of M' "own_key libs rec"] x(1) o(2) False archive(1) by (simp add: drop_object_def)
    qed
  next
    case (unarchive ob r)
    show ?thesis
    proof (cases "x = object_of pid ob")
      case True
      then have "r = rec" using unarchive(2) registered_unique [OF ok reg] by blast
      then have "still_owned actor M' x rec" using unarchive(1,3) o
        by (auto simp: still_owned_def registered_def intro!: exI [of _ "rec\<lparr>rr_archived := False\<rparr>"])
      then show ?thesis by blast
    next
      case False
      have "own_key libs rec \<noteq> own_key libs r"
        using registered_key [OF ok unarchive(2)] x(1) unarchive(2) False o(2) by (auto simp: registered_def)
      then show ?thesis using same [of M' "own_key libs rec"] x(1) unarchive(1) by simp
    qed
  next
    case (amend ob r r')
    show ?thesis
    proof (cases "x = object_of pid ob")
      case True
      then have "r = rec" using amend(2) registered_unique [OF ok reg] by blast
      moreover have "M' (own_key libs r') = Some r'" using amend(1) by simp
      then have "registered M' x r'" using amend(5,6) True unfolding registered_def owned_by_def by blast
      ultimately show ?thesis using True amend by blast
    next
      case False
      have "own_key libs rec \<noteq> own_key libs r"
        using registered_key [OF ok amend(2)] x(1) amend(2) False o(2) by (auto simp: registered_def)
      then show ?thesis using same [of M' "own_key libs rec"] apart [OF amend(5,6) False] x(1) amend(1) by simp
    qed
  qed
qed

text \<open>C10. The owner of an object is well defined: in every reachable state, for a policy the module knows, the
  owner lookup succeeds and returns exactly the owner record of the object, which is unique; it returns
  nothing only when the object has none. The lookup's error branches (several owner records, an
  undecodable or misplaced record, an owner who is not an actor) are never taken.\<close>

theorem owner_lookup_is_exact:
  assumes "module_libs_ok vl" and "acp_reachable vl m" and "has_policy_id m pid"
  shows "\<exists>r. registration_owner_record (acp_codecs vl) m pid ob = Inr r \<and>
    (\<forall>rec. r = Some rec \<longleftrightarrow> registered (records (acp_codecs vl) m) (object_of pid ob) rec)"
proof -
  let ?libs = "acp_codecs vl"
  have ok: "acp_inv ?libs m" "base_inv ?libs m" using module_okD(1,2) [OF reachable_ok [OF assms(2,1)]] .
  have pid: "no_slash pid" by (rule known_policy(2) [OF ok(2) assms(3)])
  have reg: "reg_ok ?libs (records ?libs m)" using ok(1) by (simp add: acp_inv_def)
  from owner_lookup [OF ok(1) module_libsD(1) [OF assms(1)] pid, of ob] show ?thesis
    using registered_unique [OF reg, of "object_of pid ob"] by auto
qed

theorem owner_lookup_is_exact_witness:
  "acp_reachable w_vl w_owned \<and> registration_owner_record w_libs w_owned w_pid w_object = Inr (Some w_owner_record) \<and>
   acp_reachable w_vl w_direct \<and>
   registration_owner_record w_libs w_direct w_pid w_object = Inr (Some (owner_record w_pid w_object w_owner))"
proof -
  have "has_policy_id w_owned w_pid" "has_policy_id w_direct w_pid"
    using w_owned_policies w_direct_policies by (simp_all add: has_policy_id_def)
  from owner_lookup_is_exact [OF w_libs_ok w_owned_reachable this(1), of w_object] w_registered
    owner_lookup_is_exact [OF w_libs_ok w_direct_reachable this(2), of w_object] w_direct_registered
  show ?thesis using w_owned_reachable w_direct_reachable by auto
qed


text \<open>C5. Ownership is stable. A policy command that succeeds in a reachable state, run directly or as a submission,
  leaves every registered object registered to the same actor, and archives or restores it only when that
  owner runs the command; the only exception is a reveal, by which the acting account becomes the owner of
  an object of the command's policy. For that it must open, with a valid Merkle proof, an unexpired
  commitment of that policy to this object and this account, recorded at a height not above the one of the
  registration it replaces. The identities in the command are valid DIDs, as \<open>Did::new\<close> ensures.\<close>

theorem ownership_moves_only_by_earlier_commitment:
  assumes "module_libs_ok vl" and "acp_reachable vl m" and "command_dids actor cmd"
    and "direct_policy_cmd (acp_codecs vl) actor pid cmd m = (Inr r, m') \<or>
      (\<exists>block submission. execute_policy_cmd (acp_codecs vl) actor pid cmd block submission m = (Inr r, m'))"
    and "registered (records (acp_codecs vl) m) x rec"
  shows "still_owned actor (records (acp_codecs vl) m') x rec \<or>
    (\<exists>ob rec'. x = object_of pid ob \<and> \<not> rr_archived rec \<and> amend_evidence (acp_codecs vl) actor pid cmd m ob rec \<and>
       registered (records (acp_codecs vl) m') x rec' \<and> owned_by actor rec')"
proof -
  let ?libs = "acp_codecs vl"
  note libs = module_libsD [OF assms(1)] and run = assms(4) [folded runs_command_def]
  have ok: "acp_inv ?libs m" "base_inv ?libs m" using module_okD(1,2) [OF reachable_ok [OF assms(2,1)]] .
  have reg: "reg_ok ?libs (records ?libs m)" using ok(1) by (simp add: acp_inv_def)
  have step: "reg_step ?libs actor pid (amend_evidence ?libs actor pid cmd m) (records ?libs m) (records ?libs m')"
    using command_step [OF ok(1) libs(1,3) assms(3) run] by (simp add: plain_step_def)
  show ?thesis
  proof (cases "\<exists>i. cmd = FlagHijackAttempt i")
    case True
    then have "records ?libs m' = records ?libs m" using flag_command_records [OF ok(2)] run by blast
    then show ?thesis using assms(5) by (auto simp: still_owned_def)
  next
    case False
    then have "no_slash pid" by (rule command_known_policy [OF ok(2) run])
    from reg_step_owner [OF step reg libs(1) this assms(5)] show ?thesis .
  qed
qed

theorem ownership_moves_only_by_earlier_commitment_witness:
  "(\<exists>r m'. execute_policy_cmd w_libs w_owner w_pid (UnarchiveObject w_object) x_block x_tx w_owned = (Inr r, m') \<and>
     still_owned w_owner (records w_libs m') (object_of w_pid w_object) w_owner_record) \<and>
   (\<exists>r m'. direct_policy_cmd w_libs w_owner w_pid (UnarchiveObject w_object) w_direct = (Inr r, m') \<and>
     still_owned w_owner (records w_libs m') (object_of w_pid w_object) (owner_record w_pid w_object w_owner))"
proof
  have none: "amend_evidence w_libs w_owner w_pid (UnarchiveObject w_object) m ob rec = False" for m ob rec
    by (simp add: amend_evidence_def)
  obtain r m' where run: "execute_policy_cmd w_libs w_owner w_pid (UnarchiveObject w_object) x_block x_tx w_owned = (Inr r, m')"
    using w_unarchive by blast
  then have "direct_policy_cmd w_libs w_owner w_pid (UnarchiveObject w_object) w_owned = (Inr r, m') \<or>
      (\<exists>block submission. execute_policy_cmd w_libs w_owner w_pid (UnarchiveObject w_object) block submission w_owned = (Inr r, m'))"
    by blast
  from ownership_moves_only_by_earlier_commitment [OF w_libs_ok w_owned_reachable w_register_dids(2),
      unfolded w_vl_codecs, OF this w_registered]
  have "still_owned w_owner (records w_libs m') (object_of w_pid w_object) w_owner_record" unfolding none by simp
  with run show "\<exists>r m'. execute_policy_cmd w_libs w_owner w_pid (UnarchiveObject w_object) x_block x_tx w_owned = (Inr r, m') \<and>
     still_owned w_owner (records w_libs m') (object_of w_pid w_object) w_owner_record" by blast
  obtain r m' where run: "direct_policy_cmd w_libs w_owner w_pid (UnarchiveObject w_object) w_direct = (Inr r, m')"
    using w_direct_unarchive by blast
  from ownership_moves_only_by_earlier_commitment [OF w_libs_ok w_direct_reachable w_register_dids(2),
      unfolded w_vl_codecs, OF disjI1 [OF run] w_direct_registered]
  have "still_owned w_owner (records w_libs m') (object_of w_pid w_object) (owner_record w_pid w_object w_owner)"
    unfolding none by simp
  with run show "\<exists>r m'. direct_policy_cmd w_libs w_owner w_pid (UnarchiveObject w_object) w_direct = (Inr r, m') \<and>
     still_owned w_owner (records w_libs m') (object_of w_pid w_object) (owner_record w_pid w_object w_owner)" by blast
qed


section \<open>The ledger and the end of a block\<close>

lemma pending_apart: "pending_on SECONDS_PREFIX libs s \<inter> pending_on HEIGHT_PREFIX libs s = {}"
  using prefixes_differ by (auto dest!: pendingD(3))

text \<open>C12. The byte budget of retained outcomes is respected: in every reachable state the stored counter is the
  total size of the retained outcomes and does not exceed the budget in force, whichever outcomes were
  recorded and pruned and however the budget was changed.\<close>

theorem retained_outcomes_within_budget:
  assumes "module_libs_ok vl" and "acp_reachable vl m"
  shows "\<exists>used budget. operation_bytes m = Inr used \<and> operation_budget m = Inr budget \<and> used \<le> budget \<and>
    unat used = (\<Sum>k \<in> retained_keys (am_store m). length (the (kv_view (am_store m) k)))"
  using module_okD(4) [OF reachable_ok [OF assms(2,1)]] by (auto simp: ledger_ok_def record_size_def)

theorem retained_outcomes_within_budget_witness:
  "acp_reachable w_vl w_finished \<and> retained_keys (am_store w_finished) = {w_key} \<and>
   (\<exists>used budget. operation_bytes w_finished = Inr used \<and> operation_budget w_finished = Inr budget \<and>
      used \<le> budget \<and> unat used = 384)"
  using retained_outcomes_within_budget [OF w_libs_ok w_finished_reachable] w_finished_reachable w_finished_view(1,2) w_outcome_size
  by simp


text \<open>C11. The end of a block cannot fail in a reachable state, and does only what is due: the outcomes it
  removes have a deadline at or before the block's time, the commitments it reports were pending with a
  deadline in time or height before the block, these and no others are no longer pending afterwards,
  and every key outside the ledger and the commitments is unchanged.\<close>

theorem end_of_block_cannot_fail:
  assumes "module_libs_ok vl" and "acp_reachable vl m"
  shows "\<exists>out m'. end_blocker (acp_codecs vl) block m = (Inr (map (\<lambda>c. c\<lparr>rc_expired := True\<rparr>) out), m') \<and>
    retained_keys (am_store m') \<subseteq> retained_keys (am_store m) \<and>
    {k \<in> retained_keys (am_store m). ts_seconds (bx_timestamp block) < op_dead k} \<subseteq> retained_keys (am_store m') \<and>
    set out \<subseteq> {c \<in> pending_on SECONDS_PREFIX (acp_codecs vl) (am_store m). expiry_deadline c < ts_seconds (bx_timestamp block)} \<union>
      {c \<in> pending_on HEIGHT_PREFIX (acp_codecs vl) (am_store m). expiry_deadline c < ts_block_height (bx_timestamp block)} \<and>
    pending_on SECONDS_PREFIX (acp_codecs vl) (am_store m') = pending_on SECONDS_PREFIX (acp_codecs vl) (am_store m) - set out \<and>
    pending_on HEIGHT_PREFIX (acp_codecs vl) (am_store m') = pending_on HEIGHT_PREFIX (acp_codecs vl) (am_store m) - set out \<and>
    {k. kv_view (am_store m') k \<noteq> kv_view (am_store m) k} \<subseteq> {k. prefix ''operation'' k \<or> prefix ''commitment'' k}"
proof -
  let ?libs = "acp_codecs vl" and ?now = "bx_timestamp block"
  note ok = module_okD [OF reachable_ok [OF assms(2,1)]]
  obtain m' B Bs Bh where m': "end_blocker ?libs block m = (Inr (map expired (Bs @ Bh)), m')"
    "ledger_ok m'" "com_ok ?libs (am_store m')" "am_policies m' = am_policies m"
    "\<forall>k. \<not> prefix OPERATION_ZONE k \<and> \<not> prefix COMMITMENT_ZONE k \<longrightarrow> kv_view (am_store m') k = kv_view (am_store m) k"
    "retained_keys (am_store m') = retained_keys (am_store m) - B"
    "B \<subseteq> {k \<in> retained_keys (am_store m). op_due (ts_seconds ?now) k}"
    "\<forall>b \<le> Suc (unat (ts_seconds ?now)). card {k \<in> retained_keys (am_store m) - B. due op_dead b k} =
      card {k \<in> retained_keys (am_store m). due op_dead b k} - OPERATION_PRUNE_LIMIT"
    "first_due SECONDS_PREFIX ?libs (am_store m) (ts_seconds ?now) Bs"
    "first_due HEIGHT_PREFIX ?libs (am_store m) (ts_block_height ?now) Bh"
    "pending_on SECONDS_PREFIX ?libs (am_store m') = pending_on SECONDS_PREFIX ?libs (am_store m) - set Bs"
    "pending_on HEIGHT_PREFIX ?libs (am_store m') = pending_on HEIGHT_PREFIX ?libs (am_store m) - set Bh"
    by (rule end_blocker_run [OF ok(4,5) module_libsD(4) [OF assms(1)], of block]) (rule that)
  have s: "set Bs \<subseteq> {c \<in> pending_on SECONDS_PREFIX ?libs (am_store m). expiry_deadline c < ts_seconds ?now}"
    and h: "set Bh \<subseteq> {c \<in> pending_on HEIGHT_PREFIX ?libs (am_store m). expiry_deadline c < ts_block_height ?now}"
    using m'(9,10) unfolding first_due_def due_def word_less_nat_alt by blast+
  have apart: "pending_on SECONDS_PREFIX ?libs (am_store m) \<inter> pending_on HEIGHT_PREFIX ?libs (am_store m) = {}"
    by (rule pending_apart)
  have "pending_on SECONDS_PREFIX ?libs (am_store m') = pending_on SECONDS_PREFIX ?libs (am_store m) - set (Bs @ Bh)"
    "pending_on HEIGHT_PREFIX ?libs (am_store m') = pending_on HEIGHT_PREFIX ?libs (am_store m) - set (Bs @ Bh)"
    unfolding m'(11,12) set_append using s h apart by blast+
  moreover have "{k \<in> retained_keys (am_store m). ts_seconds ?now < op_dead k} \<subseteq> retained_keys (am_store m')"
    using m'(6,7) by (auto simp: due_def word_less_nat_alt)
  ultimately show ?thesis using m'(1,5,6) s h
    by (intro exI [of _ "Bs @ Bh"] exI [of _ m']) (auto simp: OPERATION_ZONE_def COMMITMENT_ZONE_def)
qed

theorem end_of_block_cannot_fail_witness:
  "acp_reachable w_vl w_finished \<and> (\<exists>out m'. end_blocker w_libs x_block w_finished = (Inr out, m') \<and>
     retained_keys (am_store m') = {w_key})"
proof -
  have "ts_seconds (bx_timestamp x_block) < op_dead w_key" using w_outcome_id(2) by (simp add: x_block_def)
  then have kept: "{k \<in> {w_key}. ts_seconds (bx_timestamp x_block) < op_dead k} = {w_key}" by auto
  obtain out m' where "end_blocker w_libs x_block w_finished = (Inr out, m')" "retained_keys (am_store m') \<subseteq> {w_key}"
    "{w_key} \<subseteq> retained_keys (am_store m')"
    using end_of_block_cannot_fail [OF w_libs_ok w_finished_reachable, of x_block]
    unfolding w_finished_view(2) kept w_vl_codecs by (elim exE conjE)
  with w_finished_reachable show ?thesis by (meson subset_antisym)
qed


text \<open>C6. Every deadline is served. Take any reachable state and any sequence of blocks at or after time \<open>t\<close> and
  height \<open>h\<close> that is long enough for the batches of 128 entries per block: then all these ends of blocks
  succeed, and afterwards no outcome with a deadline up to \<open>t\<close> is retained and no commitment with a
  deadline before \<open>t\<close> (in time) or before \<open>h\<close> (in height) is pending.\<close>

theorem every_deadline_is_served:
  assumes "module_libs_ok vl" and "acp_reachable vl m"
    and "\<forall>b \<in> set blocks. t \<le> ts_seconds (bx_timestamp b) \<and> h \<le> ts_block_height (bx_timestamp b)"
    and "card {k \<in> retained_keys (am_store m). op_dead k \<le> t} \<le> 128 * length blocks"
    and "card {c \<in> pending_on SECONDS_PREFIX (acp_codecs vl) (am_store m). expiry_deadline c < t} \<le> 128 * length blocks"
    and "card {c \<in> pending_on HEIGHT_PREFIX (acp_codecs vl) (am_store m). expiry_deadline c < h} \<le> 128 * length blocks"
  shows "\<exists>m'. end_blocks (acp_codecs vl) blocks m = (Inr (), m') \<and>
    (\<forall>k \<in> retained_keys (am_store m'). t < op_dead k) \<and>
    (\<forall>c \<in> pending_on SECONDS_PREFIX (acp_codecs vl) (am_store m'). t \<le> expiry_deadline c) \<and>
    (\<forall>c \<in> pending_on HEIGHT_PREFIX (acp_codecs vl) (am_store m'). h \<le> expiry_deadline c)"
proof -
  let ?libs = "acp_codecs vl"
  have d: "due op_dead (Suc (unat t)) = (\<lambda>k. op_dead k \<le> t)" "com_due t = (\<lambda>c. expiry_deadline c < t)"
    "com_due h = (\<lambda>c. expiry_deadline c < h)"
    by (simp_all add: due_def fun_eq_iff word_less_nat_alt word_le_nat_alt less_Suc_eq_le)
  note ok = module_okD [OF reachable_ok [OF assms(2,1)]]
  from end_blocks_drain [OF ok(4,5) module_libsD(4) [OF assms(1)] assms(3)] obtain m' where
    m': "end_blocks ?libs blocks m = (Inr (), m')" "com_ok ?libs (am_store m')"
    and none: "card {k \<in> retained_keys (am_store m'). op_dead k \<le> t} = 0"
      "card {c \<in> pending_on SECONDS_PREFIX ?libs (am_store m'). expiry_deadline c < t} = 0"
      "card {c \<in> pending_on HEIGHT_PREFIX ?libs (am_store m'). expiry_deadline c < h} = 0"
    using assms(4-6) unfolding d OPERATION_PRUNE_LIMIT_def EXPIRY_BATCH_SIZE_def by fastforce
  have fin: "finite (pending_on SECONDS_PREFIX ?libs (am_store m'))" "finite (pending_on HEIGHT_PREFIX ?libs (am_store m'))"
    by (rule finite_pending [OF m'(2)], simp)+
  show ?thesis
    using m'(1) drained [OF none(1) finite_retained] drained [OF none(2) fin(1)] drained [OF none(3) fin(2)]
    unfolding not_le not_less by blast
qed

definition w_late :: block_exec_ctx where
  "w_late = x_block\<lparr>bx_timestamp := \<lparr>ts_seconds = 2000, ts_block_height = 9\<rparr>\<rparr>"

theorem every_deadline_is_served_witness:
  "retained_keys (am_store w_finished) = {w_key} \<and> op_dead w_key \<le> 2000 \<and>
   pending_on SECONDS_PREFIX w_libs (am_store w_finished) = {w_commitment} \<and> expiry_deadline w_commitment < 2000 \<and>
   (\<exists>m'. end_blocks w_libs [w_late] w_finished = (Inr (), m') \<and> w_key \<notin> retained_keys (am_store m') \<and>
     w_commitment \<notin> pending_on SECONDS_PREFIX w_libs (am_store m'))"
proof -
  have d: "expiry_deadline w_commitment < 2000"
    by (simp add: expiry_deadline_def w_commitment_def submission_metadata_def x_block_def saturating_add_def)
  have o: "op_dead w_key \<le> 2000" using w_outcome_id(2) by simp
  have late: "\<forall>b \<in> set [w_late]. 2000 \<le> ts_seconds (bx_timestamp b) \<and> 9 \<le> ts_block_height (bx_timestamp b)"
    by (simp add: w_late_def)
  have "card {c \<in> {w_commitment}. expiry_deadline c < 2000} \<le> 128" "card {k \<in> {w_key}. op_dead k \<le> 2000} \<le> 128"
    using d o by (simp_all add: Collect_conv_if conj_commute)
  then have "\<exists>m'. end_blocks w_libs [w_late] w_finished = (Inr (), m') \<and> (\<forall>k \<in> retained_keys (am_store m'). 2000 < op_dead k) \<and>
      (\<forall>c \<in> pending_on SECONDS_PREFIX w_libs (am_store m'). 2000 \<le> expiry_deadline c)"
    using every_deadline_is_served [OF w_libs_ok w_finished_reachable late] w_finished_pending w_finished_view(2) by auto
  then show ?thesis using d o w_finished_pending(1) w_finished_view(2) by (metis leD)
qed

end
