(* ===== verification/Native_Account.thy ===== *)
theory Native_Account
  imports Module_Kv Machine_Int
begin

text \<open>
  The nonces of native accounts (\<open>vera-modules/src/native_account\<close>): one counter per DID, checked and
  advanced by each transaction, so that a nonce is accepted in order and once.
\<close>

section \<open>The nonce store\<close>

record native_nonce_store =
  nn_store :: kv_store

datatype nonce_error =
    NonceMismatch string u64 u64
  | NonceOverflow string
  | NonceMalformed string

type_synonym 'a nonces = "(native_nonce_store, nonce_error, 'a) stm"

definition NATIVE_NONCE_PREFIX :: bytes where "NATIVE_NONCE_PREFIX = ''native_nonce/''"

definition native_nonce_key :: "string \<Rightarrow> bytes" where
  "native_nonce_key did = NATIVE_NONCE_PREFIX @ did"

text \<open>The eight bytes of a nonce are stored in little-endian order.\<close>

definition get_nonce :: "native_nonce_store \<Rightarrow> string \<Rightarrow> nonce_error + u64" where
  "get_nonce n did =
     (case kv_get (nn_store n) (native_nonce_key did) of
        None \<Rightarrow> Inr 0
      | Some bs \<Rightarrow> ok_or (NonceMalformed did) (from_be_bytes (rev bs)))"

definition check_and_increment :: "string \<Rightarrow> u64 \<Rightarrow> unit nonces" where
  "check_and_increment did tx_nonce =
     st_bind (st_read (\<lambda>n. get_nonce n did)) (\<lambda>expected.
     if tx_nonce \<noteq> expected then st_fail (NonceMismatch did expected tx_nonce)
     else
       st_bind (st_lift (ok_or (NonceOverflow did) (checked_add expected 1))) (\<lambda>next_nonce.
       st_modify (\<lambda>n. n\<lparr>nn_store := kv_put (native_nonce_key did) (rev (to_be_bytes next_nonce)) (nn_store n)\<rparr>)))"


section \<open>Nonces are spent in order and once\<close>

lemma native_nonce_key_inj [simp]: "native_nonce_key d = native_nonce_key d' \<longleftrightarrow> d = d'"
  by (simp add: native_nonce_key_def)

lemma check_and_increment_run:
  assumes wf: "kv_wf (nn_store s)" and run: "check_and_increment did n s = (r, s')"
  shows "kv_wf (nn_store s')" and "\<not> is_ok r \<Longrightarrow> s' = s"
    and "is_ok r \<longleftrightarrow> get_nonce s did = Inr n \<and> checked_add n 1 \<noteq> None"
    and "is_ok r \<Longrightarrow> get_nonce s' d = (if d = did then Inr (n + 1) else get_nonce s d)"
  using wf run
  by (auto simp: check_and_increment_def st_bind_def st_read_def st_lift_def st_fail_def st_modify_def is_ok_def
      get_nonce_def ok_or_def checked_add_def split: sum.splits option.splits if_splits)

text \<open>Attempts to spend nonces, accepted or not.\<close>

fun attempts :: "(string \<times> u64) list \<Rightarrow> native_nonce_store \<Rightarrow> native_nonce_store" where
  "attempts [] s = s"
| "attempts ((did, n) # xs) s = attempts xs (snd (check_and_increment did n s))"

lemma attempts_mono:
  assumes "kv_wf (nn_store s)" and "get_nonce s did = Inr x"
  shows "\<exists>y. get_nonce (attempts xs s) did = Inr y \<and> x \<le> y"
  using assms
proof (induction xs arbitrary: s x)
  case (Cons a xs)
  obtain d n where a: "a = (d, n)" by fastforce
  obtain r s' where run: "check_and_increment d n s = (r, s')" by fastforce
  note step = check_and_increment_run [OF Cons.prems(1) run]
  have "\<exists>y. get_nonce s' did = Inr y \<and> x \<le> y"
  proof (cases "is_ok r \<and> did = d")
    case True
    then have "x = n" "checked_add n 1 = Some (n + 1)" using step(3) Cons.prems(2) by (auto simp: checked_add_def split: if_splits)
    then show ?thesis using True step(4) [of d] by (auto simp: checked_add_Some word_le_nat_alt)
  next
    case False
    then show ?thesis using step(2) step(4) [of did] Cons.prems(2) by (cases "is_ok r") auto
  qed
  with Cons.IH [OF step(1)] show ?case unfolding a using run by (auto intro: order_trans)
qed simp

text \<open>C31. A nonce is spent at most once: after a transaction of a DID with some nonce was accepted, and whatever
  transactions of whatever accounts were tried since, a transaction of that DID with that nonce is rejected
  and changes nothing.\<close>

theorem nonce_is_spent_once:
  assumes "kv_wf (nn_store s)" and "check_and_increment did n s = (Inr (), s1)"
  shows "\<exists>e. check_and_increment did n (attempts xs s1) = (Inl e, attempts xs s1)"
proof -
  note first = check_and_increment_run [OF assms]
  then have next_nonce: "get_nonce s1 did = Inr (n + 1)" "n < n + 1"
    using first(4) [of did] by (auto simp: is_ok_def checked_add_def word_less_nat_alt unat_word_ariths split: if_splits)
  obtain y where y: "get_nonce (attempts xs s1) did = Inr y" "n + 1 \<le> y"
    using attempts_mono [OF first(1) next_nonce(1)] by blast
  then have "n \<noteq> y" using next_nonce(2) by auto
  with y(1) show ?thesis by (simp add: check_and_increment_def st_bind_def st_read_def st_fail_def)
qed

theorem nonce_is_spent_once_witness:
  "check_and_increment ''did:key:a'' 0 \<lparr>nn_store = kv_default\<rparr> =
     (Inr (), \<lparr>nn_store = kv_put (native_nonce_key ''did:key:a'') (rev (to_be_bytes 1)) kv_default\<rparr>) \<and>
   (\<exists>e. let s = attempts [(''did:key:a'', 1), (''did:key:b'', 0)]
          \<lparr>nn_store = kv_put (native_nonce_key ''did:key:a'') (rev (to_be_bytes 1)) kv_default\<rparr>
        in check_and_increment ''did:key:a'' 0 s = (Inl e, s))"
proof -
  have run: "check_and_increment ''did:key:a'' 0 \<lparr>nn_store = kv_default\<rparr> =
     (Inr (), \<lparr>nn_store = kv_put (native_nonce_key ''did:key:a'') (rev (to_be_bytes 1)) kv_default\<rparr>)"
    by (simp add: check_and_increment_def get_nonce_def st_bind_def st_read_def st_lift_def st_modify_def checked_add_def)
  then show ?thesis unfolding Let_def by (intro conjI nonce_is_spent_once [OF _ run]) simp_all
qed

end
