(* ===== verification/Vera_Module.thy ===== *)
theory Vera_Module
  imports Vera_Types
begin

text \<open>
  The Vera module (\<open>vera-modules/src/vera\<close>): the registry of bearer tokens with its indexes (\<open>mod.rs\<close>,
  \<open>token_queries.rs\<close>, \<open>token_expiry.rs\<close>, \<open>restoration.rs\<close>), relay grants (\<open>relay.rs\<close>) and the
  authorization and revocation of delegations (\<open>delegation.rs\<close>). A handler is a function of the module
  to its result and the module afterwards.
\<close>

section \<open>State\<close>

record vera_module =
  vm_store :: kv_store

type_synonym 'a vera = "(vera_module, vera_error, 'a) stm"

definition vera_new :: vera_module where
  "vera_new = \<lparr>vm_store = kv_default\<rparr>"

definition vera_put :: "bytes \<Rightarrow> bytes \<Rightarrow> unit vera" where
  "vera_put key v = st_modify (\<lambda>m. m\<lparr>vm_store := kv_put key v (vm_store m)\<rparr>)"

definition vera_delete :: "bytes \<Rightarrow> unit vera" where
  "vera_delete key = st_modify (\<lambda>m. m\<lparr>vm_store := kv_delete key (vm_store m)\<rparr>)"


section \<open>Token records\<close>

text \<open>The message has an en dash between the bounds.\<close>

definition validate_token_selector :: "string \<Rightarrow> vera_error + unit" where
  "validate_token_selector v =
     (if v = [] \<or> length v > 255
      then Inl (InvalidJws (''token index components must contain 1'' @ [CHR 0xE2, CHR 0x80, CHR 0x93] @ ''255 bytes''))
      else Inr ())"

definition get_jws_token :: "vera_libs \<Rightarrow> vera_module \<Rightarrow> string \<Rightarrow> vera_error + jws_token_record option" where
  "get_jws_token vl m token_hash =
     (case kv_get (vm_store m) (jws_token_key token_hash) of
        None \<Rightarrow> Inr None
      | Some bs \<Rightarrow>
          res_bind (map_err VeraState (unborsh_token vl bs)) (\<lambda>record.
          if jt_token_hash record \<noteq> token_hash then Inl (VeraState ''token record key mismatch'')
          else Inr (Some record)))"

definition token_expiry_key :: "jws_token_record \<Rightarrow> bytes option" where
  "token_expiry_key record =
     (if jt_status record = TokenInvalid \<or> jt_expires_at record = timestamp_default then None
      else Some (JWS_TOKEN_EXPIRY_PREFIX @ to_be_bytes (ts_seconds (jt_expires_at record)) @ jt_token_hash record))"

definition get_chain_config :: "vera_libs \<Rightarrow> vera_module \<Rightarrow> vera_error + chain_config" where
  "get_chain_config vl m =
     (case kv_get (vm_store m) CHAIN_CONFIG_KEY of
        None \<Rightarrow> Inr \<lparr>cc_allow_zero_fee_txs = False, cc_ignore_bearer_auth = False\<rparr>
      | Some bs \<Rightarrow> map_err VeraState (unborsh_config vl bs))"

definition set_chain_config :: "vera_libs \<Rightarrow> chain_config \<Rightarrow> unit vera" where
  "set_chain_config vl config =
     st_bind (st_read (\<lambda>m. if kv_has (vm_store m) CHAIN_CONFIG_KEY then Inl ChainConfigAlreadySet else Inr ())) (\<lambda>_.
     st_bind (st_lift (map_err VeraState (borsh_config vl config))) (\<lambda>bs.
     vera_put CHAIN_CONFIG_KEY bs))"

definition set_jws_token :: "vera_libs \<Rightarrow> jws_token_record \<Rightarrow> unit vera" where
  "set_jws_token vl record =
     st_bind (st_lift (validate_token_selector (jt_token_hash record))) (\<lambda>_.
     st_bind (st_lift (validate_token_selector (jt_issuer_did record))) (\<lambda>_.
     st_bind (st_lift (if jt_authorized_account record \<noteq> [] then validate_token_selector (jt_authorized_account record)
                       else Inr ())) (\<lambda>_.
     st_bind (st_read (get_chain_config vl)) (\<lambda>config.
     if \<not> cc_ignore_bearer_auth config \<and> jt_authorized_account record = []
     then st_fail (InvalidJws ''authorized_account required when bearer auth is enforced'')
     else
       st_bind (st_lift (map_err VeraState (borsh_token vl record))) (\<lambda>bs.
       st_bind (st_read (\<lambda>m. get_jws_token vl m (jt_token_hash record))) (\<lambda>previous.
       st_bind (case Option.bind previous token_expiry_key of None \<Rightarrow> st_ret () | Some key \<Rightarrow> vera_delete key) (\<lambda>_.
       st_bind (case token_expiry_key record of None \<Rightarrow> st_ret () | Some key \<Rightarrow> vera_put key []) (\<lambda>_.
       st_bind (vera_put (jws_token_key (jt_token_hash record)) bs) (\<lambda>_.
       st_bind (vera_put (jws_token_by_did_key (jt_issuer_did record) (jt_token_hash record)) [CHR 0x01]) (\<lambda>_.
       if jt_authorized_account record \<noteq> []
       then vera_put (jws_token_by_account_key (jt_authorized_account record) (jt_token_hash record)) [CHR 0x01]
       else st_ret ()))))))))))"

definition found_token :: "vera_libs \<Rightarrow> string \<Rightarrow> jws_token_record vera" where
  "found_token vl token_hash =
     st_bind (st_read (\<lambda>m. get_jws_token vl m token_hash)) (\<lambda>stored.
     st_lift (ok_or (TokenNotFound token_hash) stored))"

definition record_jws_token_usage :: "vera_libs \<Rightarrow> block_exec_ctx \<Rightarrow> string \<Rightarrow> unit vera" where
  "record_jws_token_usage vl block token_hash =
     st_bind (found_token vl token_hash) (\<lambda>record.
     if jt_status record \<noteq> TokenValid
        \<or> (ts_seconds (jt_expires_at record) \<noteq> 0 \<and> ts_seconds (jt_expires_at record) < ts_seconds (bx_timestamp block))
     then st_fail (InvalidJws ''token is invalid or expired'')
     else
       let record' = (case jt_first_used_at record of
                        None \<Rightarrow> record\<lparr>jt_first_used_at := Some (bx_timestamp block)\<rparr> | Some _ \<Rightarrow> record) in
       set_jws_token vl (record'\<lparr>jt_last_used_at := Some (bx_timestamp block)\<rparr>))"

definition update_jws_token_status ::
  "vera_libs \<Rightarrow> block_exec_ctx \<Rightarrow> string \<Rightarrow> jws_token_status \<Rightarrow> string \<Rightarrow> jws_token_record vera" where
  "update_jws_token_status vl block token_hash status invalidated_by =
     st_bind (found_token vl token_hash) (\<lambda>record.
     let record1 = record\<lparr>jt_status := status\<rparr>;
         record2 = (if status = TokenInvalid
                    then let r = record1\<lparr>jt_invalidated_at := Some (bx_timestamp block)\<rparr> in
                         if invalidated_by \<noteq> [] then r\<lparr>jt_invalidated_by := invalidated_by\<rparr> else r
                    else record1)
     in st_bind (set_jws_token vl record2) (\<lambda>_. st_ret record2))"

definition delete_jws_token :: "vera_libs \<Rightarrow> string \<Rightarrow> unit vera" where
  "delete_jws_token vl token_hash =
     st_bind (found_token vl token_hash) (\<lambda>record.
     st_bind (case token_expiry_key record of None \<Rightarrow> st_ret () | Some key \<Rightarrow> vera_delete key) (\<lambda>_.
     st_bind (vera_delete (jws_token_key token_hash)) (\<lambda>_.
     st_bind (vera_delete (jws_token_by_did_key (jt_issuer_did record) token_hash)) (\<lambda>_.
     if jt_authorized_account record \<noteq> []
     then vera_delete (jws_token_by_account_key (jt_authorized_account record) token_hash)
     else st_ret ()))))"

definition vera_get_params :: "vera_libs \<Rightarrow> vera_module \<Rightarrow> vera_error + unit" where
  "vera_get_params vl m =
     (case get_ref (vm_store m) VERA_PARAMS_KEY of
        None \<Rightarrow> Inr ()
      | Some bs \<Rightarrow> map_err (\<lambda>e. VeraState (''invalid vera parameters: '' @ e)) (unborsh_vera_params vl bs))"

definition vera_set_params :: "vera_libs \<Rightarrow> unit vera" where
  "vera_set_params vl =
     st_bind (st_lift (map_err VeraState (borsh_vera_params vl))) (\<lambda>bs. vera_put VERA_PARAMS_KEY bs)"

definition vera_query_params :: "vera_libs \<Rightarrow> vera_module \<Rightarrow> vera_error + unit" where
  "vera_query_params vl m = vera_get_params vl m"

definition vera_update_params :: "did \<Rightarrow> unit vera" where
  "vera_update_params authority = st_fail (VeraUnauthorized ''operator approvals are required'')"


section \<open>Tokens in use\<close>

definition store_or_update_jws_token ::
  "vera_libs \<Rightarrow> block_exec_ctx \<Rightarrow> string \<Rightarrow> did \<Rightarrow> string \<Rightarrow> timestamp \<Rightarrow> timestamp \<Rightarrow> unit vera" where
  "store_or_update_jws_token vl block bearer_token issuer authorized_account issued_at expires_at =
     (let token_hash = hash_jws_token vl bearer_token in
      st_bind (st_read (\<lambda>m. get_jws_token vl m token_hash)) (\<lambda>stored.
      if stored \<noteq> None then record_jws_token_usage vl block token_hash
      else if expires_at \<noteq> timestamp_default \<and> ts_seconds expires_at < ts_seconds (bx_timestamp block)
      then st_fail (InvalidJws ''token already expired at block time'')
      else set_jws_token vl
        \<lparr>jt_token_hash = token_hash, jt_bearer_token = bearer_token, jt_issuer_did = as_str issuer,
         jt_authorized_account = authorized_account, jt_issued_at = issued_at, jt_expires_at = expires_at,
         jt_status = TokenValid, jt_first_used_at = Some (bx_timestamp block),
         jt_last_used_at = Some (bx_timestamp block), jt_invalidated_at = None, jt_invalidated_by = []\<rparr>))"

definition invalidate_jws ::
  "vera_libs \<Rightarrow> block_exec_ctx \<Rightarrow> tx_exec_ctx \<Rightarrow> did \<Rightarrow> string \<Rightarrow> jws_token_record vera" where
  "invalidate_jws vl block tx creator token_hash =
     st_bind (found_token vl token_hash) (\<lambda>record.
     if jt_status record = TokenInvalid then st_fail (TokenAlreadyInvalidated token_hash)
     else
       let is_issuer = matches_issuer (jwt_codecs vl) (jt_issuer_did record) (as_str creator);
           is_authorized_account = (jt_authorized_account record \<noteq> [] \<and> tx_signer tx = jt_authorized_account record)
       in if \<not> is_issuer \<and> \<not> is_authorized_account
          then st_fail (VeraUnauthorized ''caller is neither issuer DID nor authorized account'')
          else update_jws_token_status vl block token_hash TokenInvalid (tx_signer tx))"

text \<open>The due entries of the expiry index; the loop stops at the first deadline that is not past.\<close>

fun token_expiry_loop ::
  "vera_libs \<Rightarrow> vera_module \<Rightarrow> u64 \<Rightarrow> (bytes \<times> bytes) list \<Rightarrow> vera_error + string list" where
  "token_expiry_loop vl m now [] = Inr []"
| "token_expiry_loop vl m now ((index, v) # rest) =
     (let n = length JWS_TOKEN_EXPIRY_PREFIX in
      if length index \<le> n + 8 \<or> v \<noteq> [] then Inl (VeraState ''invalid token expiry index'')
      else if take 8 (drop n index) \<ge> to_be_bytes now then Inr []
      else
        res_bind (map_err (\<lambda>e. VeraState (''invalid expiry token hash: '' @ e)) (from_utf8 (drop (n + 8) index))) (\<lambda>hash.
        res_bind (get_jws_token vl m hash) (\<lambda>stored.
        res_bind (ok_or (VeraState ''expiry token missing'') stored) (\<lambda>record.
        if token_expiry_key record \<noteq> Some index then Inl (VeraState ''token expiry index mismatch'')
        else res_bind (token_expiry_loop vl m now rest) (\<lambda>expired. Inr (hash # expired))))))"

fun invalidate_all :: "vera_libs \<Rightarrow> block_exec_ctx \<Rightarrow> string list \<Rightarrow> unit vera" where
  "invalidate_all vl block [] = st_ret ()"
| "invalidate_all vl block (hash # rest) =
     st_bind (update_jws_token_status vl block hash TokenInvalid []) (\<lambda>_. invalidate_all vl block rest)"

definition TOKEN_EXPIRY_BATCH_SIZE :: nat where "TOKEN_EXPIRY_BATCH_SIZE = 128"

definition check_and_update_expired_tokens :: "vera_libs \<Rightarrow> block_exec_ctx \<Rightarrow> unit vera" where
  "check_and_update_expired_tokens vl block =
     st_bind (st_read (\<lambda>m. token_expiry_loop vl m (ts_seconds (bx_timestamp block))
                (take TOKEN_EXPIRY_BATCH_SIZE (prefix_iter (vm_store m) JWS_TOKEN_EXPIRY_PREFIX)))) (\<lambda>expired.
     invalidate_all vl block expired)"


section \<open>Queries\<close>

definition MAX_TOKEN_RECORDS :: nat where "MAX_TOKEN_RECORDS = 128"
definition MAX_TOKEN_BYTES :: nat where "MAX_TOKEN_BYTES = 1048576"

text \<open>\<open>std::str::from_utf8(..).ok()\<close>.\<close>

definition utf8_ok :: "bytes \<Rightarrow> string option" where
  "utf8_ok bs = (case from_utf8 bs of Inl _ \<Rightarrow> None | Inr s \<Rightarrow> Some s)"

definition extract_hash_from_index_suffix :: "bytes \<Rightarrow> string option" where
  "extract_hash_from_index_suffix suf =
     (case suf of
        [] \<Rightarrow> None
      | c # rest \<Rightarrow>
          let hash_len = (of_char c :: nat) in
          if hash_len = 0 \<or> length suf \<noteq> 1 + hash_len then None else utf8_ok (take hash_len rest))"

text \<open>The length counters are machine words that saturate far above the byte limit.\<close>

fun collect_loop ::
  "vera_libs \<Rightarrow> vera_module \<Rightarrow> bytes \<Rightarrow> bool \<Rightarrow> (jws_token_record \<Rightarrow> bytes) \<Rightarrow> nat \<Rightarrow> nat \<Rightarrow> (bytes \<times> bytes) list \<Rightarrow>
     vera_error + jws_token_record list" where
  "collect_loop vl m pre indexed record_key count byts [] = Inr []"
| "collect_loop vl m pre indexed record_key count byts ((key, v) # rest) =
     (let byts1 = byts + length key + length v in
      if count = MAX_TOKEN_RECORDS \<or> byts1 > MAX_TOKEN_BYTES
      then Inl (VeraState ''token query exceeds limit; use certified prefix pages'')
      else
        res_bind (if indexed
                  then
                    res_bind (ok_or (VeraState ''invalid token index key'')
                                (extract_hash_from_index_suffix (drop (length pre) key))) (\<lambda>hash.
                    if v \<noteq> [CHR 0x01] then Inl (VeraState ''invalid token index value'')
                    else
                      res_bind (ok_or (VeraState ''indexed token missing'') (get_ref (vm_store m) (jws_token_key hash))) (\<lambda>primary.
                      Inr (primary, byts1 + length (jws_token_key hash) + length primary)))
                  else Inr (v, byts1)) (\<lambda>(bs, byts2).
        if byts2 > MAX_TOKEN_BYTES
        then Inl (VeraState ''token query exceeds byte limit; use certified prefix pages'')
        else
          res_bind (map_err (\<lambda>e. VeraState (''invalid token record: '' @ e)) (unborsh_token vl bs)) (\<lambda>record.
          res_bind (validate_token_selector (jt_token_hash record)) (\<lambda>_.
          res_bind (validate_token_selector (jt_issuer_did record)) (\<lambda>_.
          res_bind (if jt_authorized_account record \<noteq> [] then validate_token_selector (jt_authorized_account record)
                    else Inr ()) (\<lambda>_.
          if record_key record \<noteq> key then Inl (VeraState ''token index does not match record'')
          else res_bind (collect_loop vl m pre indexed record_key (count + 1) byts2 rest) (\<lambda>records.
               Inr (record # records))))))))"

definition collect_tokens ::
  "vera_libs \<Rightarrow> vera_module \<Rightarrow> bytes \<Rightarrow> bool \<Rightarrow> (jws_token_record \<Rightarrow> bytes) \<Rightarrow> vera_error + jws_token_record list" where
  "collect_tokens vl m pre indexed record_key =
     collect_loop vl m pre indexed record_key 0 0 (take (MAX_TOKEN_RECORDS + 1) (prefix_iter (vm_store m) pre))"

definition get_jws_tokens_by_did :: "vera_libs \<Rightarrow> vera_module \<Rightarrow> did \<Rightarrow> vera_error + jws_token_record list" where
  "get_jws_tokens_by_did vl m d =
     res_bind (validate_token_selector (as_str d)) (\<lambda>_.
     collect_tokens vl m (jws_token_did_prefix (as_str d)) True
       (\<lambda>record. jws_token_by_did_key (jt_issuer_did record) (jt_token_hash record)))"

definition get_jws_tokens_by_account :: "vera_libs \<Rightarrow> vera_module \<Rightarrow> string \<Rightarrow> vera_error + jws_token_record list" where
  "get_jws_tokens_by_account vl m account =
     res_bind (validate_token_selector account) (\<lambda>_.
     collect_tokens vl m (jws_token_account_prefix account) True
       (\<lambda>record. jws_token_by_account_key (jt_authorized_account record) (jt_token_hash record)))"

definition get_all_jws_tokens :: "vera_libs \<Rightarrow> vera_module \<Rightarrow> vera_error + jws_token_record list" where
  "get_all_jws_tokens vl m =
     collect_tokens vl m JWS_TOKEN_PREFIX False (\<lambda>record. jws_token_key (jt_token_hash record))"


section \<open>Restoration\<close>

definition require_token_index :: "vera_module \<Rightarrow> bytes \<Rightarrow> bytes \<Rightarrow> vera_error + unit" where
  "require_token_index m key marker =
     (if get_ref (vm_store m) key \<noteq> Some marker then Inl (VeraState ''restored token index missing or invalid'')
      else Inr ())"

definition restored_record :: "vera_libs \<Rightarrow> vera_module \<Rightarrow> chain_config \<Rightarrow> bytes \<times> bytes \<Rightarrow> vera_error + unit" where
  "restored_record vl m config = (\<lambda>(key, bs).
     res_bind (map_err (\<lambda>e. VeraState (''invalid restored token: '' @ e)) (unborsh_token vl bs)) (\<lambda>record.
     res_bind (validate_token_selector (jt_token_hash record)) (\<lambda>_.
     res_bind (validate_token_selector (jt_issuer_did record)) (\<lambda>_.
     res_bind (if jt_authorized_account record \<noteq> [] then validate_token_selector (jt_authorized_account record)
               else if \<not> cc_ignore_bearer_auth config then Inl (VeraState ''restored token has no authorized account'')
               else Inr ()) (\<lambda>_.
     if jws_token_key (jt_token_hash record) \<noteq> key then Inl (VeraState ''restored token key mismatch'')
     else
       res_bind (require_token_index m (jws_token_by_did_key (jt_issuer_did record) (jt_token_hash record)) [CHR 0x01]) (\<lambda>_.
       res_bind (if jt_authorized_account record \<noteq> []
                 then require_token_index m (jws_token_by_account_key (jt_authorized_account record) (jt_token_hash record)) [CHR 0x01]
                 else Inr ()) (\<lambda>_.
       case token_expiry_key record of None \<Rightarrow> Inr () | Some k \<Rightarrow> require_token_index m k [])))))))"

text \<open>The hash at the end of an index key; \<open>suffix.get(n..)\<close> is \<open>None\<close> beyond the end.\<close>

definition index_hash :: "bytes \<Rightarrow> bytes \<Rightarrow> string option" where
  "index_hash pre suf =
     (if pre = JWS_TOKEN_EXPIRY_PREFIX
      then (if length suf < 8 then None else utf8_ok (drop 8 suf))
      else case suf of
        [] \<Rightarrow> None
      | c # _ \<Rightarrow>
          let n = 1 + (of_char c :: nat) in
          if length suf < n then None else extract_hash_from_index_suffix (drop n suf))"

definition restored_index :: "vera_libs \<Rightarrow> vera_module \<Rightarrow> bytes \<Rightarrow> bytes \<times> bytes \<Rightarrow> vera_error + unit" where
  "restored_index vl m pre = (\<lambda>(key, v).
     if pre = JWS_TOKEN_EXPIRY_PREFIX \<and> v \<noteq> [] then Inl (VeraState ''invalid restored expiry marker'')
     else if pre \<noteq> JWS_TOKEN_EXPIRY_PREFIX \<and> v \<noteq> [CHR 0x01] then Inl (VeraState ''invalid restored token index marker'')
     else
       res_bind (ok_or (VeraState ''invalid restored token index key'') (index_hash pre (drop (length pre) key))) (\<lambda>hash.
       res_bind (get_jws_token vl m hash) (\<lambda>stored.
       res_bind (ok_or (VeraState ''restored token index has no record'') stored) (\<lambda>record.
       let expected =
         (if pre = JWS_TOKEN_BY_DID_PREFIX then Some (jws_token_by_did_key (jt_issuer_did record) hash)
          else if pre = JWS_TOKEN_BY_ACCOUNT_PREFIX
          then (if jt_authorized_account record \<noteq> [] then Some (jws_token_by_account_key (jt_authorized_account record) hash)
                else None)
          else token_expiry_key record)
       in if expected \<noteq> Some key then Inl (VeraState ''restored token index differs from record'') else Inr ()))))"

definition validate_restored_tokens :: "vera_libs \<Rightarrow> vera_module \<Rightarrow> vera_error + unit" where
  "validate_restored_tokens vl m =
     res_bind (vera_get_params vl m) (\<lambda>_.
     res_bind (get_chain_config vl m) (\<lambda>config.
     res_bind (check_all (restored_record vl m config) (prefix_iter (vm_store m) JWS_TOKEN_PREFIX)) (\<lambda>_.
     check_all (\<lambda>pre. check_all (restored_index vl m pre) (prefix_iter (vm_store m) pre))
       [JWS_TOKEN_BY_DID_PREFIX, JWS_TOKEN_BY_ACCOUNT_PREFIX, JWS_TOKEN_EXPIRY_PREFIX])))"


section \<open>Relays\<close>

definition saturating_sub :: "u64 \<Rightarrow> u64 \<Rightarrow> u64" where
  "saturating_sub x y = (if y \<le> x then x - y else 0)"

definition MAX_RELAY_TOKEN_TTL :: u64 where "MAX_RELAY_TOKEN_TTL = 600"

definition relay_invalid :: "string \<Rightarrow> vera_error" where "relay_invalid e = InvalidJws e"

definition relay_key :: "vera_libs \<Rightarrow> string \<Rightarrow> vera_error + bytes" where
  "relay_key vl issuer =
     (if length issuer > 128 then Inl (relay_invalid ''relay issuer must use a canonical compressed key DID'')
      else
        res_bind (map_err (\<lambda>e. relay_invalid (jwt_error_to_string e)) (canonical_issuer (jwt_codecs vl) issuer)) (\<lambda>canonical.
        if canonical \<noteq> issuer then Inl (relay_invalid ''relay issuer must use a canonical compressed key DID'')
        else Inr (''relay/v1/'' @ issuer)))"

definition relay :: "vera_libs \<Rightarrow> vera_module \<Rightarrow> string \<Rightarrow> vera_error + relay_state option" where
  "relay vl m issuer =
     res_bind (relay_key vl issuer) (\<lambda>key.
     case kv_get (vm_store m) key of
       None \<Rightarrow> Inr None
     | Some bs \<Rightarrow> res_bind (map_err VeraState (unborsh_relay vl bs)) (\<lambda>state. Inr (Some state)))"

text \<open>\<open>windows(2).any(..)\<close>: two neighbours in the relation.\<close>

fun any_adjacent :: "('x \<Rightarrow> 'x \<Rightarrow> bool) \<Rightarrow> 'x list \<Rightarrow> bool" where
  "any_adjacent P (a # b # xs) \<longleftrightarrow> P a b \<or> any_adjacent P (b # xs)"
| "any_adjacent P _ \<longleftrightarrow> False"

definition set_relay :: "vera_libs \<Rightarrow> relay_grant \<Rightarrow> u64 \<Rightarrow> u64 \<Rightarrow> unit vera" where
  "set_relay vl grant sequence now =
     st_bind (st_lift (relay_key vl (rg_issuer grant))) (\<lambda>key.
     if rg_scopes grant = [] \<or> length (rg_scopes grant) > 4 \<or> any_adjacent (\<lambda>a b. a \<ge> b) (rg_scopes grant)
        \<or> rg_expires_at grant \<le> now
     then st_fail (relay_invalid ''invalid relay scopes or expiration'')
     else
       st_bind (st_lift (map_err relay_invalid (borsh_relay vl \<lparr>rst_grant = grant, rst_sequence = sequence\<rparr>))) (\<lambda>bs.
       vera_put key bs))"

definition revoke_relay :: "vera_libs \<Rightarrow> string \<Rightarrow> unit vera" where
  "revoke_relay vl issuer =
     st_bind (st_lift (relay_key vl issuer)) (\<lambda>key.
     st_bind (st_read (\<lambda>m. if \<not> kv_has (vm_store m) key then Inl (relay_invalid ''relay grant does not exist'') else Inr ())) (\<lambda>_.
     vera_delete key))"

definition zero32 :: bytes where "zero32 = replicate 32 (CHR 0x00)"

definition authorize_relay ::
  "vera_libs \<Rightarrow> vera_module \<Rightarrow> jwt_claims \<Rightarrow> bytes \<Rightarrow> block_exec_ctx \<Rightarrow> vera_error + unit" where
  "authorize_relay vl m claims operation context =
     (case jc_relay claims of
        None \<Rightarrow> Inr ()
      | Some assertion \<Rightarrow>
          res_bind (relay vl m (jc_iss claims)) (\<lambda>found.
          res_bind (ok_or (relay_invalid ''relay is not authorized'') found) (\<lambda>state.
          if bx_genesis_id context = zero32
             \<or> ra_genesis_id assertion \<noteq> bx_genesis_id context
             \<or> ra_grant_sequence assertion \<noteq> rst_sequence state
             \<or> ra_operation assertion \<noteq> operation
             \<or> jc_scope claims \<notin> set (rg_scopes (rst_grant state))
             \<or> jc_exp claims > rg_expires_at (rst_grant state)
             \<or> ts_seconds (bx_timestamp context) \<ge> jc_exp claims
             \<or> saturating_sub (jc_exp claims) (jc_iat claims) > MAX_RELAY_TOKEN_TTL
             \<or> jc_nbf claims \<noteq> jc_iat claims
             \<or> \<not> starts_with (ra_actor assertion) ''did:opk:''
             \<or> \<not> is_ok (did_new (ra_actor assertion))
          then Inl (relay_invalid ''relay assertion exceeds its grant or operation'')
          else Inr ())))"


section \<open>Delegations\<close>

definition authorize_delegation ::
  "vera_libs \<Rightarrow> vera_module \<Rightarrow> block_exec_ctx \<Rightarrow> did \<Rightarrow> string \<Rightarrow> delegation_scope \<Rightarrow> bytes \<Rightarrow> vera_error + jwt_claims" where
  "authorize_delegation vl m context caller token scope operation =
     (let invalid = (\<lambda>e. InvalidJws (jwt_error_to_string e)) in
      res_bind (map_err invalid (verify_bearer_token (vera_sha vl) (jwt_codecs vl) token)) (\<lambda>claims.
      if jc_scope claims \<noteq> scope then Inl (InvalidJws ''delegation does not authorize this operation'')
      else
        res_bind (map_err invalid (claims_authorize claims (as_str caller) (bx_deployment_id context)
                                     (ts_seconds (bx_timestamp context)))) (\<lambda>_.
        res_bind (authorize_relay vl m claims operation context) (\<lambda>_.
        res_bind (case jc_request claims of
                    None \<Rightarrow> Inr ()
                  | Some request \<Rightarrow>
                      res_bind (map_err invalid (operation_validate (oc_id request) (ts_seconds (bx_timestamp context)))) (\<lambda>_.
                      if bx_genesis_id context = zero32
                         \<or> oc_genesis_id request \<noteq> bx_genesis_id context
                         \<or> oc_digest request \<noteq> operation
                         \<or> jc_exp claims > operation_expires_at (oc_id request)
                      then Inl (InvalidJws ''operation identity does not bind this request'')
                      else Inr ())) (\<lambda>_.
        res_bind (get_jws_token vl m (hash_jws_token vl token)) (\<lambda>stored.
        if (case stored of None \<Rightarrow> False | Some record \<Rightarrow> jt_status record \<noteq> TokenValid)
        then Inl (InvalidJws ''token has been revoked'')
        else Inr claims))))))"

definition revoke_delegation :: "vera_libs \<Rightarrow> block_exec_ctx \<Rightarrow> did \<Rightarrow> string \<Rightarrow> jws_token_record vera" where
  "revoke_delegation vl context caller token =
     st_bind (st_lift (map_err (\<lambda>e. InvalidJws (jwt_error_to_string e))
                         (verify_bearer_token (vera_sha vl) (jwt_codecs vl) token))) (\<lambda>claims.
     if jc_aud claims \<noteq> audience (bx_deployment_id context)
        \<or> (case jc_relay claims of None \<Rightarrow> False
           | Some r \<Rightarrow> bx_genesis_id context = zero32 \<or> ra_genesis_id r \<noteq> bx_genesis_id context)
        \<or> (case jc_request claims of None \<Rightarrow> False
           | Some r \<Rightarrow> bx_genesis_id context = zero32 \<or> oc_genesis_id r \<noteq> bx_genesis_id context)
        \<or> (\<not> matches_issuer (jwt_codecs vl) (jc_iss claims) (as_str caller) \<and> as_str caller \<noteq> jc_sub claims)
     then st_fail (VeraUnauthorized ''delegation revocation is not authorized'')
     else
       st_bind (st_read (\<lambda>m. get_jws_token vl m (hash_jws_token vl token))) (\<lambda>stored.
       let record = (case stored of
             Some record \<Rightarrow> record
           | None \<Rightarrow>
               \<lparr>jt_token_hash = hash_jws_token vl token, jt_bearer_token = token, jt_issuer_did = jc_iss claims,
                jt_authorized_account = jc_sub claims,
                jt_issued_at = \<lparr>ts_seconds = jc_iat claims, ts_block_height = 0\<rparr>,
                jt_expires_at = \<lparr>ts_seconds = jc_exp claims, ts_block_height = 0\<rparr>,
                jt_status = TokenValid, jt_first_used_at = None, jt_last_used_at = None, jt_invalidated_at = None,
                jt_invalidated_by = []\<rparr>)
       in if jt_status record = TokenInvalid then st_fail (TokenAlreadyInvalidated (jt_token_hash record))
          else
            let record' = record\<lparr>jt_status := TokenInvalid, jt_invalidated_at := Some (bx_timestamp context),
                                 jt_invalidated_by := as_str caller\<rparr> in
            st_bind (set_jws_token vl record') (\<lambda>_. st_ret record')))"

end
