(* ===== verification/Vera_Tokens.thy ===== *)
theory Vera_Tokens
  imports Vera_Module Deadline_Index
begin

text \<open>
  The invariant of the token registry of the Vera module. \<open>token_ok\<close> says that every stored token decodes
  under its own hash and that the three indexes (issuers, accounts, deadlines) list exactly the stored
  tokens. Writing a record keeps it (\<open>set_token_ok\<close>).
\<close>

section \<open>Stored tokens\<close>

definition tok :: "vera_libs \<Rightarrow> kv_store \<Rightarrow> string \<Rightarrow> jws_token_record option" where
  "tok vl s h =
     (case kv_view s (jws_token_key h) of
        None \<Rightarrow> None
      | Some bs \<Rightarrow> (case unborsh_token vl bs of Inl _ \<Rightarrow> None | Inr r \<Rightarrow> Some r))"

definition tokens :: "vera_libs \<Rightarrow> kv_store \<Rightarrow> jws_token_record set" where
  "tokens vl s = {r. tok vl s (jt_token_hash r) = Some r}"

definition selector :: "string \<Rightarrow> bool" where
  "selector s \<longleftrightarrow> s \<noteq> [] \<and> length s \<le> 255"

lemma validate_selector [simp]: "validate_token_selector v = Inr u \<longleftrightarrow> selector v"
  by (auto simp: validate_token_selector_def selector_def)

text \<open>A hash is a Rust string, hence well-formed UTF-8.\<close>

definition token_fields_ok :: "jws_token_record \<Rightarrow> bool" where
  "token_fields_ok r \<longleftrightarrow> selector (jt_token_hash r) \<and> selector (jt_issuer_did r) \<and>
     (jt_authorized_account r \<noteq> [] \<longrightarrow> selector (jt_authorized_account r)) \<and>
     from_utf8 (jt_token_hash r) = Inr (jt_token_hash r)"

definition did_index :: "jws_token_record \<Rightarrow> bytes option" where
  "did_index r = Some (jws_token_by_did_key (jt_issuer_did r) (jt_token_hash r))"

definition account_index :: "jws_token_record \<Rightarrow> bytes option" where
  "account_index r =
     (if jt_authorized_account r = [] then None
      else Some (jws_token_by_account_key (jt_authorized_account r) (jt_token_hash r)))"

definition token_index ::
  "bytes \<Rightarrow> (jws_token_record \<Rightarrow> bytes option) \<Rightarrow> bytes \<Rightarrow> vera_libs \<Rightarrow> kv_store \<Rightarrow> bool" where
  "token_index pre key mark vl s \<longleftrightarrow>
     (\<forall>k v. kv_view s k = Some v \<and> prefix pre k \<longleftrightarrow> (\<exists>r \<in> tokens vl s. key r = Some k \<and> v = mark))"

definition token_ok :: "vera_libs \<Rightarrow> vera_module \<Rightarrow> bool" where
  "token_ok vl m \<longleftrightarrow> kv_wf (vm_store m) \<and>
     (\<forall>h bs. kv_view (vm_store m) (jws_token_key h) = Some bs \<longrightarrow>
        (\<exists>r. unborsh_token vl bs = Inr r \<and> jt_token_hash r = h \<and> token_fields_ok r)) \<and>
     token_index JWS_TOKEN_BY_DID_PREFIX did_index [CHR 0x01] vl (vm_store m) \<and>
     token_index JWS_TOKEN_BY_ACCOUNT_PREFIX account_index [CHR 0x01] vl (vm_store m) \<and>
     token_index JWS_TOKEN_EXPIRY_PREFIX token_expiry_key [] vl (vm_store m) \<and>
     vera_get_params vl m = Inr () \<and>
     (\<exists>config. get_chain_config vl m = Inr config \<and>
        ((\<exists>r \<in> tokens vl (vm_store m). jt_authorized_account r = []) \<longrightarrow> cc_ignore_bearer_auth config))"

lemma token_key_inj [simp]: "jws_token_key h = jws_token_key h' \<longleftrightarrow> h = h'"
  by (simp add: jws_token_key_def)

lemma token_prefixes [simp]:
  "prefix JWS_TOKEN_BY_DID_PREFIX (jws_token_by_did_key d h)"
  "prefix JWS_TOKEN_BY_ACCOUNT_PREFIX (jws_token_by_account_key d h)"
  "token_expiry_key r = Some k \<Longrightarrow> prefix JWS_TOKEN_EXPIRY_PREFIX k"
  "prefix JWS_TOKEN_PREFIX (jws_token_key h)"
  by (auto simp: jws_token_by_did_key_def jws_token_by_account_key_def jws_token_key_def token_expiry_key_def split: if_splits)

text \<open>The prefixes are different single bytes.\<close>

definition token_spaces :: "bytes set" where
  "token_spaces = {JWS_TOKEN_PREFIX, JWS_TOKEN_BY_DID_PREFIX, JWS_TOKEN_BY_ACCOUNT_PREFIX, JWS_TOKEN_EXPIRY_PREFIX}"

lemma spaces_disjoint: "p \<in> token_spaces \<Longrightarrow> q \<in> token_spaces \<Longrightarrow> prefix p k \<Longrightarrow> prefix q k \<Longrightarrow> p = q"
  by (cases k) (auto simp: token_spaces_def vera_key_consts)

lemma in_spaces [simp]:
  "JWS_TOKEN_PREFIX \<in> token_spaces" "JWS_TOKEN_BY_DID_PREFIX \<in> token_spaces"
  "JWS_TOKEN_BY_ACCOUNT_PREFIX \<in> token_spaces" "JWS_TOKEN_EXPIRY_PREFIX \<in> token_spaces"
  by (simp_all add: token_spaces_def)

lemma spaces_differ [simp]:
  "JWS_TOKEN_PREFIX \<noteq> JWS_TOKEN_BY_DID_PREFIX" "JWS_TOKEN_PREFIX \<noteq> JWS_TOKEN_BY_ACCOUNT_PREFIX"
  "JWS_TOKEN_PREFIX \<noteq> JWS_TOKEN_EXPIRY_PREFIX" "JWS_TOKEN_BY_DID_PREFIX \<noteq> JWS_TOKEN_BY_ACCOUNT_PREFIX"
  "JWS_TOKEN_BY_DID_PREFIX \<noteq> JWS_TOKEN_EXPIRY_PREFIX" "JWS_TOKEN_BY_ACCOUNT_PREFIX \<noteq> JWS_TOKEN_EXPIRY_PREFIX"
  "JWS_TOKEN_BY_DID_PREFIX \<noteq> JWS_TOKEN_PREFIX" "JWS_TOKEN_BY_ACCOUNT_PREFIX \<noteq> JWS_TOKEN_PREFIX"
  "JWS_TOKEN_EXPIRY_PREFIX \<noteq> JWS_TOKEN_PREFIX" "JWS_TOKEN_BY_ACCOUNT_PREFIX \<noteq> JWS_TOKEN_BY_DID_PREFIX"
  "JWS_TOKEN_EXPIRY_PREFIX \<noteq> JWS_TOKEN_BY_DID_PREFIX" "JWS_TOKEN_EXPIRY_PREFIX \<noteq> JWS_TOKEN_BY_ACCOUNT_PREFIX"
  by (simp_all add: vera_key_consts)

lemma config_keys_apart [simp]:
  "p \<in> token_spaces \<Longrightarrow> \<not> prefix p CHAIN_CONFIG_KEY" "p \<in> token_spaces \<Longrightarrow> \<not> prefix p VERA_PARAMS_KEY"
  by (auto simp: token_spaces_def vera_key_consts)

lemma tok_wf:
  assumes "token_ok vl m"
  shows "kv_wf (vm_store m)" and "vera_get_params vl m = Inr ()"
  using assms by (simp_all add: token_ok_def)

lemma tok_record:
  assumes "token_ok vl m" and "tok vl (vm_store m) h = Some r"
  shows "jt_token_hash r = h" and "token_fields_ok r" and "r \<in> tokens vl (vm_store m)"
proof -
  obtain bs where bs: "kv_view (vm_store m) (jws_token_key h) = Some bs" "unborsh_token vl bs = Inr r"
    using assms(2) by (auto simp: tok_def split: option.splits sum.splits)
  have "\<exists>r. unborsh_token vl bs = Inr r \<and> jt_token_hash r = h \<and> token_fields_ok r"
    using assms(1) bs(1) unfolding token_ok_def by blast
  then show h: "jt_token_hash r = h" and "token_fields_ok r" using bs(2) by auto
  show "r \<in> tokens vl (vm_store m)" unfolding tokens_def using assms(2) h by blast
qed

lemma tok_get:
  assumes "token_ok vl m"
  shows "get_jws_token vl m h = Inr (tok vl (vm_store m) h)"
proof (cases "kv_view (vm_store m) (jws_token_key h)")
  case None
  then show ?thesis by (simp add: get_jws_token_def tok_def)
next
  case (Some bs)
  then have "\<exists>r. unborsh_token vl bs = Inr r \<and> jt_token_hash r = h \<and> token_fields_ok r"
    using assms unfolding token_ok_def by blast
  then obtain r where "unborsh_token vl bs = Inr r" "jt_token_hash r = h" by blast
  then show ?thesis using Some by (simp add: get_jws_token_def tok_def)
qed



section \<open>Writing a token\<close>

text \<open>An index key determines the hash of its record.\<close>

definition key_separates :: "(jws_token_record \<Rightarrow> bytes option) \<Rightarrow> bool" where
  "key_separates key \<longleftrightarrow> (\<forall>r r' k. token_fields_ok r \<longrightarrow> token_fields_ok r' \<longrightarrow> key r = Some k \<longrightarrow> key r' = Some k \<longrightarrow>
     jt_token_hash r = jt_token_hash r')"

lemma selector_parse:
  assumes "len_prefix a @ len_prefix h = len_prefix b @ len_prefix h'" and "selector a" "selector b" "selector h" "selector h'"
  shows "a = b \<and> h = h'"
proof -
  have ab: "a = b \<and> len_prefix h = len_prefix h'"
    by (rule len_prefix_parse [OF assms(1)]) (use assms(2,3) in \<open>simp_all add: selector_def\<close>)
  then show ?thesis using assms(4,5) by (auto simp: len_prefix_def selector_def split: if_splits)
qed

lemma keys_separate: "key_separates did_index" "key_separates account_index" "key_separates token_expiry_key"
proof -
  show "key_separates did_index"
    unfolding key_separates_def
    by (auto simp: did_index_def jws_token_by_did_key_def token_fields_ok_def dest: selector_parse)
  show "key_separates account_index"
    unfolding key_separates_def
    by (auto simp: account_index_def jws_token_by_account_key_def token_fields_ok_def dest: selector_parse split: if_splits)
  show "key_separates token_expiry_key"
    unfolding key_separates_def by (auto simp: token_expiry_key_def split: if_splits)
qed

lemma token_index_update:
  assumes ix: "token_index pre key mark vl s" and sep: "key_separates key"
    and fields: "\<And>r. r \<in> tokens vl s \<Longrightarrow> token_fields_ok r" "token_fields_ok rec"
    and toks: "tokens vl s' = insert rec {r \<in> tokens vl s. jt_token_hash r \<noteq> jt_token_hash rec}"
    and pre: "\<And>k. key rec = Some k \<Longrightarrow> prefix pre k"
    and view: "\<And>k. prefix pre k \<Longrightarrow> kv_view s' k =
      (if key rec = Some k then Some mark else if gone = Some k then None else kv_view s k)"
    and old: "\<And>r. r \<in> tokens vl s \<Longrightarrow> jt_token_hash r = jt_token_hash rec \<Longrightarrow> gone = key r \<or> key r = key rec"
    and gone: "\<And>k. gone = Some k \<Longrightarrow> \<exists>r \<in> tokens vl s. jt_token_hash r = jt_token_hash rec \<and> key r = Some k"
  shows "token_index pre key mark vl s'"
  unfolding token_index_def
proof (intro allI iffI)
  fix k v assume kv: "kv_view s' k = Some v \<and> prefix pre k"
  show "\<exists>r \<in> tokens vl s'. key r = Some k \<and> v = mark"
  proof (cases "key rec = Some k")
    case True
    then show ?thesis using kv view toks by auto
  next
    case False
    then have "gone \<noteq> Some k" "kv_view s k = Some v" using kv view [of k] by (auto split: if_splits)
    then obtain r where r: "r \<in> tokens vl s" "key r = Some k" "v = mark" using ix kv unfolding token_index_def by blast
    have "jt_token_hash r \<noteq> jt_token_hash rec" using old [OF r(1)] r(2) False \<open>gone \<noteq> Some k\<close> by auto
    then show ?thesis using r toks by blast
  qed
next
  fix k v assume "\<exists>r \<in> tokens vl s'. key r = Some k \<and> v = mark"
  then obtain r where r: "r \<in> tokens vl s'" "key r = Some k" "v = mark" by blast
  show "kv_view s' k = Some v \<and> prefix pre k"
  proof (cases "key rec = Some k")
    case True
    then show ?thesis using pre view r(3) by simp
  next
    case False
    then have r': "r \<in> tokens vl s" "jt_token_hash r \<noteq> jt_token_hash rec" using r toks by auto
    have "kv_view s k = Some v" "prefix pre k" using ix r r'(1) unfolding token_index_def by blast+
    moreover have "gone \<noteq> Some k"
    proof
      assume "gone = Some k"
      then obtain q where q: "q \<in> tokens vl s" "jt_token_hash q = jt_token_hash rec" "key q = Some k" using gone by blast
      have "jt_token_hash r = jt_token_hash q"
        using sep fields(1) [OF r'(1)] fields(1) [OF q(1)] r(2) q(3) unfolding key_separates_def by blast
      with q(2) r'(2) show False by simp
    qed
    ultimately show ?thesis using view False by simp
  qed
qed

lemma vera_write_run [simp]:
  "vera_put k v m = (Inr (), m\<lparr>vm_store := kv_put k v (vm_store m)\<rparr>)"
  "vera_delete k m = (Inr (), m\<lparr>vm_store := kv_delete k (vm_store m)\<rparr>)"
  by (simp_all add: vera_put_def vera_delete_def)

text \<open>What a successful write leaves, and that a failed one leaves nothing.\<close>

definition old_deadline :: "vera_libs \<Rightarrow> kv_store \<Rightarrow> jws_token_record \<Rightarrow> bytes option" where
  "old_deadline vl s rec = Option.bind (tok vl s (jt_token_hash rec)) token_expiry_key"

lemma set_token_view:
  assumes ok: "token_ok vl m" and run: "set_jws_token vl rec m = (r, m')"
  shows "(is_ok r \<longrightarrow> selector (jt_token_hash rec) \<and> selector (jt_issuer_did rec) \<and>
      (jt_authorized_account rec \<noteq> [] \<longrightarrow> selector (jt_authorized_account rec)) \<and>
      (\<exists>bs config. borsh_token vl rec = Inr bs \<and> get_chain_config vl m = Inr config \<and>
        (jt_authorized_account rec = [] \<longrightarrow> cc_ignore_bearer_auth config) \<and> kv_wf (vm_store m') \<and>
        (\<forall>k. kv_view (vm_store m') k =
          (if account_index rec = Some k then Some [CHR 0x01]
           else if did_index rec = Some k then Some [CHR 0x01]
           else if k = jws_token_key (jt_token_hash rec) then Some bs
           else if token_expiry_key rec = Some k then Some []
           else if old_deadline vl (vm_store m) rec = Some k then None
           else kv_view (vm_store m) k)))) \<and> (\<not> is_ok r \<longrightarrow> m' = m)"
proof -
  note wf = tok_wf(1) [OF ok] and get = tok_get [OF ok, of "jt_token_hash rec"]
  show ?thesis
  proof (cases "is_ok r")
    case False
    then show ?thesis using run get
      by (auto simp: set_jws_token_def st_bind_def is_ok_def split: sum.splits option.splits if_splits prod.splits)
  next
    case True
    then have "r = Inr ()" by (cases r) simp_all
    with run obtain config bs where c: "selector (jt_token_hash rec)" "selector (jt_issuer_did rec)"
      "jt_authorized_account rec \<noteq> [] \<longrightarrow> selector (jt_authorized_account rec)" "get_chain_config vl m = Inr config"
      "jt_authorized_account rec = [] \<longrightarrow> cc_ignore_bearer_auth config" "borsh_token vl rec = Inr bs"
      by (auto simp: set_jws_token_def result_simps split: if_splits)
    have sel: "validate_token_selector (jt_token_hash rec) = Inr ()" "validate_token_selector (jt_issuer_did rec) = Inr ()"
      "(if jt_authorized_account rec \<noteq> [] then validate_token_selector (jt_authorized_account rec) else Inr ()) = Inr ()"
      using c(1-3) by simp_all
    have m': "m' = m\<lparr>vm_store := (let s0 = vm_store m;
        s1 = (case old_deadline vl s0 rec of None \<Rightarrow> s0 | Some k \<Rightarrow> kv_delete k s0);
        s2 = (case token_expiry_key rec of None \<Rightarrow> s1 | Some k \<Rightarrow> kv_put k [] s1);
        s3 = kv_put (jws_token_by_did_key (jt_issuer_did rec) (jt_token_hash rec)) [CHR 0x01]
          (kv_put (jws_token_key (jt_token_hash rec)) bs s2) in
        case account_index rec of None \<Rightarrow> s3 | Some k \<Rightarrow> kv_put k [CHR 0x01] s3)\<rparr>"
      using run sel c get
      by (auto simp: set_jws_token_def st_bind_def Let_def old_deadline_def account_index_def split: option.splits)
    show ?thesis using True c wf
      by (auto simp: m' Let_def did_index_def split: option.splits)
  qed
qed

definition token_codec_ok :: "vera_libs \<Rightarrow> bool" where
  "token_codec_ok vl \<longleftrightarrow> (\<forall>r bs. borsh_token vl r = Inr bs \<longrightarrow> unborsh_token vl bs = Inr r)"

text \<open>A record may replace the stored one when both name the same issuer and account.\<close>

definition same_parties :: "vera_libs \<Rightarrow> kv_store \<Rightarrow> jws_token_record \<Rightarrow> bool" where
  "same_parties vl s rec \<longleftrightarrow> (\<forall>old. tok vl s (jt_token_hash rec) = Some old \<longrightarrow>
     jt_issuer_did old = jt_issuer_did rec \<and> jt_authorized_account old = jt_authorized_account rec)"

lemma tokens_hash: "r \<in> tokens vl s \<Longrightarrow> tok vl s (jt_token_hash r) = Some r"
  unfolding tokens_def by (rule CollectD)

lemma tokens_fields: "token_ok vl m \<Longrightarrow> r \<in> tokens vl (vm_store m) \<Longrightarrow> token_fields_ok r"
  by (rule tok_record(2)) (auto dest: tokens_hash)

lemma set_token_tok:
  assumes codec: "token_codec_ok vl" and bs: "borsh_token vl rec = Inr bs"
    and view: "\<And>h. kv_view s' (jws_token_key h) = (if h = jt_token_hash rec then Some bs else kv_view s (jws_token_key h))"
  shows "tok vl s' = (tok vl s)(jt_token_hash rec \<mapsto> rec)"
  using assms by (auto simp: tok_def fun_eq_iff token_codec_ok_def)

lemma tokens_update:
  assumes "tok vl s' = (tok vl s)(jt_token_hash rec \<mapsto> rec)"
  shows "tokens vl s' = insert rec {r \<in> tokens vl s. jt_token_hash r \<noteq> jt_token_hash rec}"
  unfolding tokens_def assms by (auto split: if_splits)

lemma index_not_primary [simp]:
  "account_index r \<noteq> Some (jws_token_key h)" "did_index r \<noteq> Some (jws_token_key h)"
  "token_expiry_key r \<noteq> Some (jws_token_key h)" "old_deadline vl s r \<noteq> Some (jws_token_key h)"
  by (auto simp: account_index_def did_index_def token_expiry_key_def old_deadline_def jws_token_key_def vera_key_consts
      jws_token_by_account_key_def jws_token_by_did_key_def bind_eq_Some_conv split: if_splits)

lemma index_prefix:
  "account_index r = Some k \<Longrightarrow> prefix JWS_TOKEN_BY_ACCOUNT_PREFIX k" "did_index r = Some k \<Longrightarrow> prefix JWS_TOKEN_BY_DID_PREFIX k"
  "old_deadline vl s r = Some k \<Longrightarrow> prefix JWS_TOKEN_EXPIRY_PREFIX k"
  by (auto simp: account_index_def did_index_def old_deadline_def bind_eq_Some_conv split: if_splits)

lemma space_unique:
  assumes "prefix p k" and "p \<in> token_spaces" and "q \<in> token_spaces"
  shows "prefix q k \<longleftrightarrow> p = q"
  using spaces_disjoint [OF assms(2,3,1)] assms(1) by blast

lemma primary_apart:
  "prefix JWS_TOKEN_BY_DID_PREFIX k \<Longrightarrow> k \<noteq> jws_token_key h" "prefix JWS_TOKEN_BY_ACCOUNT_PREFIX k \<Longrightarrow> k \<noteq> jws_token_key h"
  "prefix JWS_TOKEN_EXPIRY_PREFIX k \<Longrightarrow> k \<noteq> jws_token_key h"
  by (auto simp: jws_token_key_def vera_key_consts)

lemma set_token_indexes:
  assumes ok: "token_ok vl m" and rec: "token_fields_ok rec" and same: "same_parties vl (vm_store m) rec"
    and tk: "tok vl s' = (tok vl (vm_store m))(jt_token_hash rec \<mapsto> rec)"
    and view: "\<And>k. kv_view s' k =
      (if account_index rec = Some k then Some [CHR 0x01]
       else if did_index rec = Some k then Some [CHR 0x01]
       else if k = jws_token_key (jt_token_hash rec) then Some bs
       else if token_expiry_key rec = Some k then Some []
       else if old_deadline vl (vm_store m) rec = Some k then None
       else kv_view (vm_store m) k)"
  shows "token_index JWS_TOKEN_BY_DID_PREFIX did_index [CHR 0x01] vl s' \<and>
    token_index JWS_TOKEN_BY_ACCOUNT_PREFIX account_index [CHR 0x01] vl s' \<and>
    token_index JWS_TOKEN_EXPIRY_PREFIX token_expiry_key [] vl s'"
proof -
  let ?s = "vm_store m"
  note fields = tokens_fields [OF ok] and upd = tokens_update [OF tk]
  have ix: "token_index JWS_TOKEN_BY_DID_PREFIX did_index [CHR 0x01] vl ?s"
    "token_index JWS_TOKEN_BY_ACCOUNT_PREFIX account_index [CHR 0x01] vl ?s"
    "token_index JWS_TOKEN_EXPIRY_PREFIX token_expiry_key [] vl ?s"
    using ok by (simp_all add: token_ok_def)
  have owner: "jt_issuer_did r = jt_issuer_did rec \<and> jt_authorized_account r = jt_authorized_account rec"
    if "r \<in> tokens vl ?s" "jt_token_hash r = jt_token_hash rec" for r
    using same tokens_hash [OF that(1)] that(2) unfolding same_parties_def by metis
  have dids: "kv_view s' k = (if did_index rec = Some k then Some [CHR 0x01] else kv_view ?s k)"
    if "prefix JWS_TOKEN_BY_DID_PREFIX k" for k
    using view [of k] index_prefix(1,2) [of rec k] index_prefix(3) [of vl ?s rec k] token_prefixes(3) [of rec k]
      space_unique [OF that in_spaces(2)] primary_apart(1) [OF that, of "jt_token_hash rec"] by auto
  have accts: "kv_view s' k = (if account_index rec = Some k then Some [CHR 0x01] else kv_view ?s k)"
    if "prefix JWS_TOKEN_BY_ACCOUNT_PREFIX k" for k
    using view [of k] index_prefix(1,2) [of rec k] index_prefix(3) [of vl ?s rec k] token_prefixes(3) [of rec k]
      space_unique [OF that in_spaces(3)] primary_apart(2) [OF that, of "jt_token_hash rec"] by auto
  have deadlines: "kv_view s' k = (if token_expiry_key rec = Some k then Some []
      else if old_deadline vl ?s rec = Some k then None else kv_view ?s k)"
    if "prefix JWS_TOKEN_EXPIRY_PREFIX k" for k
    using view [of k] index_prefix(1,2) [of rec k] space_unique [OF that in_spaces(4)]
      primary_apart(3) [OF that, of "jt_token_hash rec"] by auto
  have "token_index JWS_TOKEN_BY_DID_PREFIX did_index [CHR 0x01] vl s'"
    by (rule token_index_update [OF ix(1) keys_separate(1) fields rec upd, where gone = None])
      (use dids owner in \<open>auto simp: did_index_def\<close>)
  moreover have "token_index JWS_TOKEN_BY_ACCOUNT_PREFIX account_index [CHR 0x01] vl s'"
    by (rule token_index_update [OF ix(2) keys_separate(2) fields rec upd, where gone = None])
      (use accts owner index_prefix(1) in \<open>auto simp: account_index_def\<close>)
  moreover have "token_index JWS_TOKEN_EXPIRY_PREFIX token_expiry_key [] vl s'"
  proof (rule token_index_update [OF ix(3) keys_separate(3) fields rec upd, where gone = "old_deadline vl ?s rec"])
    fix r assume "r \<in> tokens vl ?s" "jt_token_hash r = jt_token_hash rec"
    then have "tok vl ?s (jt_token_hash rec) = Some r" using tokens_hash by metis
    then show "old_deadline vl ?s rec = token_expiry_key r \<or> token_expiry_key r = token_expiry_key rec"
      by (simp add: old_deadline_def)
  next
    fix k assume "old_deadline vl ?s rec = Some k"
    then obtain r where "tok vl ?s (jt_token_hash rec) = Some r" "token_expiry_key r = Some k"
      by (auto simp: old_deadline_def bind_eq_Some_conv)
    then show "\<exists>r \<in> tokens vl ?s. jt_token_hash r = jt_token_hash rec \<and> token_expiry_key r = Some k"
      using tok_record(1,3) [OF ok] by blast
  qed (use deadlines in auto)
  ultimately show ?thesis by blast
qed

text \<open>Writing a token keeps the registry consistent, whether it succeeds or not.\<close>

lemma set_token_ok:
  assumes ok: "token_ok vl m" and codec: "token_codec_ok vl" and run: "set_jws_token vl rec m = (r, m')"
    and utf: "from_utf8 (jt_token_hash rec) = Inr (jt_token_hash rec)" and same: "same_parties vl (vm_store m) rec"
  shows "token_ok vl m'" and "is_ok r \<Longrightarrow> tok vl (vm_store m') = (tok vl (vm_store m))(jt_token_hash rec \<mapsto> rec)"
    and "\<not> is_ok r \<Longrightarrow> m' = m"
proof -
  note all = set_token_view [OF ok run]
  show "\<not> is_ok r \<Longrightarrow> m' = m" using all by blast
  have tk: "tok vl (vm_store m') = (tok vl (vm_store m))(jt_token_hash rec \<mapsto> rec) \<and> token_ok vl m'" if good: "is_ok r"
  proof -
    from all good obtain bs config where sel: "selector (jt_token_hash rec)" "selector (jt_issuer_did rec)"
        "jt_authorized_account rec \<noteq> [] \<longrightarrow> selector (jt_authorized_account rec)"
      and bs: "borsh_token vl rec = Inr bs" and config: "get_chain_config vl m = Inr config"
        "jt_authorized_account rec = [] \<longrightarrow> cc_ignore_bearer_auth config"
      and wf: "kv_wf (vm_store m')"
      and view: "\<And>k. kv_view (vm_store m') k =
        (if account_index rec = Some k then Some [CHR 0x01]
         else if did_index rec = Some k then Some [CHR 0x01]
         else if k = jws_token_key (jt_token_hash rec) then Some bs
         else if token_expiry_key rec = Some k then Some []
         else if old_deadline vl (vm_store m) rec = Some k then None
         else kv_view (vm_store m) k)" by blast
    have fields: "token_fields_ok rec" using sel utf by (simp add: token_fields_ok_def)
    have tk: "tok vl (vm_store m') = (tok vl (vm_store m))(jt_token_hash rec \<mapsto> rec)"
      by (rule set_token_tok [OF codec bs]) (simp add: view)
    have rest: "kv_view (vm_store m') CHAIN_CONFIG_KEY = kv_view (vm_store m) CHAIN_CONFIG_KEY"
      "kv_view (vm_store m') VERA_PARAMS_KEY = kv_view (vm_store m) VERA_PARAMS_KEY"
      using view index_prefix config_keys_apart token_prefixes(3,4) in_spaces by metis+
    have cfg: "get_chain_config vl m' = Inr config" "vera_get_params vl m' = Inr ()"
      using config(1) tok_wf(2) [OF ok] by (simp_all add: get_chain_config_def vera_get_params_def rest)
    have primary: "\<exists>r. unborsh_token vl x = Inr r \<and> jt_token_hash r = h \<and> token_fields_ok r"
      if "kv_view (vm_store m') (jws_token_key h) = Some x" for h x
      using that ok codec bs fields by (auto simp: view token_ok_def token_codec_ok_def split: if_splits)
    have "jt_authorized_account r = [] \<longrightarrow> cc_ignore_bearer_auth config" if "r \<in> tokens vl (vm_store m')" for r
      using that config ok unfolding tokens_update [OF tk] token_ok_def by auto
    then show ?thesis
      using wf primary set_token_indexes [OF ok fields same tk view] cfg tk by (auto simp: token_ok_def)
  qed
  show "token_ok vl m'" using tk ok \<open>\<not> is_ok r \<Longrightarrow> m' = m\<close> by blast
  show "is_ok r \<Longrightarrow> tok vl (vm_store m') = (tok vl (vm_store m))(jt_token_hash rec \<mapsto> rec)" using tk by blast
qed

end
