(* ===== verification/Vera_Admin.thy ===== *)
theory Vera_Admin
  imports Vera_Tokens Acp_Ledger
begin

text \<open>
  Operator authority (\<open>vera/administration.rs\<close>) and consensus rosters (\<open>vera/membership.rs\<close>). An administrative request changes the Vera and the ACP module
  together; its handler works on the pair of them.
\<close>

section \<open>Operator policies\<close>

definition STATE_KEY :: bytes where "STATE_KEY = ''admin/v1''"
definition SIGNING_NAMESPACE :: bytes where "SIGNING_NAMESPACE = ''vera/admin/v1'' @ [CHR 0x00]"
definition MAX_OPERATORS :: nat where "MAX_OPERATORS = 128"

definition admin_invalid :: "string \<Rightarrow> vera_error" where
  "admin_invalid e = InvalidAdministrativeRequest e"

definition operator_key_check :: "vera_libs \<Rightarrow> string \<Rightarrow> vera_error + unit" where
  "operator_key_check vl key =
     (if length key \<noteq> 66 then Inl (admin_invalid ''operator keys must contain 33 bytes'')
      else
        res_bind (map_err admin_invalid (hex_decode vl key)) (\<lambda>bs.
        if vera_hex vl bs \<noteq> key then Inl (admin_invalid ''operator keys must use lowercase hexadecimal'')
        else res_bind (map_err admin_invalid (decode_pubkey (jwt_codecs vl) bs)) (\<lambda>_. Inr ())))"

definition operator_policy_validate :: "vera_libs \<Rightarrow> operator_policy \<Rightarrow> vera_error + unit" where
  "operator_policy_validate vl p =
     (if op_threshold p = 0 \<or> op_threshold p > length (op_keys p) \<or> length (op_keys p) > MAX_OPERATORS
         \<or> any_adjacent (\<lambda>a b. a \<ge> b) (op_keys p)
      then Inl (admin_invalid ''invalid operator threshold or key order'')
      else check_all (operator_key_check vl) (op_keys p))"

definition signing_digest :: "vera_libs \<Rightarrow> administrative_request \<Rightarrow> vera_error + bytes" where
  "signing_digest vl request =
     res_bind (map_err admin_invalid (borsh_admin_request vl request)) (\<lambda>bs.
     Inr (vera_sha vl (SIGNING_NAMESPACE @ bs)))"


section \<open>Administrative requests\<close>

definition administration :: "vera_libs \<Rightarrow> vera_module \<Rightarrow> vera_error + administration_state option" where
  "administration vl m =
     (case kv_get (vm_store m) STATE_KEY of
        None \<Rightarrow> Inr None
      | Some bs \<Rightarrow> res_bind (map_err VeraState (unborsh_administration vl bs)) (\<lambda>state. Inr (Some state)))"

definition initialize_administration :: "vera_libs \<Rightarrow> operator_policy \<Rightarrow> unit vera" where
  "initialize_administration vl p =
     st_bind (st_lift (operator_policy_validate vl p)) (\<lambda>_.
     st_bind (st_read (\<lambda>m. if kv_has (vm_store m) STATE_KEY
                            then Inl (admin_invalid ''operator authority is already initialized'') else Inr ())) (\<lambda>_.
     st_bind (st_lift (map_err admin_invalid (borsh_administration vl
                \<lparr>as_policy = p, as_sequence = 0, as_membership_policy = None\<rparr>))) (\<lambda>bs.
     vera_put STATE_KEY bs)))"

type_synonym 'a admin = "(vera_module \<times> acp_module, vera_error, 'a) stm"

definition on_vera :: "(vera_error \<Rightarrow> vera_error) \<Rightarrow> 'a vera \<Rightarrow> 'a admin" where
  "on_vera f c = (\<lambda>(v, a). case c v of (r, v') \<Rightarrow> (map_err f r, (v', a)))"

definition on_acp :: "(acp_error \<Rightarrow> vera_error) \<Rightarrow> 'a acp \<Rightarrow> 'a admin" where
  "on_acp f c = (\<lambda>(v, a). case c a of (r, a') \<Rightarrow> (map_err f r, (v, a')))"

definition nested :: "vera_error \<Rightarrow> vera_error" where
  "nested e = admin_invalid (vera_error_to_string e)"

definition nested_acp :: "acp_error \<Rightarrow> vera_error" where
  "nested_acp e = admin_invalid (acp_error_to_string e)"

definition approval_check ::
  "vera_libs \<Rightarrow> operator_policy \<Rightarrow> bytes \<Rightarrow> operator_approval \<Rightarrow> vera_error + unit" where
  "approval_check vl p digest approval =
     (if oa_signer approval \<ge> length (op_keys p) then Inl (admin_invalid ''operator index is outside the policy'')
      else
        let key = op_keys p ! oa_signer approval in
        if length (oa_signature approval) \<noteq> 128 then Inl (admin_invalid ''operator signature must contain 64 bytes'')
        else
          res_bind (map_err admin_invalid (hex_decode vl (oa_signature approval))) (\<lambda>signature.
          if vera_hex vl signature \<noteq> oa_signature approval
          then Inl (admin_invalid ''operator signature must use lowercase hexadecimal'')
          else
            res_bind (map_err admin_invalid (hex_decode vl key)) (\<lambda>key_bytes.
            map_err admin_invalid (verify_digest (jwt_codecs vl) key_bytes digest signature))))"

definition check_approvals ::
  "vera_libs \<Rightarrow> administration_state \<Rightarrow> bytes \<Rightarrow> u64 \<Rightarrow> signed_administrative_request \<Rightarrow> vera_error + unit" where
  "check_approvals vl state genesis_id now req =
     (let request = sr_request req in
      if genesis_id = zero32 \<or> aq_genesis_id request \<noteq> genesis_id \<or> aq_sequence request \<noteq> as_sequence state
         \<or> aq_expires_at request < now
      then Inl (admin_invalid ''deployment, sequence or expiration mismatch'')
      else if length (sr_approvals req) < op_threshold (as_policy state)
         \<or> length (sr_approvals req) > length (op_keys (as_policy state))
         \<or> any_adjacent (\<lambda>a b. oa_signer a \<ge> oa_signer b) (sr_approvals req)
      then Inl (admin_invalid ''insufficient or duplicate operator approvals'')
      else
        res_bind (signing_digest vl request) (\<lambda>digest.
        check_all (approval_check vl (as_policy state) digest) (sr_approvals req)))"

text \<open>The state after the request: the next sequence, and the operators or the membership policy it sets.\<close>

definition next_administration ::
  "vera_libs \<Rightarrow> acp_module \<Rightarrow> administration_state \<Rightarrow> administrative_command \<Rightarrow> vera_error + administration_state" where
  "next_administration vl acp state command =
     res_bind (ok_or (admin_invalid ''administrative sequence is exhausted'') (checked_add (as_sequence state) 1)) (\<lambda>next_seq.
     let state1 = state\<lparr>as_sequence := next_seq\<rparr> in
     case command of
       RotateOperators p \<Rightarrow> res_bind (operator_policy_validate vl p) (\<lambda>_. Inr (state1\<lparr>as_policy := p\<rparr>))
     | InitializeMembershipPolicy policy_id \<Rightarrow>
         if as_membership_policy state1 \<noteq> None \<or> policy_id = zero32
         then Inl (admin_invalid ''membership policy is already configured or invalid'')
         else res_bind (map_err nested_acp (query_policy (acp_codecs vl) acp (vera_hex vl policy_id))) (\<lambda>_.
              Inr (state1\<lparr>as_membership_policy := Some policy_id\<rparr>))
     | _ \<Rightarrow> Inr state1)"

definition run_admin_command :: "vera_libs \<Rightarrow> u64 \<Rightarrow> administrative_request \<Rightarrow> unit admin" where
  "run_admin_command vl now request =
     (case aq_command request of
        SetAcpParameters parameters \<Rightarrow> on_acp nested_acp (set_params (acp_codecs vl) parameters)
      | SetRelay grant \<Rightarrow> on_vera nested (set_relay vl grant (aq_sequence request) now)
      | RevokeRelay issuer \<Rightarrow> on_vera nested (revoke_relay vl issuer)
      | SetOperationBudget bs \<Rightarrow> on_acp nested_acp (set_operation_budget bs)
      | _ \<Rightarrow> st_ret ())"

definition apply_administrative_request ::
  "vera_libs \<Rightarrow> bytes \<Rightarrow> u64 \<Rightarrow> signed_administrative_request \<Rightarrow> unit admin" where
  "apply_administrative_request vl genesis_id now req =
     st_bind (st_read (\<lambda>(v, a). res_bind (administration vl v) (\<lambda>found.
                ok_or (admin_invalid ''operator authority is not configured'') found))) (\<lambda>state.
     st_bind (st_lift (check_approvals vl state genesis_id now req)) (\<lambda>_.
     st_bind (st_read (\<lambda>(v, a). next_administration vl a state (aq_command (sr_request req)))) (\<lambda>state'.
     st_bind (st_lift (map_err admin_invalid (borsh_administration vl state'))) (\<lambda>encoded_state.
     st_bind (run_admin_command vl now (sr_request req)) (\<lambda>_.
     on_vera id (vera_put STATE_KEY encoded_state))))))"


section \<open>Consensus rosters\<close>

definition ROSTER_PREFIX :: bytes where "ROSTER_PREFIX = ''consensus_roster/''"

definition roster_key :: "u64 \<Rightarrow> bytes" where
  "roster_key epoch = ROSTER_PREFIX @ to_be_bytes epoch"

definition consensus_roster :: "vera_module \<Rightarrow> u64 \<Rightarrow> bytes option" where
  "consensus_roster m epoch = get_ref (vm_store m) (roster_key epoch)"

fun vera_delete_keys :: "bytes list \<Rightarrow> unit vera" where
  "vera_delete_keys [] = st_ret ()"
| "vera_delete_keys (key # rest) = st_bind (vera_delete key) (\<lambda>_. vera_delete_keys rest)"

definition record_consensus_roster :: "u64 \<Rightarrow> bytes list \<Rightarrow> unit vera" where
  "record_consensus_roster epoch ks =
     (if ks = [] \<or> any_adjacent (\<lambda>a b. \<not> a < b) ks
      then st_fail (VeraState ''consensus roster must be nonempty and strictly sorted'')
      else
        st_bind (st_read (\<lambda>m. Inr (consensus_roster m epoch))) (\<lambda>existing.
        case existing of
          Some e \<Rightarrow> if e = concat ks then st_ret () else st_fail (VeraState ''consensus roster already selected'')
        | None \<Rightarrow>
            st_bind (st_read (\<lambda>m. let entries = prefix_iter (vm_store m) ROSTER_PREFIX in
                       if entries \<noteq> [] \<and> fst (last entries) \<ge> roster_key epoch
                       then Inl (VeraState ''consensus roster is older than the retained window'')
                       else Inr (map fst (takeWhile (\<lambda>(key, _). key < roster_key (saturating_sub epoch 2)) entries)))) (\<lambda>expired.
            st_bind (vera_delete_keys expired) (\<lambda>_.
            vera_put (roster_key epoch) (concat ks)))))"

end
