(* ===== verification/Vera_Safety.thy ===== *)
theory Vera_Safety
  imports Vera_Admin
begin

text \<open>
  Every operation the node runs on the Vera module keeps the token registry consistent and never revives an
  invalid token: a small logic of such computations (\<open>preserving\<close>), and the operations derived in it.
\<close>

section \<open>Operations on the registry\<close>

definition stays_invalid :: "vera_libs \<Rightarrow> kv_store \<Rightarrow> kv_store \<Rightarrow> bool" where
  "stays_invalid vl s s' \<longleftrightarrow> (\<forall>h r. tok vl s h = Some r \<longrightarrow> jt_status r = TokenInvalid \<longrightarrow>
     (\<exists>r'. tok vl s' h = Some r' \<and> jt_status r' = TokenInvalid))"

definition preserving :: "vera_libs \<Rightarrow> 'a vera \<Rightarrow> bool" where
  "preserving vl c \<longleftrightarrow> (\<forall>m r m'. token_ok vl m \<longrightarrow> c m = (r, m') \<longrightarrow> token_ok vl m' \<and> stays_invalid vl (vm_store m) (vm_store m'))"

named_theorems safe_rules \<open>computations that keep the registry consistent\<close>

lemma stays_invalid_refl: "stays_invalid vl s s"
  by (simp add: stays_invalid_def)

lemma stays_invalid_trans: "stays_invalid vl s s' \<Longrightarrow> stays_invalid vl s' s'' \<Longrightarrow> stays_invalid vl s s''"
  unfolding stays_invalid_def by blast

lemma preservingD:
  assumes "preserving vl c" and "token_ok vl m" and "c m = (r, m')"
  shows "token_ok vl m'" and "stays_invalid vl (vm_store m) (vm_store m')"
  using assms unfolding preserving_def by blast+

lemma safe_reads [safe_rules]:
  "preserving vl (st_ret x)" "preserving vl (st_fail e)" "preserving vl (st_lift y)" "preserving vl (st_read f)"
  by (simp_all add: preserving_def stays_invalid_refl)

lemma preserving_bind [safe_rules]:
  assumes "preserving vl c" and "\<And>x. preserving vl (g x)"
  shows "preserving vl (st_bind c g)"
  unfolding preserving_def
proof (intro allI impI)
  fix m r m' assume ok: "token_ok vl m" and run: "st_bind c g m = (r, m')"
  obtain r1 m1 where c: "c m = (r1, m1)" by fastforce
  note c' = preservingD [OF assms(1) ok c]
  show "token_ok vl m' \<and> stays_invalid vl (vm_store m) (vm_store m')"
  proof (cases r1)
    case (Inl e)
    with run c c' show ?thesis by (simp add: st_bind_def)
  next
    case (Inr x)
    with run c have "g x m1 = (r, m')" by (simp add: st_bind_def)
    from preservingD [OF assms(2) c'(1) this] c'(2) show ?thesis by (blast intro: stays_invalid_trans)
  qed
qed

lemma safe_split [safe_rules]: "preserving vl x \<Longrightarrow> preserving vl y \<Longrightarrow> preserving vl (if b then x else y)"
  by simp

text \<open>A record read from the registry may be written back with another status or other usage times, as long
  as an invalid token stays invalid.\<close>

lemma safe_set:
  assumes ok: "token_ok vl m" and codec: "token_codec_ok vl" and run: "set_jws_token vl rec m = (r, m')"
    and old: "case tok vl (vm_store m) (jt_token_hash rec) of
        None \<Rightarrow> from_utf8 (jt_token_hash rec) = Inr (jt_token_hash rec)
      | Some q \<Rightarrow> jt_issuer_did q = jt_issuer_did rec \<and> jt_authorized_account q = jt_authorized_account rec \<and>
          (jt_status q = TokenInvalid \<longrightarrow> jt_status rec = TokenInvalid)"
  shows "token_ok vl m' \<and> stays_invalid vl (vm_store m) (vm_store m')"
proof -
  have utf: "from_utf8 (jt_token_hash rec) = Inr (jt_token_hash rec)"
  proof (cases "tok vl (vm_store m) (jt_token_hash rec)")
    case (Some q)
    then show ?thesis using tok_record(1,2) [OF ok Some] by (simp add: token_fields_ok_def)
  qed (use old in simp)
  have same: "same_parties vl (vm_store m) rec" using old by (auto simp: same_parties_def split: option.splits)
  note set = set_token_ok [OF ok codec run utf same]
  show ?thesis
  proof (cases "is_ok r")
    case False
    then show ?thesis using set(1,3) by (simp add: stays_invalid_refl)
  next
    case True
    then show ?thesis using set(1,2) old by (auto simp: stays_invalid_def split: option.splits)
  qed
qed

lemma found_token_run:
  assumes "token_ok vl m" and "st_bind (found_token vl h) g m = (r, m')"
  shows "m' = m \<or> (\<exists>q. tok vl (vm_store m) h = Some q \<and> g q m = (r, m'))"
  using assms tok_get [OF assms(1), of h]
  by (cases "tok vl (vm_store m) h") (auto simp: found_token_def st_bind_def)

lemma usage_safe [safe_rules]:
  assumes codec: "token_codec_ok vl"
  shows "preserving vl (record_jws_token_usage vl block h)"
  unfolding preserving_def
proof (intro allI impI)
  fix m r m' assume ok: "token_ok vl m" and run: "record_jws_token_usage vl block h m = (r, m')"
  from found_token_run [OF ok run [unfolded record_jws_token_usage_def]]
  show "token_ok vl m' \<and> stays_invalid vl (vm_store m) (vm_store m')"
  proof (elim disjE exE conjE)
    fix q assume q: "tok vl (vm_store m) h = Some q" and run: "(if jt_status q \<noteq> TokenValid \<or>
        ts_seconds (jt_expires_at q) \<noteq> 0 \<and> ts_seconds (jt_expires_at q) < ts_seconds (bx_timestamp block)
      then st_fail (InvalidJws ''token is invalid or expired'')
      else let record' = case jt_first_used_at q of None \<Rightarrow> q\<lparr>jt_first_used_at := Some (bx_timestamp block)\<rparr> | Some x \<Rightarrow> q
        in set_jws_token vl (record'\<lparr>jt_last_used_at := Some (bx_timestamp block)\<rparr>)) m = (r, m')"
    note h = tok_record(1) [OF ok q]
    show ?thesis
    proof (cases "m' = m")
      case False
      with run obtain q' where w: "set_jws_token vl q' m = (r, m')" "jt_token_hash q' = h" "jt_issuer_did q' = jt_issuer_did q"
        "jt_authorized_account q' = jt_authorized_account q" "jt_status q \<noteq> TokenInvalid"
        using h by (auto simp: Let_def split: if_splits option.splits)
      show ?thesis by (rule safe_set [OF ok codec w(1)]) (use w q in simp)
    qed (use ok stays_invalid_refl in simp)
  qed (use ok stays_invalid_refl in simp)
qed

lemma invalidate_safe [safe_rules]:
  assumes codec: "token_codec_ok vl"
  shows "preserving vl (update_jws_token_status vl block h TokenInvalid by_whom)"
  unfolding preserving_def
proof (intro allI impI)
  fix m r m' assume ok: "token_ok vl m" and run: "update_jws_token_status vl block h TokenInvalid by_whom m = (r, m')"
  from found_token_run [OF ok run [unfolded update_jws_token_status_def]]
  show "token_ok vl m' \<and> stays_invalid vl (vm_store m) (vm_store m')"
  proof (elim disjE exE conjE)
    fix q assume q: "tok vl (vm_store m) h = Some q" and run: "(let record1 = q\<lparr>jt_status := TokenInvalid\<rparr>;
         record2 = if TokenInvalid = TokenInvalid
                   then let r = record1\<lparr>jt_invalidated_at := Some (bx_timestamp block)\<rparr>
                        in if by_whom \<noteq> [] then r\<lparr>jt_invalidated_by := by_whom\<rparr> else r
                   else record1
       in st_bind (set_jws_token vl record2) (\<lambda>_. st_ret record2)) m = (r, m')"
    note h = tok_record(1) [OF ok q]
    obtain q' r0 where w: "set_jws_token vl q' m = (r0, m')" "jt_token_hash q' = h" "jt_issuer_did q' = jt_issuer_did q"
      "jt_authorized_account q' = jt_authorized_account q" "jt_status q' = TokenInvalid"
      using run h by (auto simp: Let_def st_bind_def split: if_splits prod.splits sum.splits)
    show ?thesis by (rule safe_set [OF ok codec w(1)]) (use w q in simp)
  qed (use ok stays_invalid_refl in simp)
qed

text \<open>Hexadecimal text is ASCII.\<close>

definition hex_ascii :: "vera_libs \<Rightarrow> bool" where
  "hex_ascii vl \<longleftrightarrow> (\<forall>bs. \<forall>c \<in> set (vera_hex vl bs). (of_char c :: nat) < 0x80)"

lemma hash_utf8: "hex_ascii vl \<Longrightarrow> from_utf8 (hash_jws_token vl token) = Inr (hash_jws_token vl token)"
  unfolding hash_jws_token_def hex_ascii_def by (intro from_utf8_ascii) blast

lemma store_safe [safe_rules]:
  assumes codec: "token_codec_ok vl" and hex: "hex_ascii vl"
  shows "preserving vl (store_or_update_jws_token vl block token issuer account issued expires)"
  unfolding preserving_def
proof (intro allI impI)
  fix m r m' assume ok: "token_ok vl m" and run: "store_or_update_jws_token vl block token issuer account issued expires m = (r, m')"
  let ?h = "hash_jws_token vl token"
  show "token_ok vl m' \<and> stays_invalid vl (vm_store m) (vm_store m')"
  proof (cases "tok vl (vm_store m) ?h")
    case (Some q)
    then have "record_jws_token_usage vl block ?h m = (r, m')"
      using run tok_get [OF ok, of ?h] by (simp add: store_or_update_jws_token_def st_bind_def Let_def)
    then show ?thesis using usage_safe [OF codec] ok unfolding preserving_def by blast
  next
    case None
    then consider "m' = m" | rec where "set_jws_token vl rec m = (r, m')" "jt_token_hash rec = ?h"
      using run tok_get [OF ok, of ?h] by (auto simp: store_or_update_jws_token_def st_bind_def Let_def split: if_splits)
    then show ?thesis
    proof cases
      case (2 rec)
      show ?thesis by (rule safe_set [OF ok codec 2(1)]) (use 2(2) None hash_utf8 [OF hex] in simp)
    qed (use ok stays_invalid_refl in simp)
  qed
qed

lemma invalidate_jws_safe [safe_rules]: "token_codec_ok vl \<Longrightarrow> preserving vl (invalidate_jws vl block tx creator h)"
  unfolding invalidate_jws_def found_token_def Let_def by (intro safe_rules)

lemma invalidate_all_safe [safe_rules]: "token_codec_ok vl \<Longrightarrow> preserving vl (invalidate_all vl block hs)"
proof (induction hs)
  case (Cons h hs)
  then show ?case unfolding invalidate_all.simps by (intro safe_rules)
qed (simp add: safe_reads)

lemma expiry_safe [safe_rules]: "token_codec_ok vl \<Longrightarrow> preserving vl (check_and_update_expired_tokens vl block)"
  unfolding check_and_update_expired_tokens_def by (intro safe_rules)

lemma revoke_safe [safe_rules]:
  assumes codec: "token_codec_ok vl" and hex: "hex_ascii vl"
  shows "preserving vl (revoke_delegation vl block caller token)"
  unfolding preserving_def
proof (intro allI impI)
  fix m r m' assume ok: "token_ok vl m" and run: "revoke_delegation vl block caller token m = (r, m')"
  let ?h = "hash_jws_token vl token"
  consider "m' = m" | rec r0 where "set_jws_token vl rec m = (r0, m')" "jt_status rec = TokenInvalid" "jt_token_hash rec = ?h"
      "\<forall>q. tok vl (vm_store m) ?h = Some q \<longrightarrow> jt_issuer_did q = jt_issuer_did rec \<and> jt_authorized_account q = jt_authorized_account rec"
    using run tok_get [OF ok, of ?h] tok_record(1) [OF ok, of ?h]
    by (cases "tok vl (vm_store m) ?h")
      (auto simp: revoke_delegation_def st_bind_def Let_def split: if_splits prod.splits sum.splits)
  then show "token_ok vl m' \<and> stays_invalid vl (vm_store m) (vm_store m')"
  proof cases
    case (2 rec r0)
    show ?thesis by (rule safe_set [OF ok codec 2(1)]) (use 2 hash_utf8 [OF hex] in \<open>auto split: option.split\<close>)
  qed (use ok stays_invalid_refl in simp)
qed

text \<open>Keys outside the registry.\<close>

definition foreign :: "bytes \<Rightarrow> bool" where
  "foreign k \<longleftrightarrow> (\<forall>p \<in> token_spaces. \<not> prefix p k) \<and> k \<noteq> CHAIN_CONFIG_KEY \<and> k \<noteq> VERA_PARAMS_KEY"

lemma foreign_view:
  assumes ok: "token_ok vl m" and wf: "kv_wf (vm_store m')"
    and same: "\<And>k. \<not> foreign k \<Longrightarrow> kv_view (vm_store m') k = kv_view (vm_store m) k"
  shows "token_ok vl m' \<and> stays_invalid vl (vm_store m) (vm_store m')"
proof -
  have space: "kv_view (vm_store m') k = kv_view (vm_store m) k" if "p \<in> token_spaces" "prefix p k" for p k
    using same that by (auto simp: foreign_def)
  have tk: "tok vl (vm_store m') = tok vl (vm_store m)"
    using space [OF in_spaces(1) token_prefixes(4)] by (simp add: tok_def fun_eq_iff)
  then have ts: "tokens vl (vm_store m') = tokens vl (vm_store m)" by (simp add: tokens_def)
  have ix: "token_index p key mark vl (vm_store m') = token_index p key mark vl (vm_store m)" if "p \<in> token_spaces" for p key mark
  proof -
    have "(kv_view (vm_store m') k = Some v \<and> prefix p k) = (kv_view (vm_store m) k = Some v \<and> prefix p k)" for k v
      using space [OF that] by auto
    then show ?thesis by (simp add: token_index_def ts)
  qed
  have "kv_view (vm_store m') CHAIN_CONFIG_KEY = kv_view (vm_store m) CHAIN_CONFIG_KEY"
    "kv_view (vm_store m') VERA_PARAMS_KEY = kv_view (vm_store m) VERA_PARAMS_KEY"
    using same by (simp_all add: foreign_def)
  then have "get_chain_config vl m' = get_chain_config vl m" "vera_get_params vl m' = vera_get_params vl m"
    by (simp_all add: get_chain_config_def vera_get_params_def)
  with ok wf ix ts space [OF in_spaces(1) token_prefixes(4)] tk show ?thesis
    by (simp add: token_ok_def stays_invalid_refl stays_invalid_def)
qed

lemma foreign_write:
  assumes "foreign k" and "token_ok vl m" and "m' \<in> {m\<lparr>vm_store := kv_put k v (vm_store m)\<rparr>, m\<lparr>vm_store := kv_delete k (vm_store m)\<rparr>}"
  shows "token_ok vl m' \<and> stays_invalid vl (vm_store m) (vm_store m')"
  by (rule foreign_view [OF assms(2)]) (use assms tok_wf(1) [OF assms(2)] in auto)

lemma safe_foreign:
  assumes "foreign k"
  shows "preserving vl (vera_put k v)" and "preserving vl (vera_delete k)"
proof -
  show "preserving vl (vera_put k v)"
    unfolding preserving_def by (intro allI impI, rule foreign_write [OF assms, where v = v], assumption) (auto simp: vera_put_def st_modify_def)
  show "preserving vl (vera_delete k)"
    unfolding preserving_def by (intro allI impI, rule foreign_write [OF assms], assumption) (auto simp: vera_delete_def st_modify_def)
qed

lemma relay_foreign: "relay_key vl issuer = Inr k \<Longrightarrow> foreign k"
  by (auto simp: relay_key_def foreign_def token_spaces_def vera_key_consts split: if_splits)

lemma relay_safe [safe_rules]: "preserving vl (set_relay vl grant sequence now)" "preserving vl (revoke_relay vl issuer)"
proof -
  have given: "preserving vl (st_bind (st_lift y) g)" if "\<And>x. y = Inr x \<Longrightarrow> preserving vl (g x)" for y :: "vera_error + bytes" and g :: "bytes \<Rightarrow> unit vera"
    using that by (cases y) (auto simp: preserving_def st_bind_def stays_invalid_refl)
  show "preserving vl (set_relay vl grant sequence now)" "preserving vl (revoke_relay vl issuer)"
    unfolding set_relay_def revoke_relay_def by (intro given safe_rules safe_foreign relay_foreign, assumption)+
qed

lemma admin_foreign: "foreign STATE_KEY"
  by (simp add: foreign_def token_spaces_def vera_key_consts STATE_KEY_def)

lemma roster_foreign: "prefix ROSTER_PREFIX k \<Longrightarrow> foreign k"
  by (auto simp: foreign_def token_spaces_def vera_key_consts ROSTER_PREFIX_def prefix_def)

lemma initialize_safe [safe_rules]: "preserving vl (initialize_administration vl p)"
  unfolding initialize_administration_def by (intro safe_rules safe_foreign admin_foreign)

lemma delete_keys_safe: "\<forall>k \<in> set ks. foreign k \<Longrightarrow> preserving vl (vera_delete_keys ks)"
  by (induction ks) (auto intro!: safe_rules safe_foreign)

lemma roster_safe [safe_rules]: "preserving vl (record_consensus_roster epoch ks)"
proof -
  have given: "preserving vl (st_bind (st_read f) g)" if "\<And>m x. f m = Inr x \<Longrightarrow> preserving vl (g x)"
    for f :: "vera_module \<Rightarrow> vera_error + bytes list" and g :: "bytes list \<Rightarrow> unit vera"
    unfolding preserving_def
  proof (intro allI impI)
    fix m r m' assume ok: "token_ok vl m" and run: "st_bind (st_read f) g m = (r, m')"
    then show "token_ok vl m' \<and> stays_invalid vl (vm_store m) (vm_store m')"
      using that by (cases "f m") (auto simp: st_bind_def st_read_def stays_invalid_refl dest: preservingD)
  qed
  have roster: "prefix ROSTER_PREFIX k" if "(k, v) \<in> set (takeWhile P (prefix_iter s ROSTER_PREFIX))" for k v P and s :: kv_store
    using that by (auto simp: prefix_iter_def starts_with_def dest!: set_takeWhileD)
  show ?thesis
    unfolding record_consensus_roster_def
    by (auto intro!: safe_rules given delete_keys_safe safe_foreign roster_foreign
        simp: Let_def roster_key_def split: option.split if_splits) (rule roster, assumption)
qed

text \<open>A request works on both modules; its Vera part is preserving too.\<close>

definition safe_admin :: "vera_libs \<Rightarrow> 'a admin \<Rightarrow> bool" where
  "safe_admin vl c \<longleftrightarrow> (\<forall>v a r v' a'. token_ok vl v \<longrightarrow> c (v, a) = (r, (v', a')) \<longrightarrow>
     token_ok vl v' \<and> stays_invalid vl (vm_store v) (vm_store v'))"

lemma safe_admin_bind:
  assumes "safe_admin vl c" and "\<And>x. safe_admin vl (g x)"
  shows "safe_admin vl (st_bind c g)"
  unfolding safe_admin_def
proof (intro allI impI)
  fix v a r v' a' assume ok: "token_ok vl v" and run: "st_bind c g (v, a) = (r, (v', a'))"
  obtain r1 v1 a1 where c: "c (v, a) = (r1, (v1, a1))" by (metis prod.exhaust)
  with assms(1) ok have c': "token_ok vl v1" "stays_invalid vl (vm_store v) (vm_store v1)"
    unfolding safe_admin_def by blast+
  show "token_ok vl v' \<and> stays_invalid vl (vm_store v) (vm_store v')"
  proof (cases r1)
    case (Inl e)
    with run c c' show ?thesis by (simp add: st_bind_def)
  next
    case (Inr x)
    with run c have "g x (v1, a1) = (r, (v', a'))" by (simp add: st_bind_def)
    with assms(2) [of x] c' show ?thesis unfolding safe_admin_def by (meson stays_invalid_trans)
  qed
qed

lemma safe_admin_steps:
  "safe_admin vl (st_ret x)" "safe_admin vl (st_lift y)" "safe_admin vl (st_read f)" "safe_admin vl (on_acp h d)"
  "preserving vl c \<Longrightarrow> safe_admin vl (on_vera k c)"
proof -
  show "safe_admin vl (on_vera k c)" if "preserving vl c"
    using that by (auto simp: safe_admin_def on_vera_def split: prod.splits dest: preservingD)
qed (auto simp: safe_admin_def stays_invalid_refl on_acp_def split: prod.splits)

lemma administrative_safe: "safe_admin vl (apply_administrative_request vl genesis_id now req)"
  unfolding apply_administrative_request_def run_admin_command_def
  by (intro safe_admin_bind safe_admin_steps safe_foreign admin_foreign)
    (auto split: administrative_command.split intro!: safe_admin_steps relay_safe)

end
