(* ===== verification/Vera_Frames.thy ===== *)
theory Vera_Frames
  imports Vera_Admin
begin

text \<open>
  Which records the operations of the Vera module leave alone (\<open>leaves K c\<close>: the computation \<open>c\<close> changes no
  record with a key in \<open>K\<close>), what a consensus roster entry and what an administrative request change.
\<close>

section \<open>Records left alone\<close>

definition leaves :: "bytes set \<Rightarrow> 'a vera \<Rightarrow> bool" where
  "leaves K c \<longleftrightarrow> (\<forall>m r m'. kv_wf (vm_store m) \<longrightarrow> c m = (r, m') \<longrightarrow>
     kv_wf (vm_store m') \<and> (\<forall>k \<in> K. kv_view (vm_store m') k = kv_view (vm_store m) k))"

named_theorems leaves_rules \<open>computations that leave records alone\<close>

lemma leavesD:
  assumes "leaves K c" and "kv_wf (vm_store m)" and "c m = (r, m')"
  shows "kv_wf (vm_store m')" and "k \<in> K \<Longrightarrow> kv_view (vm_store m') k = kv_view (vm_store m) k"
  using assms unfolding leaves_def by blast+

lemma leaves_reads [leaves_rules]:
  "leaves K (st_ret x)" "leaves K (st_fail e)" "leaves K (st_lift y)" "leaves K (st_read f)"
  by (simp_all add: leaves_def)

lemma leaves_writes:
  "k \<notin> K \<Longrightarrow> leaves K (vera_put k v)" "k \<notin> K \<Longrightarrow> leaves K (vera_delete k)"
  by (auto simp: leaves_def vera_put_def vera_delete_def st_modify_def)

lemma leaves_bind [leaves_rules]:
  assumes "leaves K c" and "\<And>x. leaves K (g x)"
  shows "leaves K (st_bind c g)"
  unfolding leaves_def
proof (intro allI impI)
  fix m r m' assume wf: "kv_wf (vm_store m)" and run: "st_bind c g m = (r, m')"
  obtain r1 m1 where c: "c m = (r1, m1)" by fastforce
  note c' = leavesD [OF assms(1) wf c]
  show "kv_wf (vm_store m') \<and> (\<forall>k \<in> K. kv_view (vm_store m') k = kv_view (vm_store m) k)"
  proof (cases r1)
    case (Inl e)
    with run c c' show ?thesis by (simp add: st_bind_def)
  next
    case (Inr x)
    with run c have "g x m1 = (r, m')" by (simp add: st_bind_def)
    from leavesD [OF assms(2) c'(1) this] c'(2) show ?thesis by simp
  qed
qed

lemma leaves_given:
  assumes "\<And>x. y = Inr x \<Longrightarrow> leaves K (g x)"
  shows "leaves K (st_bind (st_lift y) g)"
  using assms by (cases y) (auto simp: leaves_def st_bind_def st_lift_def)

lemma leaves_if [leaves_rules]: "leaves K x \<Longrightarrow> leaves K y \<Longrightarrow> leaves K (if b then x else y)"
  by simp

text \<open>The records of the operators and of the rosters.\<close>

definition authority_keys :: "bytes set" where
  "authority_keys = insert STATE_KEY {k. prefix ROSTER_PREFIX k}"

lemma registry_elsewhere [simp]:
  "jws_token_key h \<notin> authority_keys" "jws_token_by_did_key did h \<notin> authority_keys"
  "jws_token_by_account_key acc h \<notin> authority_keys" "token_expiry_key rec = Some k \<Longrightarrow> k \<notin> authority_keys"
  "relay_key vl issuer = Inr k \<Longrightarrow> k \<notin> authority_keys"
  by (auto simp: authority_keys_def STATE_KEY_def ROSTER_PREFIX_def jws_token_key_def jws_token_by_did_key_def
      jws_token_by_account_key_def token_expiry_key_def relay_key_def vera_key_consts res_bind_def
      split: if_splits sum.splits)

lemma set_token_leaves [leaves_rules]: "leaves authority_keys (set_jws_token vl rec)"
  unfolding set_jws_token_def
  by (intro leaves_rules leaves_writes registry_elsewhere)
    (auto intro!: leaves_rules leaves_writes simp: bind_eq_Some_conv split: option.split)

lemma registry_leaves [leaves_rules]:
  "leaves authority_keys (found_token vl h)" "leaves authority_keys (record_jws_token_usage vl block h)"
  "leaves authority_keys (update_jws_token_status vl block h status who)"
  unfolding found_token_def record_jws_token_usage_def update_jws_token_status_def Let_def by (intro leaves_rules)+

lemma tokens_leave [leaves_rules]:
  "leaves authority_keys (store_or_update_jws_token vl block token issuer account issued expires)"
  "leaves authority_keys (invalidate_jws vl block tx creator h)"
  "leaves authority_keys (revoke_delegation vl block caller token)"
  unfolding store_or_update_jws_token_def invalidate_jws_def revoke_delegation_def found_token_def Let_def
  by (auto intro!: leaves_rules split: option.split)

lemma invalidate_all_leaves [leaves_rules]: "leaves authority_keys (invalidate_all vl block hs)"
  by (induction hs; unfold invalidate_all.simps; intro leaves_rules)

lemma expiry_leaves [leaves_rules]: "leaves authority_keys (check_and_update_expired_tokens vl block)"
  unfolding check_and_update_expired_tokens_def by (intro leaves_rules)

lemma relay_leaves [leaves_rules]:
  "leaves authority_keys (set_relay vl grant sequence now)" "leaves authority_keys (revoke_relay vl issuer)"
  unfolding set_relay_def revoke_relay_def
  by (intro leaves_given leaves_rules leaves_writes registry_elsewhere, assumption)+


section \<open>Rosters\<close>

lemma vera_delete_keys_run:
  "kv_wf (vm_store m) \<Longrightarrow> vera_delete_keys ks m = (Inr (), m') \<Longrightarrow>
    kv_wf (vm_store m') \<and> (\<forall>k. kv_view (vm_store m') k = (if k \<in> set ks then None else kv_view (vm_store m) k))"
proof (induction ks arbitrary: m)
  case (Cons a ks)
  let ?m = "m\<lparr>vm_store := kv_delete a (vm_store m)\<rparr>"
  from Cons.prems have "vera_delete_keys ks ?m = (Inr (), m')" by (simp add: st_bind_def vera_delete_def st_modify_def)
  with Cons.IH [of ?m] Cons.prems(1) show ?case by simp
qed (simp add: st_ret_def)

lemma delete_keys_succeeds: "\<exists>m'. vera_delete_keys ks m = (Inr (), m')"
  by (induction ks arbitrary: m) (simp_all add: st_bind_def vera_delete_def st_modify_def st_ret_def)

lemma roster_key_simps [simp]:
  "roster_key e = roster_key e' \<longleftrightarrow> e = e'" "roster_key e < roster_key e' \<longleftrightarrow> e < e'" "prefix ROSTER_PREFIX (roster_key e)"
  "roster_key e \<le> roster_key e' \<longleftrightarrow> e \<le> e'"
  by (simp_all add: roster_key_def ROSTER_PREFIX_def)

lemma roster_last:
  assumes wf: "kv_wf s" and old: "kv_view s (roster_key e) = Some v"
    and younger: "\<not> (prefix_iter s ROSTER_PREFIX \<noteq> [] \<and> fst (last (prefix_iter s ROSTER_PREFIX)) \<ge> roster_key epoch)"
  shows "e < epoch"
proof -
  let ?es = "prefix_iter s ROSTER_PREFIX"
  have mem: "(roster_key e, v) \<in> set ?es" using prefix_iter_set [OF wf] old by simp
  then obtain i where i: "i < length ?es" "?es ! i = (roster_key e, v)" by (auto simp: in_set_conv_nth)
  from mem have "?es \<noteq> []" by auto
  then have end_at: "last ?es = ?es ! (length ?es - 1)" by (rule last_conv_nth)
  have "roster_key e \<le> fst (last ?es)"
  proof (cases "i = length ?es - 1")
    case True
    with i end_at show ?thesis by simp
  next
    case False
    with i(1) have "i < length ?es - 1" "length ?es - 1 < length ?es" by linarith+
    with i sorted_wrt_nth_less [OF prefix_iter_sorted [OF wf, of ROSTER_PREFIX], of i "length ?es - 1"]
    show ?thesis by (simp add: end_at)
  qed
  moreover from younger \<open>?es \<noteq> []\<close> have "fst (last ?es) < roster_key epoch" by (simp add: not_le)
  ultimately have "roster_key e < roster_key epoch" by (rule order_le_less_trans)
  then show ?thesis by simp
qed

lemma sorted_takeWhile:
  fixes xs :: "('k :: linorder \<times> 'v) list"
  assumes "sorted_wrt (<) (map fst xs)"
  shows "set (takeWhile (\<lambda>(k, _). k < c) xs) = {e \<in> set xs. fst e < c}"
  using assms by (induction xs) (auto dest: order.strict_trans less_trans)

lemma roster_run:
  assumes wf: "kv_wf (vm_store m)" and run: "record_consensus_roster epoch ks m = (r, m')"
  shows "(m' = m \<and> (is_ok r \<longrightarrow> consensus_roster m epoch = Some (concat ks))) \<or>
    (r = Inr () \<and> kv_wf (vm_store m') \<and> consensus_roster m epoch = None \<and> ks \<noteq> [] \<and>
     (\<forall>e. consensus_roster m e \<noteq> None \<longrightarrow> e < epoch) \<and>
     (\<forall>e. consensus_roster m' e =
        (if e = epoch then Some (concat ks) else if e < saturating_sub epoch 2 then None else consensus_roster m e)) \<and>
     (\<forall>k. \<not> prefix ROSTER_PREFIX k \<longrightarrow> kv_view (vm_store m') k = kv_view (vm_store m) k))"
proof (cases "m' = m \<and> (is_ok r \<longrightarrow> consensus_roster m epoch = Some (concat ks))")
  case False
  let ?s = "vm_store m" let ?es = "prefix_iter ?s ROSTER_PREFIX"
  let ?old = "map fst (takeWhile (\<lambda>(key, _). key < roster_key (saturating_sub epoch 2)) ?es)"
  obtain m1 where del: "vera_delete_keys ?old m = (Inr (), m1)" using delete_keys_succeeds by blast
  have new: "consensus_roster m epoch = None" "ks \<noteq> []"
      "\<not> (?es \<noteq> [] \<and> fst (last ?es) \<ge> roster_key epoch)" "r = Inr ()"
      "m' = m1\<lparr>vm_store := kv_put (roster_key epoch) (concat ks) (vm_store m1)\<rparr>"
    using run False del
    by (auto simp: record_consensus_roster_def st_bind_def st_read_def st_ret_def st_fail_def Let_def is_ok_def
        vera_put_def st_modify_def split: if_splits option.splits)
  note del' = vera_delete_keys_run [OF wf del]
  have olds: "k \<in> set ?old \<longleftrightarrow> kv_view ?s k \<noteq> None \<and> prefix ROSTER_PREFIX k \<and> k < roster_key (saturating_sub epoch 2)" for k
    using sorted_takeWhile [OF prefix_iter_sorted [OF wf, of ROSTER_PREFIX]] prefix_iter_set [OF wf, of k _ ROSTER_PREFIX]
    by (auto simp: image_iff) 
  have view: "consensus_roster x e = kv_view (vm_store x) (roster_key e)" for x e by (simp add: consensus_roster_def)
  show ?thesis
    using new del' olds roster_last [OF wf _ new(3)] by (auto simp: view)
qed blast


section \<open>Administrative requests\<close>

definition administration_codec_ok :: "vera_libs \<Rightarrow> bool" where
  "administration_codec_ok vl \<longleftrightarrow> (\<forall>s bs. borsh_administration vl s = Inr bs \<longrightarrow> unborsh_administration vl bs = Inr s)"

lemma initialize_leaves: "leaves {k. prefix ROSTER_PREFIX k} (initialize_administration vl p)"
  unfolding initialize_administration_def
  by (intro leaves_rules leaves_writes) (simp add: STATE_KEY_def ROSTER_PREFIX_def)

lemma initialize_once:
  "kv_view (vm_store m) STATE_KEY \<noteq> None \<Longrightarrow> initialize_administration vl p m = (r, m') \<Longrightarrow> m' = m"
  by (auto simp: initialize_administration_def st_bind_def st_lift_def st_read_def split: sum.splits if_splits)

lemma command_run:
  assumes "kv_wf (vm_store v)" and "run_admin_command vl now req (v, a) = (r, (v', a'))"
  shows "kv_wf (vm_store v')" and "k \<in> authority_keys \<Longrightarrow> kv_view (vm_store v') k = kv_view (vm_store v) k"
proof -
  have "v' = v \<or> (\<exists>c r0. leaves authority_keys (c :: unit vera) \<and> c v = (r0, v'))"
  proof (cases "aq_command req")
    case (SetRelay grant)
    with assms(2) have "\<exists>r0. set_relay vl grant (aq_sequence req) now v = (r0, v')"
      by (auto simp: run_admin_command_def on_vera_def split: prod.splits)
    then show ?thesis using relay_leaves(1) by blast
  next
    case (RevokeRelay issuer)
    with assms(2) have "\<exists>r0. revoke_relay vl issuer v = (r0, v')"
      by (auto simp: run_admin_command_def on_vera_def split: prod.splits)
    then show ?thesis using relay_leaves(2) by blast
  qed (use assms(2) in \<open>auto simp: run_admin_command_def on_acp_def st_ret_def split: prod.splits\<close>)
  with assms(1) show "kv_wf (vm_store v')" "k \<in> authority_keys \<Longrightarrow> kv_view (vm_store v') k = kv_view (vm_store v) k"
    by (auto dest: leavesD)
qed

lemma next_administration_sequence:
  "next_administration vl acp state command = Inr state' \<Longrightarrow> checked_add (as_sequence state) 1 = Some (as_sequence state')"
  by (auto simp: next_administration_def res_bind_def ok_or_def Let_def
      split: administrative_command.splits if_splits sum.splits option.splits)

lemma administrative_run:
  assumes wf: "kv_wf (vm_store v)" and run: "apply_administrative_request vl genesis_id now req (v, a) = (r, (v', a'))"
  shows "kv_wf (vm_store v')" and "prefix ROSTER_PREFIX k \<Longrightarrow> kv_view (vm_store v') k = kv_view (vm_store v) k"
    and "\<not> is_ok r \<Longrightarrow> kv_view (vm_store v') STATE_KEY = kv_view (vm_store v) STATE_KEY"
    and "is_ok r \<Longrightarrow> \<exists>state state' bs. administration vl v = Inr (Some state) \<and>
      check_approvals vl state genesis_id now req = Inr () \<and>
      checked_add (as_sequence state) 1 = Some (as_sequence state') \<and> borsh_administration vl state' = Inr bs \<and>
      kv_view (vm_store v') STATE_KEY = Some bs"
proof -
  have other: "k \<noteq> STATE_KEY" if "prefix ROSTER_PREFIX k" for k
    using that by (auto simp: STATE_KEY_def ROSTER_PREFIX_def)
  have all: "kv_wf (vm_store v') \<and> (prefix ROSTER_PREFIX k \<longrightarrow> kv_view (vm_store v') k = kv_view (vm_store v) k) \<and>
    (if is_ok r then \<exists>state state' bs. administration vl v = Inr (Some state) \<and>
      check_approvals vl state genesis_id now req = Inr () \<and>
      checked_add (as_sequence state) 1 = Some (as_sequence state') \<and> borsh_administration vl state' = Inr bs \<and>
      kv_view (vm_store v') STATE_KEY = Some bs
     else kv_view (vm_store v') STATE_KEY = kv_view (vm_store v) STATE_KEY)" for k
  proof (cases "\<exists>state u state' bs. administration vl v = Inr (Some state) \<and> check_approvals vl state genesis_id now req = Inr u \<and>
      next_administration vl a state (aq_command (sr_request req)) = Inr state' \<and> borsh_administration vl state' = Inr bs")
    case False
    then have "v' = v \<and> \<not> is_ok r" using run
      by (auto simp: apply_administrative_request_def st_bind_def st_read_def st_lift_def is_ok_def res_bind_def ok_or_def map_err_def
          split: sum.splits option.splits)
    then show ?thesis using wf by simp
  next
    case True
    then obtain state state' bs where t: "administration vl v = Inr (Some state)" "check_approvals vl state genesis_id now req = Inr ()"
      "next_administration vl a state (aq_command (sr_request req)) = Inr state'" "borsh_administration vl state' = Inr bs" by auto
    obtain r1 v1 a1 where c: "run_admin_command vl now (sr_request req) (v, a) = (r1, (v1, a1))" by (metis prod.exhaust)
    note c' = command_run [OF wf c]
    have "(case r1 of Inl e \<Rightarrow> r = Inl e \<and> v' = v1 | Inr _ \<Rightarrow> r = Inr () \<and> v' = v1\<lparr>vm_store := kv_put STATE_KEY bs (vm_store v1)\<rparr>)"
      using run t c by (auto simp: apply_administrative_request_def st_bind_def st_read_def st_lift_def on_vera_def vera_put_def
          st_modify_def split: sum.splits)
    then show ?thesis using c' t next_administration_sequence [OF t(3)] other [of k]
      by (cases r1) (auto simp: is_ok_def authority_keys_def)
  qed
  show "kv_wf (vm_store v')" "prefix ROSTER_PREFIX k \<Longrightarrow> kv_view (vm_store v') k = kv_view (vm_store v) k"
    using all [of k] by blast+
  show "\<not> is_ok r \<Longrightarrow> kv_view (vm_store v') STATE_KEY = kv_view (vm_store v) STATE_KEY" using all by simp
  show "is_ok r \<Longrightarrow> \<exists>state state' bs. administration vl v = Inr (Some state) \<and>
      check_approvals vl state genesis_id now req = Inr () \<and>
      checked_add (as_sequence state) 1 = Some (as_sequence state') \<and> borsh_administration vl state' = Inr bs \<and>
      kv_view (vm_store v') STATE_KEY = Some bs" using all by simp
qed

end
