(* ===== verification/Vera_Guarantees.thy ===== *)
theory Vera_Guarantees
  imports Vera_Safety Vera_Frames Demo_Vera
begin

text \<open>
  What the Vera module guarantees over any run of the node: a revoked delegation stays revoked, an approved
  administrative request takes effect once, and a consensus roster is never replaced.
\<close>

section \<open>Runs of the module\<close>

text \<open>The calls by which the node changes the module's registry, authority and rosters: block execution, the
  precompiles and the native genesis. Each may succeed or fail.\<close>

inductive vera_step :: "vera_libs \<Rightarrow> vera_module \<Rightarrow> vera_module \<Rightarrow> bool" for vl where
  genesis: "initialize_administration vl p m = (r, m') \<Longrightarrow> vera_step vl m m'"
| store: "store_or_update_jws_token vl block token issuer account issued expires m = (r, m') \<Longrightarrow> vera_step vl m m'"
| invalidate: "invalidate_jws vl block tx creator h m = (r, m') \<Longrightarrow> vera_step vl m m'"
| revoke: "revoke_delegation vl block caller token m = (r, m') \<Longrightarrow> vera_step vl m m'"
| expire: "check_and_update_expired_tokens vl block m = (r, m') \<Longrightarrow> vera_step vl m m'"
| roster: "record_consensus_roster epoch ks m = (r, m') \<Longrightarrow> vera_step vl m m'"
| administer: "apply_administrative_request vl genesis_id now req (m, acp) = (r, (m', acp')) \<Longrightarrow> vera_step vl m m'"

definition vera_run :: "vera_libs \<Rightarrow> vera_module \<Rightarrow> vera_module \<Rightarrow> bool" where
  "vera_run vl = (vera_step vl)\<^sup>*\<^sup>*"

lemma step_safe:
  assumes libs: "token_codec_ok vl" "hex_ascii vl" and step: "vera_step vl m m'" and ok: "token_ok vl m"
  shows "token_ok vl m' \<and> stays_invalid vl (vm_store m) (vm_store m')"
  using step
proof cases
  case (administer genesis_id now req acp r acp')
  with administrative_safe [of vl genesis_id now req] ok show ?thesis unfolding safe_admin_def by blast
next
  case genesis
  then show ?thesis using preservingD [OF initialize_safe ok] by blast
next
  case store
  then show ?thesis using preservingD [OF store_safe [OF libs] ok] by blast
next
  case invalidate
  then show ?thesis using preservingD [OF invalidate_jws_safe [OF libs(1)] ok] by blast
next
  case revoke
  then show ?thesis using preservingD [OF revoke_safe [OF libs] ok] by blast
next
  case expire
  then show ?thesis using preservingD [OF expiry_safe [OF libs(1)] ok] by blast
next
  case roster
  then show ?thesis using preservingD [OF roster_safe ok] by blast
qed

lemma run_safe:
  assumes libs: "token_codec_ok vl" "hex_ascii vl" and run: "vera_run vl m m'" and ok: "token_ok vl m"
  shows "token_ok vl m' \<and> stays_invalid vl (vm_store m) (vm_store m')"
  using run unfolding vera_run_def
proof (induction rule: rtranclp_induct)
  case base
  then show ?case using ok by (simp add: stays_invalid_refl)
next
  case (step m1 m2)
  then show ?case using step_safe [OF libs step(2)] stays_invalid_trans by blast
qed

lemma new_ok: "token_ok vl vera_new"
proof -
  have "token_index p f v vl (vm_store vera_new)" for p f v
    by (simp add: token_index_def tokens_def tok_def vera_new_def)
  moreover have "tokens vl (vm_store vera_new) = {}" by (auto simp: tokens_def tok_def vera_new_def)
  ultimately show ?thesis by (simp add: token_ok_def vera_new_def vera_get_params_def get_chain_config_def)
qed


section \<open>Revoked delegations\<close>

lemma revoke_marks:
  assumes libs: "token_codec_ok vl" "hex_ascii vl" and ok: "token_ok vl m"
    and run: "revoke_delegation vl block caller token m = (Inr record, m')"
  shows "\<exists>q. tok vl (vm_store m') (hash_jws_token vl token) = Some q \<and> jt_status q = TokenInvalid"
proof -
  let ?h = "hash_jws_token vl token"
  obtain rec where w: "set_jws_token vl rec m = (Inr (), m')" "jt_status rec = TokenInvalid" "jt_token_hash rec = ?h"
      "\<forall>q. tok vl (vm_store m) ?h = Some q \<longrightarrow> jt_issuer_did q = jt_issuer_did rec \<and> jt_authorized_account q = jt_authorized_account rec"
    using run tok_get [OF ok, of ?h] tok_record(1) [OF ok, of ?h]
    by (cases "tok vl (vm_store m) ?h")
      (auto simp: revoke_delegation_def st_bind_def Let_def split: if_splits prod.splits sum.splits)
  have same: "same_parties vl (vm_store m) rec" using w(3,4) by (auto simp: same_parties_def split: option.splits)
  have utf: "from_utf8 (jt_token_hash rec) = Inr (jt_token_hash rec)" using hash_utf8 [OF libs(2)] w(3) by simp
  from set_token_ok(2) [OF ok libs(1) w(1) utf same] w(2,3) show ?thesis by simp
qed

lemma invalid_refused:
  assumes "token_ok vl m" and "tok vl (vm_store m) (hash_jws_token vl token) = Some q" and "jt_status q = TokenInvalid"
  shows "\<not> is_ok (authorize_delegation vl m context caller token scope operation)"
  using tok_get [OF assms(1), of "hash_jws_token vl token"] assms(2,3)
  unfolding authorize_delegation_def Let_def by (auto simp: is_ok_def res_bind_def split: sum.splits if_splits)

text \<open>C7. Once a delegation has been revoked, in any state the module reaches afterwards its token
  authorizes nothing: no caller, scope, operation or block makes \<open>authorize_delegation\<close> accept it. Storing the
  token again, using it, expiry sweeps, rosters and administrative requests do not revive it.\<close>

theorem revoked_token_never_authorizes:
  assumes "token_codec_ok vl" and "hex_ascii vl" and "vera_run vl vera_new m"
    and "revoke_delegation vl block revoker token m = (Inr record, m1)" and "vera_run vl m1 m2"
  shows "\<not> is_ok (authorize_delegation vl m2 context caller token scope operation)"
proof -
  note ok = run_safe [OF assms(1,2,3) new_ok, THEN conjunct1]
  have ok1: "token_ok vl m1" using preservingD(1) [OF revoke_safe [OF assms(1,2)] ok assms(4)] .
  note later = run_safe [OF assms(1,2,5) ok1]
  from revoke_marks [OF assms(1,2) ok assms(4)] later obtain q
    where "tok vl (vm_store m2) (hash_jws_token vl token) = Some q" "jt_status q = TokenInvalid"
    unfolding stays_invalid_def by blast
  with later show ?thesis by (intro invalid_refused) blast+
qed


section \<open>Operators\<close>

lemma strict_signers:
  "\<not> any_adjacent (\<lambda>a b. f a \<ge> f b) xs \<Longrightarrow> sorted_wrt (<) (map f xs)" for f :: "'x \<Rightarrow> nat"
proof (induction xs rule: induct_list012)
  case (3 a b xs)
  then show ?case by auto
qed simp_all

definition signed_by :: "vera_libs \<Rightarrow> operator_policy \<Rightarrow> bytes \<Rightarrow> operator_approval list \<Rightarrow> nat \<Rightarrow> bool" where
  "signed_by vl p digest approvals i \<longleftrightarrow> i < length (op_keys p) \<and>
     (\<exists>approval \<in> set approvals. \<exists>key signature. oa_signer approval = i \<and> hex_decode vl (op_keys p ! i) = Inr key \<and>
        hex_decode vl (oa_signature approval) = Inr signature \<and> verify_digest (jwt_codecs vl) key digest signature = Inr ())"

lemma approval_signs:
  "approval_check vl p digest approval = Inr () \<Longrightarrow> approval \<in> set approvals \<Longrightarrow> signed_by vl p digest approvals (oa_signer approval)"
  by (fastforce simp: approval_check_def signed_by_def Let_def res_bind_def map_err_def split: if_splits sum.splits)

lemma approvals_quorum:
  assumes "check_approvals vl state genesis_id now req = Inr ()"
  shows "\<exists>digest. signing_digest vl (sr_request req) = Inr digest \<and>
    op_threshold (as_policy state) \<le> card {i. signed_by vl (as_policy state) digest (sr_approvals req) i}"
proof -
  from assms obtain digest where d: "signing_digest vl (sr_request req) = Inr digest"
    "check_all (approval_check vl (as_policy state) digest) (sr_approvals req) = Inr ()"
    "op_threshold (as_policy state) \<le> length (sr_approvals req)"
    "\<not> any_adjacent (\<lambda>a b. oa_signer a \<ge> oa_signer b) (sr_approvals req)"
    by (auto simp: check_approvals_def Let_def res_bind_def split: if_splits sum.splits)
  let ?S = "{i. signed_by vl (as_policy state) digest (sr_approvals req) i}"
  have "set (map oa_signer (sr_approvals req)) \<subseteq> ?S" using d(2) approval_signs by (auto simp: check_all_ok)
  moreover have "finite ?S" by (rule finite_subset [of _ "{..< length (op_keys (as_policy state))}"]) (auto simp: signed_by_def)
  moreover have "distinct (map oa_signer (sr_approvals req))" using strict_signers [OF d(4)] by (simp add: strict_sorted_iff)
  ultimately have "length (sr_approvals req) \<le> card ?S" by (metis card_mono distinct_card length_map)
  with d show ?thesis by force
qed

text \<open>C9. An administrative request that takes effect names this deployment and the committed sequence, has not
  expired, and carries valid signatures over exactly this request by at least the threshold of distinct
  operators of the committed policy.\<close>

theorem administrative_change_needs_quorum:
  assumes "kv_wf (vm_store v)" and "apply_administrative_request vl genesis_id now req (v, a) = (Inr (), (v', a'))"
  shows "\<exists>state digest. administration vl v = Inr (Some state) \<and> signing_digest vl (sr_request req) = Inr digest \<and>
    aq_genesis_id (sr_request req) = genesis_id \<and> aq_sequence (sr_request req) = as_sequence state \<and>
    now \<le> aq_expires_at (sr_request req) \<and>
    op_threshold (as_policy state) \<le> card {i. signed_by vl (as_policy state) digest (sr_approvals req) i}"
proof -
  from administrative_run(4) [OF assms] obtain state where s: "administration vl v = Inr (Some state)"
    "check_approvals vl state genesis_id now req = Inr ()" by (auto simp: is_ok_def)
  then have "aq_genesis_id (sr_request req) = genesis_id \<and> aq_sequence (sr_request req) = as_sequence state \<and>
    now \<le> aq_expires_at (sr_request req)" by (auto simp: check_approvals_def Let_def split: if_splits)
  with s(1) approvals_quorum [OF s(2)] show ?thesis by blast
qed

text \<open>The committed sequence never falls below a bound it has reached.\<close>

definition sequence_from :: "vera_libs \<Rightarrow> u64 \<Rightarrow> vera_module \<Rightarrow> bool" where
  "sequence_from vl n m \<longleftrightarrow> kv_wf (vm_store m) \<and> (\<exists>state. administration vl m = Inr (Some state) \<and> n \<le> as_sequence state)"

lemma sequence_view:
  "sequence_from vl n m \<Longrightarrow> kv_wf (vm_store m') \<Longrightarrow> kv_view (vm_store m') STATE_KEY = kv_view (vm_store m) STATE_KEY \<Longrightarrow>
    sequence_from vl n m'"
  by (simp add: sequence_from_def administration_def)

lemma administrative_next:
  assumes codec: "administration_codec_ok vl" and wf: "kv_wf (vm_store v)"
    and run: "apply_administrative_request vl genesis_id now req (v, a) = (Inr (), (v', a'))"
  shows "\<exists>state. administration vl v = Inr (Some state) \<and> aq_sequence (sr_request req) = as_sequence state \<and>
    sequence_from vl (as_sequence state + 1) v' \<and> as_sequence state < as_sequence state + 1"
proof -
  from administrative_run(4) [OF wf run] obtain state state' bs where s: "administration vl v = Inr (Some state)"
    "check_approvals vl state genesis_id now req = Inr ()" "checked_add (as_sequence state) 1 = Some (as_sequence state')"
    "borsh_administration vl state' = Inr bs" "kv_view (vm_store v') STATE_KEY = Some bs" by (auto simp: is_ok_def)
  have "administration vl v' = Inr (Some state')" using s(4,5) codec by (simp add: administration_def administration_codec_ok_def)
  moreover have "as_sequence state' = as_sequence state + 1" "as_sequence state < as_sequence state + 1"
    using s(3) by (auto simp: checked_add_def word_less_nat_alt unat_word_ariths split: if_splits)
  moreover have "aq_sequence (sr_request req) = as_sequence state" using s(2) by (auto simp: check_approvals_def Let_def split: if_splits)
  ultimately show ?thesis using s(1) administrative_run(1) [OF wf run] by (auto simp: sequence_from_def)
qed

lemma sequence_step:
  assumes codec: "administration_codec_ok vl" and step: "vera_step vl m m'" and seq: "sequence_from vl n m"
  shows "sequence_from vl n m'"
proof -
  have wf: "kv_wf (vm_store m)" and present: "kv_view (vm_store m) STATE_KEY \<noteq> None"
    using seq by (auto simp: sequence_from_def administration_def split: option.splits)
  have frame: "sequence_from vl n m'" if "leaves authority_keys c" "c m = (r, m')" for c :: "'x vera" and r
    using leavesD [OF that(1) wf that(2)] by (intro sequence_view [OF seq]) (simp_all add: authority_keys_def)
  from step show ?thesis
  proof cases
    case genesis
    then show ?thesis using initialize_once [OF present] seq by blast
  next
    case (roster epoch ks r)
    from roster_run [OF wf this] have "m' = m \<or> kv_wf (vm_store m') \<and> kv_view (vm_store m') STATE_KEY = kv_view (vm_store m) STATE_KEY"
      by (auto simp: STATE_KEY_def ROSTER_PREFIX_def)
    then show ?thesis using seq sequence_view by blast
  next
    case (administer genesis_id now req acp r acp')
    show ?thesis
    proof (cases "is_ok r")
      case True
      then have "r = Inr ()" by (cases r) (auto simp: is_ok_def)
      then obtain state where "administration vl m = Inr (Some state)" "sequence_from vl (as_sequence state + 1) m'"
          "as_sequence state < as_sequence state + 1"
        using administrative_next [OF codec wf] administer by blast
      with seq show ?thesis by (auto simp: sequence_from_def)
    next
      case False
      then show ?thesis using administrative_run(1,3) [OF wf administer] by (blast intro: sequence_view [OF seq])
    qed
  qed (rule frame, rule leaves_rules, assumption)+
qed

lemma sequence_run:
  assumes "administration_codec_ok vl" and "vera_run vl m m'" and "sequence_from vl n m"
  shows "sequence_from vl n m'"
  using assms(2,3) unfolding vera_run_def by (induction rule: rtranclp_induct) (blast intro: sequence_step [OF assms(1)])+

text \<open>C8. An administrative request takes effect at most once: after it was applied, and whatever the node
  did since, applying it again fails and changes neither module, for any deployment, time or state of the ACP
  module.\<close>

theorem administrative_request_runs_once:
  assumes "administration_codec_ok vl" and "kv_wf (vm_store v)"
    and "apply_administrative_request vl genesis_id now req (v, a) = (Inr (), (v1, a1))" and "vera_run vl v1 v2"
  shows "\<exists>e. apply_administrative_request vl genesis_id' now' req (v2, a2) = (Inl e, (v2, a2))"
proof -
  from administrative_next [OF assms(1-3)] obtain n where n: "aq_sequence (sr_request req) = n" "n < n + 1" "sequence_from vl (n + 1) v1"
    by blast
  from sequence_run [OF assms(1,4) n(3)] obtain state where st: "administration vl v2 = Inr (Some state)" "n + 1 \<le> as_sequence state"
    by (auto simp: sequence_from_def)
  then have "aq_sequence (sr_request req) \<noteq> as_sequence state" using n by auto
  then have "check_approvals vl state genesis_id' now' req = Inl (admin_invalid ''deployment, sequence or expiration mismatch'')"
    by (simp add: check_approvals_def Let_def)
  then show ?thesis using st(1) by (simp add: apply_administrative_request_def st_bind_def st_read_def st_lift_def)
qed


section \<open>Rosters\<close>

text \<open>A step either leaves every roster alone or selects one for a new, later epoch.\<close>

lemma roster_step:
  assumes step: "vera_step vl m m'" and wf: "kv_wf (vm_store m)"
  shows "kv_wf (vm_store m') \<and> ((\<forall>e. consensus_roster m' e = consensus_roster m e) \<or>
    (\<exists>epoch bs. (\<forall>e. consensus_roster m e \<noteq> None \<longrightarrow> e < epoch) \<and> (\<forall>e. consensus_roster m' e =
       (if e = epoch then Some bs else if e < saturating_sub epoch 2 then None else consensus_roster m e))))"
proof -
  have same: ?thesis
    if "kv_wf (vm_store m')" "\<And>k. prefix ROSTER_PREFIX k \<Longrightarrow> kv_view (vm_store m') k = kv_view (vm_store m) k"
    using that by (simp add: consensus_roster_def)
  have frame: ?thesis
    if "leaves authority_keys c" "c m = (r, m')" for c :: "'x vera" and r
    using leavesD [OF that(1) wf that(2)] by (intro same) (simp_all add: authority_keys_def)
  from step show ?thesis
  proof cases
    case genesis
    then show ?thesis using same leavesD [OF initialize_leaves wf] by blast
  next
    case (roster epoch ks r)
    from roster_run [OF wf this] wf show ?thesis by blast
  next
    case (administer genesis_id now req acp r acp')
    then show ?thesis using same administrative_run(1,2) [OF wf] by blast
  qed (rule frame, rule leaves_rules, assumption)+
qed

definition roster_window :: "vera_module \<Rightarrow> bool" where
  "roster_window m \<longleftrightarrow> kv_wf (vm_store m) \<and>
     (\<exists>top. \<forall>e. consensus_roster m e \<noteq> None \<longrightarrow> saturating_sub top 2 \<le> e \<and> e \<le> top)"

lemma window_run: "vera_run vl vera_new m \<Longrightarrow> roster_window m"
  unfolding vera_run_def
proof (induction rule: rtranclp_induct)
  case base
  then show ?case by (simp add: roster_window_def consensus_roster_def vera_new_def)
next
  case (step m m')
  then have wf: "kv_wf (vm_store m)" by (simp add: roster_window_def)
  from roster_step [OF step(2) wf] show ?case
  proof (elim conjE disjE exE)
    assume "kv_wf (vm_store m')" "\<forall>e. consensus_roster m' e = consensus_roster m e"
    then show ?thesis using step.IH by (simp add: roster_window_def)
  next
    fix epoch bs assume w: "kv_wf (vm_store m')" "\<forall>e. consensus_roster m e \<noteq> None \<longrightarrow> e < epoch"
      "\<forall>e. consensus_roster m' e = (if e = epoch then Some bs else if e < saturating_sub epoch 2 then None else consensus_roster m e)"
    have "saturating_sub epoch 2 \<le> epoch" by (simp add: saturating_sub_def word_le_nat_alt unat_sub)
    with w have "\<forall>e. consensus_roster m' e \<noteq> None \<longrightarrow> saturating_sub epoch 2 \<le> e \<and> e \<le> epoch"
      by (auto simp: not_less intro: less_imp_le)
    with w(1) show ?thesis unfolding roster_window_def by blast
  qed
qed

text \<open>C30. However long the node runs, the module retains the rosters of at most three epochs.\<close>

theorem at_most_three_rosters:
  assumes "vera_run vl vera_new m"
  shows "card {e. consensus_roster m e \<noteq> None} \<le> 3"
proof -
  obtain top where top: "\<And>e. consensus_roster m e \<noteq> None \<Longrightarrow> saturating_sub top 2 \<le> e \<and> e \<le> top"
    using window_run [OF assms] by (auto simp: roster_window_def)
  have "unat ` {e. consensus_roster m e \<noteq> None} \<subseteq> {unat top - 2 .. unat top}"
  proof (rule image_subsetI)
    fix e assume "e \<in> {e. consensus_roster m e \<noteq> None}"
    then have "saturating_sub top 2 \<le> e" "e \<le> top" using top by auto
    then show "unat e \<in> {unat top - 2 .. unat top}"
      by (auto simp: saturating_sub_def word_le_nat_alt unat_sub split: if_splits)
  qed
  then have "card (unat ` {e. consensus_roster m e \<noteq> None}) \<le> card {unat top - 2 .. unat top}"
    by (intro card_mono) simp_all
  moreover have "card (unat ` {e. consensus_roster m e \<noteq> None}) = card {e. consensus_roster m e \<noteq> None}"
    by (rule card_image) (auto intro: inj_onI unsigned_word_eqI)
  ultimately show ?thesis by simp
qed

text \<open>An epoch that is not later than a retained one keeps its roster or loses it.\<close>

definition settled :: "vera_module \<Rightarrow> u64 \<Rightarrow> bool" where
  "settled m e \<longleftrightarrow> kv_wf (vm_store m) \<and> (\<exists>top \<ge> e. consensus_roster m top \<noteq> None)"

lemma settled_step:
  assumes "vera_step vl m m'" and ok: "settled m e"
  shows "settled m' e \<and> consensus_roster m' e \<in> {consensus_roster m e, None}"
proof -
  from ok have wf: "kv_wf (vm_store m)" by (simp add: settled_def)
  from roster_step [OF assms(1) wf] show ?thesis
  proof (elim conjE disjE exE)
    fix epoch bs assume w: "kv_wf (vm_store m')" "\<forall>e. consensus_roster m e \<noteq> None \<longrightarrow> e < epoch"
      "\<forall>e. consensus_roster m' e = (if e = epoch then Some bs else if e < saturating_sub epoch 2 then None else consensus_roster m e)"
    have late: "e < epoch" using ok w(2) unfolding settled_def by (meson order_le_less_trans)
    then have "settled m' e" unfolding settled_def using w(1,3) by (intro conjI exI [of _ epoch]) simp_all
    with w(3) late show ?thesis by auto
  qed (use ok in \<open>simp add: settled_def\<close>)
qed

lemma settled_run:
  assumes "vera_run vl m m'" and "settled m e"
  shows "settled m' e \<and> consensus_roster m' e \<in> {consensus_roster m e, None}"
  using assms(1) unfolding vera_run_def
proof (induction rule: rtranclp_induct)
  case (step m1 m2)
  with settled_step [OF step(2), of e] show ?case by auto
qed (use assms(2) in simp)

text \<open>C29. A consensus roster is immutable: once a roster is selected for an epoch, any later run of the node
  keeps it, or has dropped it for good. No other roster is ever selected for that epoch, and a dropped one is
  not selected again.\<close>

theorem roster_is_never_replaced:
  assumes "vera_run vl vera_new m" and "consensus_roster m e = Some bs" and "vera_run vl m m'"
  shows "consensus_roster m' e = Some bs \<or> (\<forall>m''. vera_run vl m' m'' \<longrightarrow> consensus_roster m'' e = None)"
proof -
  have "settled m e" using window_run [OF assms(1)] assms(2) by (auto simp: settled_def roster_window_def)
  note here = settled_run [OF assms(3) this]
  show ?thesis
  proof (cases "consensus_roster m' e = Some bs")
    case False
    with here assms(2) have gone: "settled m' e" "consensus_roster m' e = None" by auto
    have "consensus_roster m'' e = None" if "vera_run vl m' m''" for m''
      using settled_run [OF that gone(1)] gone(2) by simp
    then show ?thesis by blast
  qed simp
qed


section \<open>A delegation that is revoked\<close>

text \<open>The libraries under which the token \<open>j_token\<close> verifies, with the module's encodings.\<close>

definition t_vl :: vera_libs where
  "t_vl = w_vl\<lparr>acp_codecs := w_libs\<lparr>sha256 := j_sha\<rparr>\<rparr>"

definition t_block :: block_exec_ctx where
  "t_block = \<lparr>bx_genesis_id = zero32, bx_deployment_id = 7, bx_timestamp = \<lparr>ts_seconds = 150, ts_block_height = 1\<rparr>\<rparr>"

lemma t_libs: "token_codec_ok t_vl" "hex_ascii t_vl" "jwt_codecs t_vl = j_libs" "vera_sha t_vl = j_sha"
  "vera_hex t_vl = hex_lower" "borsh_token t_vl r = Inr (enc_token r)"
proof -
  show "token_codec_ok t_vl" by (auto simp: token_codec_ok_def t_vl_def w_vl_def decode_all_inverts)
  show "hex_ascii t_vl"
    using hex_lower_digits by (fastforce simp: hex_ascii_def vera_hex_def t_vl_def w_libs_def demo_libs_def list_all_iff
        is_lower_hex_def is_ascii_digit_def byte_between_def)
qed (simp_all add: t_vl_def w_vl_def vera_sha_def vera_hex_def w_libs_def demo_libs_def)

lemma t_hash: "selector (hash_jws_token t_vl j_token)"
  by (simp add: selector_def hash_jws_token_def t_libs(4,5) j_token_def j_sha_def hex_lower_def)

lemma t_audience: "audience 7 = ''vera:7''"
  by (simp add: audience_def show_nat.simps)

lemma t_verified: "verify_bearer_token (vera_sha t_vl) (jwt_codecs t_vl) j_token = Inr j_claims"
  using j_verifies by (simp add: t_libs)

lemma t_authorized:
  "authorize_delegation t_vl vera_new t_block (Did ''did:key:w'') j_token PolicyCommandsScope op = Inr j_claims"
  using tok_get [OF new_ok, of t_vl "hash_jws_token t_vl j_token"]
  by (simp add: authorize_delegation_def t_verified claims_authorize_def authorize_relay_def t_block_def t_audience j_claims_def
      tok_def vera_new_def)

lemma set_token_succeeds:
  assumes "token_ok vl m" and "selector (jt_token_hash rec)" and "selector (jt_issuer_did rec)"
    and "selector (jt_authorized_account rec)" and "borsh_token vl rec = Inr bs"
  shows "is_ok (fst (set_jws_token vl rec m))"
proof -
  obtain config where "get_chain_config vl m = Inr config" using assms(1) by (auto simp: token_ok_def)
  with assms tok_get [OF assms(1), of "jt_token_hash rec"] show ?thesis
    by (cases "Option.bind (tok vl (vm_store m) (jt_token_hash rec)) token_expiry_key"; cases "token_expiry_key rec")
      (simp_all add: set_jws_token_def st_bind_def st_lift_def st_read_def vera_put_def vera_delete_def st_modify_def
        st_ret_def selector_def validate_token_selector_def is_ok_def)
qed

definition t_record :: jws_token_record where
  "t_record = \<lparr>jt_token_hash = hash_jws_token t_vl j_token, jt_bearer_token = j_token, jt_issuer_did = j_issuer,
     jt_authorized_account = ''did:key:w'', jt_issued_at = \<lparr>ts_seconds = 100, ts_block_height = 0\<rparr>,
     jt_expires_at = \<lparr>ts_seconds = 200, ts_block_height = 0\<rparr>, jt_status = TokenInvalid, jt_first_used_at = None,
     jt_last_used_at = None, jt_invalidated_at = Some (bx_timestamp t_block), jt_invalidated_by = ''did:key:w''\<rparr>"

lemma t_revoked:
  "\<exists>m1. revoke_delegation t_vl t_block (Did ''did:key:w'') j_token vera_new = (Inr t_record, m1)"
proof -
  have "is_ok (fst (set_jws_token t_vl t_record vera_new))"
    by (rule set_token_succeeds [OF new_ok])
      (simp_all add: t_record_def t_hash t_libs(6), simp_all add: selector_def j_issuer_def SECP256K1_PUB_PREFIX_def)
  then obtain m1 where "set_jws_token t_vl t_record vera_new = (Inr (), m1)"
    by (cases "set_jws_token t_vl t_record vera_new") (auto simp: is_ok_def split: sum.splits)
  then show ?thesis
    using tok_get [OF new_ok, of t_vl "hash_jws_token t_vl j_token"]
    by (simp add: revoke_delegation_def t_verified st_bind_def st_lift_def st_read_def st_ret_def Let_def t_audience
        j_claims_def tok_def t_record_def) (simp add: t_block_def vera_new_def t_audience)
qed

theorem revoked_token_never_authorizes_witness:
  "\<exists>m1. authorize_delegation t_vl vera_new t_block (Did ''did:key:w'') j_token PolicyCommandsScope zero32 = Inr j_claims \<and>
     revoke_delegation t_vl t_block (Did ''did:key:w'') j_token vera_new = (Inr t_record, m1) \<and>
     \<not> is_ok (authorize_delegation t_vl m1 t_block (Did ''did:key:w'') j_token PolicyCommandsScope zero32)"
proof -
  have here: "vera_run t_vl m m" for m by (simp add: vera_run_def)
  obtain m1 where "revoke_delegation t_vl t_block (Did ''did:key:w'') j_token vera_new = (Inr t_record, m1)"
    using t_revoked by blast
  with revoked_token_never_authorizes [OF t_libs(1,2) here this here] t_authorized show ?thesis by blast
qed


section \<open>Rosters that are selected\<close>

definition r_key :: bytes where "r_key = replicate 32 (CHR 0x01)"

definition r_module :: vera_module where
  "r_module = snd (record_consensus_roster 3 [r_key] vera_new)"

lemma r_run: "vera_run t_vl vera_new r_module"
  unfolding vera_run_def r_module_def
  by (rule r_into_rtranclp, rule vera_step.roster [of 3 "[r_key]" _ "fst (record_consensus_roster 3 [r_key] vera_new)"]) simp

lemma r_selected: "consensus_roster r_module 3 = Some r_key"
proof -
  obtain r where run: "record_consensus_roster 3 [r_key] vera_new = (r, r_module)"
    by (metis prod.collapse r_module_def)
  have "prefix_iter kv_default ROSTER_PREFIX = []"
    using prefix_iter_set [of kv_default _ _ ROSTER_PREFIX] by (intro equals0I [THEN set_empty [THEN iffD1]]) auto
  then have ok: "is_ok r"
    using run by (auto simp: record_consensus_roster_def st_bind_def st_read_def st_ret_def vera_new_def consensus_roster_def
        Let_def vera_put_def st_modify_def is_ok_def)
  have "consensus_roster vera_new 3 = None" by (simp add: consensus_roster_def vera_new_def)
  with roster_run [OF _ run] ok show ?thesis by (auto simp: vera_new_def)
qed

theorem at_most_three_rosters_witness:
  "consensus_roster r_module 3 = Some r_key \<and> card {e. consensus_roster r_module e \<noteq> None} \<le> 3"
  using at_most_three_rosters [OF r_run] r_selected by blast

theorem roster_is_never_replaced_witness:
  "\<exists>m'. m' = snd (record_consensus_roster 4 [r_key] r_module) \<and> consensus_roster r_module 3 = Some r_key \<and>
    (consensus_roster m' 3 = Some r_key \<or> (\<forall>m''. vera_run t_vl m' m'' \<longrightarrow> consensus_roster m'' 3 = None))"
proof -
  let ?m' = "snd (record_consensus_roster 4 [r_key] r_module)"
  have "vera_run t_vl r_module ?m'"
    unfolding vera_run_def
    by (rule r_into_rtranclp, rule vera_step.roster [of 4 "[r_key]" _ "fst (record_consensus_roster 4 [r_key] r_module)"]) simp
  from roster_is_never_replaced [OF r_run r_selected this] r_selected show ?thesis by blast
qed


section \<open>A request that is approved\<close>

definition nibble :: "char \<Rightarrow> nat" where
  "nibble c = (if is_ascii_digit c then of_char c - 48 else of_char c - 87)"

fun unhex :: "string \<Rightarrow> string + bytes" where
  "unhex [] = Inr []"
| "unhex [c] = Inl ''odd''"
| "unhex (a # b # s) = res_bind (unhex s) (\<lambda>bs. Inr (char_of (16 * nibble a + nibble b) # bs))"

lemma nibble_digit: "n < 16 \<Longrightarrow> nibble (''0123456789abcdef'' ! n) = n"
proof -
  assume "n < 16"
  moreover have "\<forall>k \<in> set [0..<16]. nibble (''0123456789abcdef'' ! k) = k" by code_simp
  ultimately show ?thesis by simp
qed

lemma unhex_hex [simp]: "unhex (hex_lower bs) = Inr bs"
proof (induction bs)
  case (Cons b bs)
  with byte_nibbles [of b] show ?case by (simp add: hex_lower_Cons nibble_digit)
qed (simp add: hex_lower_def)

lemma length_hex [simp]: "length (hex_lower bs) = 2 * length bs"
  by (induction bs) (simp_all add: hex_lower_Cons, simp add: hex_lower_def)

text \<open>A signature is valid when it starts with the digest.\<close>

definition a_vl :: vera_libs where
  "a_vl = w_vl\<lparr>hex_decode := unhex, jwt_codecs := j_libs\<lparr>verify_prehash := \<lambda>key digest signature.
     if take 32 signature = digest then Inr () else Inl ''signature error''\<rparr>\<rparr>"

definition a_policy :: operator_policy where
  "a_policy = \<lparr>op_threshold = 1, op_keys = [hex_lower (replicate 33 (CHR 0x02))]\<rparr>"

definition a_state :: administration_state where
  "a_state = \<lparr>as_policy = a_policy, as_sequence = 0, as_membership_policy = None\<rparr>"

definition a_request :: administrative_request where
  "a_request = \<lparr>aq_genesis_id = replicate 32 (CHR 0x01), aq_sequence = 0, aq_expires_at = 100, aq_command = RotateOperators a_policy\<rparr>"

definition a_digest :: bytes where "a_digest = vera_sha a_vl (SIGNING_NAMESPACE @ to_be_bytes 0)"

definition a_signed :: signed_administrative_request where
  "a_signed = \<lparr>sr_request = a_request,
     sr_approvals = [\<lparr>oa_signer = 0, oa_signature = hex_lower (a_digest @ replicate 32 (CHR 0x00))\<rparr>]\<rparr>"

definition a_module :: "administration_state \<Rightarrow> vera_module" where
  "a_module state = \<lparr>vm_store = kv_put STATE_KEY (enc_administration state) kv_default\<rparr>"

lemma a_libs [simp]: "hex_decode a_vl = unhex" "vera_hex a_vl = hex_lower" "length (vera_sha a_vl bs) = 32"
  "borsh_administration a_vl st = Inr (enc_administration st)" "unborsh_administration a_vl = decode_all dec_administration"
  "borsh_admin_request a_vl q = Inr (to_be_bytes (aq_sequence q))"
  "verify_digest (jwt_codecs a_vl) (replicate 33 (CHR 0x02)) digest signature =
     (if take 32 signature = digest then Inr () else Inl ''pubkey recovery failed: signature error'')"
  "is_ok (decode_pubkey (jwt_codecs a_vl) (replicate 33 (CHR 0x02)))"
  using w_sha by (simp_all add: a_vl_def w_vl_def vera_hex_def vera_sha_def w_libs_def demo_libs_def verify_digest_def decode_pubkey_def
      is_ok_def)

lemma a_codec: "administration_codec_ok a_vl"
  by (auto simp: administration_codec_ok_def decode_all_inverts)

lemma a_valid: "operator_policy_validate a_vl a_policy = Inr ()"
  using a_libs(8) by (auto simp: operator_policy_validate_def operator_key_check_def a_policy_def MAX_OPERATORS_def is_ok_def
      res_bind_def map_err_def split: sum.splits)

lemma a_initialized: "initialize_administration a_vl a_policy vera_new = (Inr (), a_module a_state)"
  by (simp add: initialize_administration_def st_bind_def st_lift_def st_read_def a_valid vera_new_def vera_put_def st_modify_def
      a_module_def a_state_def)

lemma a_read: "administration a_vl (a_module st) = Inr (Some st)"
  by (simp add: administration_def a_module_def decode_all_inverts)

lemma a_approved: "check_approvals a_vl a_state (replicate 32 (CHR 0x01)) 50 a_signed = Inr ()"
  by (simp add: check_approvals_def signing_digest_def a_signed_def a_state_def a_request_def a_policy_def zero32_def
      approval_check_def a_digest_def replicate_eq_replicate)

lemma a_applied:
  "\<exists>v1. apply_administrative_request a_vl (replicate 32 (CHR 0x01)) 50 a_signed (a_module a_state, acp_new) = (Inr (), (v1, acp_new))"
proof -
  have request: "sr_request a_signed = a_request" "aq_command a_request = RotateOperators a_policy"
    by (simp_all add: a_signed_def a_request_def)
  have later: "next_administration a_vl acp_new a_state (RotateOperators a_policy) = Inr (a_state\<lparr>as_sequence := 1\<rparr>)"
    by (simp add: next_administration_def a_valid a_state_def checked_add_def)
  show ?thesis
    by (simp add: apply_administrative_request_def st_bind_def st_lift_def st_read_def a_read a_approved request later
        run_admin_command_def st_ret_def on_vera_def vera_put_def st_modify_def)
qed

theorem administrative_change_needs_quorum_witness:
  "\<exists>v1 state digest.
    apply_administrative_request a_vl (replicate 32 (CHR 0x01)) 50 a_signed (a_module a_state, acp_new) = (Inr (), (v1, acp_new)) \<and>
    administration a_vl (a_module a_state) = Inr (Some state) \<and>
    op_threshold (as_policy state) \<le> card {i. signed_by a_vl (as_policy state) digest (sr_approvals a_signed) i}"
proof -
  have wf: "kv_wf (vm_store (a_module a_state))" by (simp add: a_module_def)
  obtain v1 where run: "apply_administrative_request a_vl (replicate 32 (CHR 0x01)) 50 a_signed (a_module a_state, acp_new) =
      (Inr (), (v1, acp_new))" using a_applied by blast
  from administrative_change_needs_quorum [OF wf run] run show ?thesis by blast
qed

theorem administrative_request_runs_once_witness:
  "\<exists>v1 e. initialize_administration a_vl a_policy vera_new = (Inr (), a_module a_state) \<and>
    apply_administrative_request a_vl (replicate 32 (CHR 0x01)) 50 a_signed (a_module a_state, acp_new) = (Inr (), (v1, acp_new)) \<and>
    apply_administrative_request a_vl (replicate 32 (CHR 0x01)) 50 a_signed (v1, acp_new) = (Inl e, (v1, acp_new))"
proof -
  have wf: "kv_wf (vm_store (a_module a_state))" by (simp add: a_module_def)
  obtain v1 where run: "apply_administrative_request a_vl (replicate 32 (CHR 0x01)) 50 a_signed (a_module a_state, acp_new) =
      (Inr (), (v1, acp_new))" using a_applied by blast
  have "vera_run a_vl v1 v1" by (simp add: vera_run_def)
  from administrative_request_runs_once [OF a_codec wf run this] run a_initialized show ?thesis by blast
qed

end
