(* ===== verification/Spec2Isabelle.thy ===== *)
theory Spec2Isabelle
  imports Zanzibar_Properties Qmdb_Properties Acp_Guarantees Native_Account Vera_Guarantees
begin

text \<open>
  A verification library for the permission system of Vera, a blockchain node written in Rust. The
  repository's crates live under \<open>src/crates/\<close>; a path below is relative to it.

  \<^bold>\<open>The program.\<close> Access policies define resources, relations and permissions. A permission is an
  expression over relations; relationship tuples connect objects to subjects; the permission engine
  decides whether a subject has a permission on an object. The ACP module keeps policies,
  relationships, registrations of objects to owners, commitments to later registrations and recorded
  access decisions in an ordered key-value store, and executes the commands of a block. Commands may be
  submitted on an actor's behalf with a signed bearer token; the outcome of such an operation is kept in
  a ledger until its deadline. The Vera module keeps the registry of used and revoked tokens, the grants of
  relays, the operators whose approvals administrative changes need, and the rosters of consensus epochs.

  \<^bold>\<open>Conventions.\<close> \<open>Prelude\<close> holds them. A Rust byte vector or string is a list of bytes
  (\<^typ>\<open>string\<close>); \<open>Result\<close> is a sum with \<open>Inl\<close> the error; a fallible method on \<open>&mut self\<close> is a
  function from a state to a result and a state, so that what a failing call wrote stays visible; a
  \<open>u64\<close> is a \<open>64 word\<close> and checked, saturating and wrapping arithmetic is written out
  (\<open>Machine_Int\<close>); \<open>usize\<close> is \<open>nat\<close>. Code outside the repository (serde and Borsh codecs, hex, SHA-256,
  base64, multibase, ECDSA, the YAML event stream and its equality of keys) is a field of a record of parameters: \<open>acp_libs\<close>,
  \<open>policy_libs\<close>, \<open>jwt_libs\<close>, \<open>vera_libs\<close>. A theorem that relies on such code states what it relies
  on by name: \<open>hex_ok\<close>, \<open>relationship_codec_ok\<close>, \<open>commitment_codec_ok\<close>, \<open>event_codec_ok\<close>,
  \<open>multibase_ok\<close>, \<open>sec1_ok\<close>, \<open>module_libs_ok\<close>, \<open>token_codec_ok\<close>, \<open>hex_ascii\<close>,
  \<open>administration_codec_ok\<close>. Records with a \<open>Did\<close> are decoded through \<open>Did::new\<close>, so
  \<open>relationship_codec_ok\<close> asks for the round trip only with valid DIDs, and the commands of reachable
  states carry valid ones (\<open>command_dids\<close>), as every caller does. \<open>Demo_Libs\<close> and \<open>Demo_Vera\<close> give functions that satisfy them and
  \<open>Demo_Run\<close> runs the ACP module on them; the witnesses use these.

  \<^bold>\<open>Components and theories.\<close>
  \<^item> \<open>identity/src/did.rs\<close>: \<open>Identity\<close>.
  \<^item> \<open>zanzibar/src/types\<close>, \<open>expression\<close>, \<open>lookup.rs\<close>: \<open>Zanzibar_Types\<close>, \<open>Expression_Parser\<close>
    (printing then parsing a canonical expression gives it back; the parser only returns canonical ones),
    \<open>Policy_Lookup\<close>, \<open>Policy_Validation\<close> (no dangling references; what the owner check guarantees and
    where it does not).
  \<^item> \<open>zanzibar/src/engine\<close>: \<open>Permission_Engine\<close> is the evaluator with its cache, its taint for answers
    cut short by a cycle and its step and depth limits; \<open>Permission_Semantics\<close> is the specification, an
    inductive derivability relation; \<open>Permission_Correctness\<close> proves in the locale \<open>zanzibar_reads\<close>
    that every answer is the specification's; \<open>Explain\<close> does the same for the tracing evaluator and
    \<open>Evaluation_Limits\<close> bounds the steps and the possible errors. The recursion of the evaluator is
    bounded by fuel derived from the depth limit, which the code itself enforces, so running out of fuel
    and exceeding the depth limit coincide.
  \<^item> \<open>zanzibar/src/store\<close>: \<open>Zanzibar_Store\<close>, interpreted for the locale in \<open>Zanzibar_Properties\<close>;
    writes refine updates of the set of tuples.
  \<^item> \<open>acp/src/policy_yaml\<close>: \<open>Policy_Yaml\<close> (the bounded YAML reader accepts exactly the documents
    within its budget and without keys the library considers equal) and \<open>Acp_Policy\<close> (every accepted definition gives a
    well-formed policy whose owner has every permission).
  \<^item> \<open>vera-modules/src/kv_store.rs\<close>, \<open>types.rs\<close>: \<open>Module_Kv\<close>, an ordered map with change tracking.
  \<^item> \<open>vera-modules/src/acp/types.rs\<close>, \<open>keys.rs\<close>, \<open>error.rs\<close>: \<open>Acp_Types\<close>; \<open>record_store.rs\<close> and
    \<open>read_capture.rs\<close>: \<open>Record_Reads\<close>; \<open>zanzibar_store.rs\<close>: \<open>Qmdb_Store\<close>, \<open>Qmdb_Properties\<close>.
  \<^item> \<open>acp/mod.rs\<close> and its submodules: \<open>Acp_Merkle\<close> (registration commitments: generated proofs verify,
    accepted proofs are for committed leaves or exhibit a hash collision), \<open>Acp_Module\<close> (state, storage
    access and policies), \<open>Acp_Decision\<close> (access decisions), \<open>Acp_Commands\<close> (policy commands),
    \<open>Acp_Atomicity\<close> (a failed command changes nothing), \<open>Acp_Invariants\<close> (every object has at most one
    owner record; a command is a step of an abstract registry), \<open>Acp_Ledger\<close> (\<open>operation.rs\<close>),
    \<open>Acp_Commitments\<close> (the invariant of commitments and their expiry indexes), \<open>Acp_Expiry\<close> (what
    the ends of blocks do and that they catch up with every deadline), \<open>Acp_Frames\<close> (which records an
    operation leaves alone), \<open>Acp_Reachable\<close> (the states the module reaches, by the operations that block
    execution, the bulletin, the rings and delegations call, and the invariant they satisfy), \<open>Acp_Guarantees\<close> (what holds in all of them: unique owners, ownership moves only by an
    earlier commitment, every deadline is served, ends of blocks cannot fail, outcomes within budget).
  \<^item> \<open>vera-modules/src/vera\<close>: \<open>Vera_Types\<close> (records, errors, keys), \<open>Vera_Module\<close> (token registry,
    queries, expiry, restoration check, relays, delegations), \<open>Vera_Admin\<close> (operators and their
    approvals, consensus rosters), \<open>Vera_Tokens\<close> (the invariant of the registry), \<open>Vera_Safety\<close> (no
    operation of a run revives an invalid token), \<open>Vera_Frames\<close> (which records the operations leave
    alone, what a request and a roster change), \<open>Vera_Guarantees\<close> (over any run: a revoked token
    authorizes nothing, a request needs a quorum and takes effect once, a roster is never replaced and at
    most three are kept). A run consists of the calls that block execution, the precompiles and the native
    genesis make on the registry, the operators and the rosters (\<open>vera_step\<close>); the methods no node code
    calls (\<open>set_chain_config\<close>, \<open>delete_jws_token\<close>, \<open>set_params\<close>) are modelled but are not steps.
  \<^item> \<open>vera-modules/src/native_account\<close>: \<open>Native_Account\<close> (a nonce is spent once).
  \<^item> \<open>vera-crypto/src/jwt.rs\<close>, \<open>operation.rs\<close>, \<open>secp256k1.rs\<close>: \<open>Bearer_Token\<close>. \<open>Utf8\<close> is
    \<open>std::str::from_utf8\<close>. \<open>Deadline_Index\<close> is the contract of the ordered expiry indexes.

  \<^bold>\<open>Not modelled.\<close> Networking, consensus wiring, RPC servers, command lines, EVM execution and the
  database are I/O around third-party libraries (alloy, revm, commonware, QMDB). The bulletin, the
  validator registry, block execution and the threshold objects, rings and nodes of the Vera module are
  not modelled. Within modelled components: the delegated entry points of the ACP module (their effects on
  it are compositions of the modelled operations), its relationship queries and its checks on restored
  state, non-ASCII input of the expression parser, the builder helpers of the Zanzibar types, serde derives.
\<close>

end
